(* ===== verification/Prelude.thy ===== *)
theory Prelude
  imports Complex_Main "HOL-Library.Sublist" "HOL-Library.Multiset"
begin

text \<open>
  Shared vocabulary of the development: the outcome of a Go call (a value, an error, a run-time
  panic), the gRPC status codes the sources use, the parts of the Go standard library on strings
  and slash-separated paths that the sources call, and generic lemmas on lists, maps and
  conditionals.

  Conventions of all theories: log statements, tracing spans and mutex operations whose critical
  section is one definition are left out; everything that changes state or decides a branch is
  kept. A Go \<open>string\<close> or byte slice is a \<open>string\<close> (a list of bytes), a time is an \<open>int\<close> of
  nanoseconds, an atomic counter is an \<open>int\<close>.
\<close>

section \<open>Outcomes of Go calls\<close>

datatype grpc_code =
    OK | Canceled | InvalidArgument | DeadlineExceeded | NotFound | AlreadyExists
  | FailedPrecondition | Aborted | Unimplemented | Internal | Unavailable

datatype go_error = Status grpc_code string | Error string

datatype 'a outcome = Return 'a | Fail go_error | Panic

fun is_return :: "'a outcome \<Rightarrow> bool" where
  "is_return (Return _) = True"
| "is_return _ = False"

text \<open>\<open>status.Code\<close>: the code of a status error, \<open>OK\<close> for no error; any other error has the code
  \<open>Unknown\<close>, which the sources never compare with, so it is represented by \<open>None\<close>.\<close>

fun status_code :: "'a outcome \<Rightarrow> grpc_code option" where
  "status_code (Return _) = Some OK"
| "status_code (Fail (Status c _)) = Some c"
| "status_code (Fail (Error _)) = None"
| "status_code Panic = None"

named_theorems go_path "equations of the path and string library"
named_theorems inv_intro "invariant preservation rules"

section \<open>Strings\<close>

type_synonym bytes = string

text \<open>\<open>strings.HasPrefix\<close> and \<open>strings.Contains\<close>.\<close>

definition HasPrefix :: "string \<Rightarrow> string \<Rightarrow> bool" where
  "HasPrefix s p = (take (length p) s = p)"

fun Contains :: "string \<Rightarrow> string \<Rightarrow> bool" where
  "Contains [] p = (p = [])"
| "Contains (c # s) p = (HasPrefix (c # s) p \<or> Contains s p)"

text \<open>\<open>strings.Split\<close> with a one-byte separator.\<close>

fun Split :: "char \<Rightarrow> string \<Rightarrow> string list" where
  "Split sep [] = [[]]"
| "Split sep (c # s) =
     (if c = sep then [] # Split sep s
      else (case Split sep s of [] \<Rightarrow> [[c]] | w # ws \<Rightarrow> (c # w) # ws))"

text \<open>\<open>strings.SplitN(s, sep, 2)\<close> with a one-byte separator.\<close>

fun SplitN2 :: "char \<Rightarrow> string \<Rightarrow> string list" where
  "SplitN2 sep [] = [[]]"
| "SplitN2 sep (c # s) =
     (if c = sep then [[], s]
      else (case SplitN2 sep s of [] \<Rightarrow> [[c]] | w # ws \<Rightarrow> (c # w) # ws))"

text \<open>\<open>strings.TrimSpace\<close> on ASCII text.\<close>

definition is_space :: "char \<Rightarrow> bool" where
  "is_space c = (c \<in> {CHR '' '', CHR 0x09, CHR 0x0A, CHR 0x0B, CHR 0x0C, CHR 0x0D})"

definition TrimSpace :: "string \<Rightarrow> string" where
  "TrimSpace s = rev (dropWhile is_space (rev (dropWhile is_space s)))"

lemma HasPrefix_append [simp]: "HasPrefix (p @ s) p"
  by (simp add: HasPrefix_def)

lemma HasPrefix_Nil [simp]: "HasPrefix s []"
  by (simp add: HasPrefix_def)

lemma HasPrefix_iff_prefix: "HasPrefix s p = prefix p s"
  by (auto simp: HasPrefix_def prefix_def) (metis append_take_drop_id)

lemma HasPrefix_trans: "HasPrefix s q \<Longrightarrow> HasPrefix q p \<Longrightarrow> HasPrefix s p"
  by (simp add: HasPrefix_iff_prefix)

lemma HasPrefix_Cons [simp]: "HasPrefix (c # s) (d # p) = (c = d \<and> HasPrefix s p)"
  by (auto simp: HasPrefix_def)

lemma HasPrefix_Nil_Cons [simp]: "\<not> HasPrefix [] (d # p)"
  by (simp add: HasPrefix_def)

lemma Contains_iff_sublist: "Contains s p = sublist p s"
  by (induction s) (auto simp: HasPrefix_iff_prefix sublist_Cons_right)

lemma Split_not_Nil [simp]: "Split sep s \<noteq> []"
  by (induction s) (auto split: list.splits)

lemma Split_no_sep: "sep \<notin> set s \<Longrightarrow> Split sep s = [s]"
  by (induction s) auto

lemma SplitN2_append: "sep \<notin> set s \<Longrightarrow> SplitN2 sep (s @ sep # t) = [s, t]"
  by (induction s) auto

lemma SplitN2_no_sep: "sep \<notin> set s \<Longrightarrow> SplitN2 sep s = [s]"
  by (induction s) auto

lemma SplitN2_two: "SplitN2 sep s = [a, b] \<Longrightarrow> s = a @ sep # b \<and> sep \<notin> set a"
  by (induction s arbitrary: a b) (auto split: if_splits list.splits)

section \<open>Slash-separated paths\<close>

text \<open>\<open>filepath.Ext\<close>: scan backwards for a dot, stop at a slash.\<close>

fun ext_scan :: "string \<Rightarrow> string \<Rightarrow> string" where
  "ext_scan [] acc = []"
| "ext_scan (c # cs) acc =
     (if c = CHR ''/'' then [] else if c = CHR ''.'' then c # acc else ext_scan cs (c # acc))"

definition Ext :: "string \<Rightarrow> string" where
  "Ext path = ext_scan (rev path) []"

text \<open>\<open>filepath.Base\<close>.\<close>

definition Base :: "string \<Rightarrow> string" where
  "Base path =
     (if path = [] then ''.''
      else let b = rev (takeWhile (\<lambda>c. c \<noteq> CHR ''/'') (dropWhile (\<lambda>c. c = CHR ''/'') (rev path)))
           in if b = [] then ''/'' else b)"

text \<open>\<open>path.Clean\<close> over the components of a path, \<open>path.Split\<close>, \<open>path.Dir\<close>, \<open>path.Join\<close>.\<close>

fun clean_stack :: "bool \<Rightarrow> string list \<Rightarrow> string list \<Rightarrow> string list" where
  "clean_stack rooted st [] = rev st"
| "clean_stack rooted st (c # cs) =
     (if c = '''' \<or> c = ''.'' then clean_stack rooted st cs
      else if c = ''..'' then
        (case st of
           [] \<Rightarrow> clean_stack rooted (if rooted then [] else [c]) cs
         | x # below \<Rightarrow>
             if x = ''..'' then clean_stack rooted (c # st) cs else clean_stack rooted below cs)
      else clean_stack rooted (c # st) cs)"

fun join_with :: "string \<Rightarrow> string list \<Rightarrow> string" where
  "join_with sep [] = []"
| "join_with sep [w] = w"
| "join_with sep (w # ws) = w @ sep @ join_with sep ws"

definition Clean :: "string \<Rightarrow> string" where
  "Clean path =
     (if path = [] then ''.''
      else let rooted = (hd path = CHR ''/'');
               body = join_with ''/'' (clean_stack rooted [] (Split (CHR ''/'') path))
           in if rooted then ''/'' @ body else if body = [] then ''.'' else body)"

definition Dir :: "string \<Rightarrow> string" where
  "Dir path = Clean (rev (dropWhile (\<lambda>c. c \<noteq> CHR ''/'') (rev path)))"

definition Join :: "string list \<Rightarrow> string" where
  "Join elems =
     (let ne = filter (\<lambda>e. e \<noteq> []) elems in if ne = [] then [] else Clean (join_with ''/'' ne))"

definition IsAbs :: "string \<Rightarrow> bool" where
  "IsAbs path = HasPrefix path ''/''"

lemma ext_scan_suffix: "ext_scan r acc = e \<Longrightarrow> e \<noteq> [] \<Longrightarrow> \<exists>r'. rev r @ acc = r' @ e"
  by (induction r arbitrary: acc) (auto split: if_splits)

lemma Ext_suffix: "\<exists>stem. path = stem @ Ext path"
proof (cases "Ext path = []")
  case True
  then show ?thesis by simp
next
  case False
  then show ?thesis using ext_scan_suffix [of "rev path" "[]" "Ext path"] by (simp add: Ext_def)
qed

lemma ext_scan_append:
  assumes "CHR ''/'' \<notin> set e" and "CHR ''.'' \<notin> set e"
  shows "ext_scan (rev e @ r) acc = ext_scan r (e @ acc)"
  using assms by (induction e arbitrary: acc rule: rev_induct) auto

lemma Ext_append_ext:
  assumes "CHR ''/'' \<notin> set e" and "CHR ''.'' \<notin> set e"
  shows "Ext (stem @ CHR ''.'' # e) = CHR ''.'' # e"
  using ext_scan_append [OF assms, of "CHR ''.'' # rev stem" "[]"] by (simp add: Ext_def)

lemma Ext_Nil [simp, go_path]: "Ext [] = []"
  by (simp add: Ext_def)

lemma clean_stack_snoc:
  "c \<noteq> '''' \<Longrightarrow> c \<noteq> ''.'' \<Longrightarrow> c \<noteq> ''..'' \<Longrightarrow>
   clean_stack rooted st (cs @ [c]) = clean_stack rooted st cs @ [c]"
  by (induction rooted st cs rule: clean_stack.induct) (auto split: list.splits)

lemma Split_snoc: "sep \<notin> set w \<Longrightarrow> Split sep (s @ sep # w) = Split sep s @ [w]"
  by (induction s) (auto simp: Split_no_sep split: list.splits)

lemma join_with_snoc:
  "join_with sep (ws @ [w]) = (if ws = [] then w else join_with sep ws @ sep @ w)"
proof (induction ws)
  case (Cons v vs)
  then show ?case by (cases vs) auto
qed simp

lemma Base_last:
  assumes "CHR ''/'' \<notin> set w" and "w \<noteq> []"
  shows "Base (s @ CHR ''/'' # w) = w" and "Base w = w"
proof -
  have d: "dropWhile (\<lambda>c. c = CHR ''/'') (rev w @ t) = rev w @ t" for t
    using assms by (cases "rev w") (auto simp: rev_eq_Cons_iff)
  have "takeWhile (\<lambda>c. c \<noteq> CHR ''/'') (rev w @ CHR ''/'' # t) = rev w" for t
    using assms(1) by (subst takeWhile_append2) auto
  then show "Base (s @ CHR ''/'' # w) = w" using assms d [of "CHR ''/'' # rev s"] by (simp add: Base_def)
  have "takeWhile (\<lambda>c. c \<noteq> CHR ''/'') (rev w) = rev w"
    using assms(1) by (auto simp: takeWhile_eq_all_conv)
  with d [of "[]"] have "rev (takeWhile (\<lambda>c. c \<noteq> CHR ''/'') (dropWhile (\<lambda>c. c = CHR ''/'') (rev w))) = w"
    by (metis append_Nil2 rev_rev_ident)
  then show "Base w = w" using assms(2) by (simp add: Base_def)
qed

text \<open>A name is ordinary when it is one path element other than the two dot names.\<close>

definition plain_name :: "string \<Rightarrow> bool" where
  "plain_name w = (CHR ''/'' \<notin> set w \<and> w \<noteq> '''' \<and> w \<noteq> ''.'' \<and> w \<noteq> ''..'')"

lemma Base_Clean:
  assumes "plain_name w"
  shows "Base (Clean (s @ CHR ''/'' # w)) = w" and "Base (Clean w) = w"
proof -
  have w: "CHR ''/'' \<notin> set w" "w \<noteq> []" "w \<noteq> ''.''" "w \<noteq> ''..''"
    using assms by (auto simp: plain_name_def)
  have b: "Base ((if r then ''/'' else []) @ join_with ''/'' (ws @ [w])) = w" for r ws
    using Base_last(1) [OF w(1,2), of "(if r then ''/'' else []) @ join_with ''/'' ws"]
      Base_last(1) [OF w(1,2), of "[]"] Base_last(2) [OF w(1,2)]
    by (auto simp: join_with_snoc)
  have ne: "join_with ''/'' (ws @ [w]) \<noteq> []" for ws
    using w by (simp add: join_with_snoc)
  show "Base (Clean (s @ CHR ''/'' # w)) = w"
    using b [of True] b [of False] w ne
    by (simp add: Clean_def Let_def Split_snoc clean_stack_snoc)
  show "Base (Clean w) = w"
    using b [of False "[]"] w by (cases w) (auto simp: Clean_def Let_def Split_no_sep)
qed

lemma Base_Join:
  assumes "plain_name w"
  shows "Base (Join (xs @ [w])) = w"
proof -
  have "w \<noteq> []" using assms by (simp add: plain_name_def)
  then show ?thesis
    using Base_Clean [OF assms] by (auto simp: Join_def Let_def join_with_snoc)
qed

section \<open>Floating point\<close>

text \<open>The values the sources compute in \<open>float64\<close> are ratios of counters: rationals, infinities
  and NaN, without rounding.\<close>

datatype go_float = Fin rat | PosInf | NegInf | NaN

definition fdiv :: "int \<Rightarrow> int \<Rightarrow> go_float" where
  "fdiv a b =
     (if b \<noteq> 0 then Fin (rat_of_int a / rat_of_int b)
      else if a = 0 then NaN else if a > 0 then PosInf else NegInf)"

section \<open>Lists and maps\<close>

text \<open>\<open>xs[i]\<close> with the bounds check of Go; \<open>xs[i] = v\<close> likewise.\<close>

definition index :: "'a list \<Rightarrow> int \<Rightarrow> 'a option" where
  "index xs i = (if 0 \<le> i \<and> i < int (length xs) then Some (xs ! nat i) else None)"

lemma index_nat [simp]: "index xs (int n) = (if n < length xs then Some (xs ! n) else None)"
  by (simp add: index_def)

lemma index_Some_iff: "index xs i = Some x \<longleftrightarrow> 0 \<le> i \<and> i < int (length xs) \<and> xs ! nat i = x"
  by (auto simp: index_def)

definition swap_at :: "nat \<Rightarrow> nat \<Rightarrow> 'a list \<Rightarrow> 'a list" where
  "swap_at m n xs = xs[m := xs ! n, n := xs ! m]"

lemma length_swap_at [simp]: "length (swap_at m n xs) = length xs"
  by (simp add: swap_at_def)

lemma nth_swap_at:
  assumes "m < length xs" and "n < length xs" and "j < length xs"
  shows "swap_at m n xs ! j = (if j = n then xs ! m else if j = m then xs ! n else xs ! j)"
  using assms by (auto simp: swap_at_def nth_list_update)

lemma mset_swap_at:
  "m < length xs \<Longrightarrow> n < length xs \<Longrightarrow> mset (swap_at m n xs) = mset xs"
  by (simp add: swap_at_def mset_swap)

lemma map_upd_delete_other [simp]: "k \<noteq> k' \<Longrightarrow> (m(k := v)) k' = m k'"
  by simp

end
