(* ===== verification/Transitions.thy ===== *)
theory Transitions
  imports Prelude
begin

text \<open>
  What the state machines of the components share: a step function that gives \<open>None\<close> when an event is
  not possible, runs over lists of events, and reachability from the initial states. Every component
  that is a state machine interprets the locale on its own step function and its own inductive
  predicate.
\<close>

fun run_events :: "('ev \<Rightarrow> 's \<Rightarrow> 's option) \<Rightarrow> 'ev list \<Rightarrow> 's \<Rightarrow> 's option" where
  "run_events step [] s = Some s"
| "run_events step (ev # evs) s = (case step ev s of None \<Rightarrow> None | Some s' \<Rightarrow> run_events step evs s')"

lemma run_events_append:
  "run_events step (evs @ evs') s = Option.bind (run_events step evs s) (run_events step evs')"
  by (induction evs arbitrary: s) (auto split: option.splits)

locale transition_system =
  fixes step :: "'ev \<Rightarrow> 's \<Rightarrow> 's option" and init :: "'s \<Rightarrow> bool" and reach :: "'s \<Rightarrow> bool"
  assumes init_reach: "init s \<Longrightarrow> reach s"
    and step_reach: "reach s \<Longrightarrow> step ev s = Some s' \<Longrightarrow> reach s'"
    and reach_induct: "reach s \<Longrightarrow> (\<And>s. init s \<Longrightarrow> P s) \<Longrightarrow> (\<And>s ev s'. reach s \<Longrightarrow> P s \<Longrightarrow> step ev s = Some s' \<Longrightarrow> P s') \<Longrightarrow> P s"
begin

lemma run_reach: "reach s \<Longrightarrow> run_events step evs s = Some s' \<Longrightarrow> reach s'"
  by (induction evs arbitrary: s) (auto split: option.splits intro: step_reach)

text \<open>An invariant holds in every reachable state.\<close>

lemma invariant:
  assumes "reach s" and "\<And>s. init s \<Longrightarrow> I s" and "\<And>s ev s'. I s \<Longrightarrow> step ev s = Some s' \<Longrightarrow> I s'"
  shows "I s"
  using assms(1) by (rule reach_induct) (use assms(2,3) in blast)+

text \<open>The reachable states are the ends of runs.\<close>

lemma reach_iff_run: "reach s \<longleftrightarrow> (\<exists>s0 evs. init s0 \<and> run_events step evs s0 = Some s)"
proof
  assume "reach s"
  then show "\<exists>s0 evs. init s0 \<and> run_events step evs s0 = Some s"
  proof (rule reach_induct)
    fix s :: 's
    assume "init s"
    then show "\<exists>s0 evs. init s0 \<and> run_events step evs s0 = Some s" by (intro exI [of _ s] exI [of _ "[]"]) simp
  next
    fix s ev s'
    assume "\<exists>s0 evs. init s0 \<and> run_events step evs s0 = Some s" and "step ev s = Some s'"
    then obtain s0 evs where "init s0" "run_events step evs s0 = Some s" by blast
    then have "init s0" "run_events step (evs @ [ev]) s0 = Some s'" using \<open>step ev s = Some s'\<close> by (simp_all add: run_events_append)
    then show "\<exists>s0 evs. init s0 \<and> run_events step evs s0 = Some s'" by blast
  qed
qed (auto intro: run_reach init_reach)

text \<open>A reachable state with an observation that a run computes.\<close>

lemma run_observed:
  assumes "init s" and "map_option f (run_events step evs s) = Some v"
  obtains s' where "reach s'" and "f s' = v"
  using assms run_reach [OF init_reach [OF assms(1)]] by (cases "run_events step evs s") auto

end

end
