(* ===== verification/ExpirationHeap.thy ===== *)
theory ExpirationHeap
  imports Prelude
begin

text \<open>
  The binary heap of expiration dates of the local storage driver
  (\<open>ExpirationHeap\<close> in \<open>src/pkg/storage/local.go\<close>). The slice of entry pointers is a list of entries
  (nothing mutates an entry after it was pushed), the loops of \<open>siftDown\<close> and \<open>heapify\<close> are
  recursive functions, the mutex is held for each operation as a whole. The lemmas show that every
  operation keeps the heap order and the multiset of entries, whatever the order of the slice
  before it; the interpretation at the end discharges the priority queue contract of the locale
  \<open>expiration_queue\<close>, on which the notifier relies.
\<close>

section \<open>Model\<close>

record ExpirationEntry =
  entry_hash :: string
  entry_date :: int

type_synonym exp_heap = "ExpirationEntry list"

definition zero_time :: int where
  "zero_time = - 62135596800 * 1000000000"

definition NewExpirationHeap :: exp_heap where
  "NewExpirationHeap = []"

definition smallest_child :: "nat \<Rightarrow> exp_heap \<Rightarrow> nat" where
  "smallest_child i h =
     (let l = 2 * i + 1; r = 2 * i + 2;
          m = (if l < length h \<and> entry_date (h ! l) < entry_date (h ! i) then l else i)
      in if r < length h \<and> entry_date (h ! r) < entry_date (h ! m) then r else m)"

lemma smallest_child_bounds:
  "smallest_child i h \<noteq> i \<Longrightarrow> i < smallest_child i h \<and> smallest_child i h < length h"
  by (auto simp: smallest_child_def Let_def split: if_splits)

function siftDown :: "nat \<Rightarrow> exp_heap \<Rightarrow> exp_heap" where
  "siftDown i h =
     (let m = smallest_child i h in if m \<noteq> i then siftDown m (swap_at m i h) else h)"
  by pat_completeness auto
termination
  by (relation "measure (\<lambda>(i, h). length h - i)")
    (auto dest: smallest_child_bounds intro: diff_less_mono2)

declare siftDown.simps [simp del]

fun heapify_from :: "nat \<Rightarrow> exp_heap \<Rightarrow> exp_heap" where
  "heapify_from 0 h = siftDown 0 h"
| "heapify_from (Suc i) h = heapify_from i (siftDown (Suc i) h)"

definition heapify :: "exp_heap \<Rightarrow> exp_heap" where
  "heapify h = heapify_from (length h div 2) h"

definition heap_Push :: "string \<Rightarrow> int \<Rightarrow> exp_heap \<Rightarrow> exp_heap" where
  "heap_Push hash expirationDate h =
     (let h' = h @ [\<lparr>entry_hash = hash, entry_date = expirationDate\<rparr>]
      in heapify (swap_at (length h' - 1) 0 h'))"

definition heap_Peek :: "exp_heap \<Rightarrow> string \<times> int" where
  "heap_Peek h =
     (case h of [] \<Rightarrow> ('''', zero_time) | e # _ \<Rightarrow> (entry_hash e, entry_date e))"

definition heap_Len :: "exp_heap \<Rightarrow> nat" where
  "heap_Len h = length h"

definition heap_Pop :: "exp_heap \<Rightarrow> ExpirationEntry option \<times> exp_heap" where
  "heap_Pop h =
     (if h = [] then (None, h)
      else (Some (h ! 0), heapify (butlast (h[0 := h ! (length h - 1)]))))"

definition UnderlyingArray :: "exp_heap \<Rightarrow> exp_heap" where
  "UnderlyingArray h = [] @ h"

section \<open>Heap order\<close>

definition par :: "nat \<Rightarrow> nat" where
  "par j = (j - 1) div 2"

text \<open>The heap order holds on every edge whose parent is at least \<open>m\<close>.\<close>

definition heap_from :: "nat \<Rightarrow> exp_heap \<Rightarrow> bool" where
  "heap_from m h = (\<forall>j < length h. 0 < j \<longrightarrow> m \<le> par j \<longrightarrow> entry_date (h ! par j) \<le> entry_date (h ! j))"

definition heap_ordered :: "exp_heap \<Rightarrow> bool" where
  "heap_ordered h = heap_from 0 h"

text \<open>As \<open>heap_from m\<close>, but the edges out of \<open>i\<close> may be wrong; the parent of \<open>i\<close> is still not
  later than the children of \<open>i\<close>.\<close>

definition heap_hole :: "nat \<Rightarrow> nat \<Rightarrow> exp_heap \<Rightarrow> bool" where
  "heap_hole m i h =
     ((\<forall>j < length h. 0 < j \<longrightarrow> m \<le> par j \<longrightarrow> par j \<noteq> i \<longrightarrow>
         entry_date (h ! par j) \<le> entry_date (h ! j)) \<and>
      (\<forall>j < length h. 0 < j \<longrightarrow> par j = i \<longrightarrow> 0 < i \<longrightarrow> m \<le> par i \<longrightarrow>
         entry_date (h ! par i) \<le> entry_date (h ! j)))"

lemma par_less: "0 < j \<Longrightarrow> par j < j"
  by (simp add: par_def)

lemma par_children: "0 < j \<Longrightarrow> par j = i \<longleftrightarrow> j = 2 * i + 1 \<or> j = 2 * i + 2"
  by (auto simp: par_def)

lemma heap_from_mono: "heap_from m h \<Longrightarrow> m \<le> m' \<Longrightarrow> heap_from m' h"
  by (auto simp: heap_from_def)

lemma heap_from_half: "length h \<le> 2 * m + 1 \<Longrightarrow> heap_from m h"
  by (auto simp: heap_from_def par_def)

lemma heap_ordered_Nil [simp]: "heap_ordered []"
  by (simp add: heap_ordered_def heap_from_def)

lemma heap_from_hole: "heap_from (Suc i) h \<Longrightarrow> heap_hole i i h"
  by (auto simp: heap_from_def heap_hole_def par_def)

lemma smallest_child_le:
  assumes "j < length h" and "0 < j" and "par j = i"
  shows "entry_date (h ! smallest_child i h) \<le> entry_date (h ! j)"
proof -
  from assms have "j = 2 * i + 1 \<or> j = 2 * i + 2" by (simp add: par_children)
  with assms(1) show ?thesis by (auto simp: smallest_child_def Let_def)
qed

lemma smallest_child_less:
  "smallest_child i h \<noteq> i \<Longrightarrow> entry_date (h ! smallest_child i h) < entry_date (h ! i)"
  by (auto simp: smallest_child_def Let_def split: if_splits)

lemma par_smallest_child: "smallest_child i h \<noteq> i \<Longrightarrow> par (smallest_child i h) = i"
  by (auto simp: smallest_child_def Let_def par_def split: if_splits)

lemma heap_hole_step:
  assumes hole: "heap_hole m i h" and mi: "m \<le> i" and ne: "smallest_child i h \<noteq> i"
  shows "heap_hole m (smallest_child i h) (swap_at (smallest_child i h) i h)"
proof -
  let ?c = "smallest_child i h"
  let ?h = "swap_at ?c i h"
  note b = smallest_child_bounds [OF ne] and lt = smallest_child_less [OF ne]
    and pc = par_smallest_child [OF ne]
  have nth: "?h ! j = (if j = i then h ! ?c else if j = ?c then h ! i else h ! j)"
    if "j < length h" for j
    using that b by (simp add: nth_swap_at)
  have edge: "entry_date (h ! par j) \<le> entry_date (h ! j)"
    if "j < length h" "0 < j" "m \<le> par j" "par j \<noteq> i" for j
    using hole that by (auto simp: heap_hole_def)
  have "entry_date (?h ! par j) \<le> entry_date (?h ! j)"
    if j: "j < length h" "0 < j" "m \<le> par j" "par j \<noteq> ?c" for j
  proof (cases "par j = i")
    case True
    then show ?thesis
      using j b lt smallest_child_le [OF j(1,2) True] par_less [OF j(2)] by (auto simp: nth)
  next
    case False
    show ?thesis
    proof (cases "j = i")
      case True
      have "entry_date (h ! par i) \<le> entry_date (h ! ?c)"
        using hole b pc j True by (auto simp: heap_hole_def)
      then show ?thesis using True False j par_less [OF j(2)] by (auto simp: nth)
    next
      case ji: False
      then show ?thesis using edge [OF j(1-3) False] False j par_less [OF j(2)] pc
        by (auto simp: nth)
    qed
  qed
  moreover have "entry_date (?h ! par ?c) \<le> entry_date (?h ! j)"
    if j: "j < length h" "0 < j" "par j = ?c" for j
    using edge [of j] j b mi pc par_less [OF j(2)] by (auto simp: nth)
  ultimately show ?thesis by (simp add: heap_hole_def)
qed

lemma heap_hole_done:
  assumes "heap_hole m i h" and "smallest_child i h = i"
  shows "heap_from m h"
  using assms smallest_child_le [of _ h i] by (auto simp: heap_hole_def heap_from_def)

lemma length_siftDown [simp]: "length (siftDown i h) = length h"
proof (induction i h rule: siftDown.induct)
  case (1 i h)
  then show ?case by (subst siftDown.simps) (auto simp: Let_def)
qed

lemma mset_siftDown [simp]: "mset (siftDown i h) = mset h"
proof (induction i h rule: siftDown.induct)
  case (1 i h)
  then show ?case
    using smallest_child_bounds [of i h]
    by (subst siftDown.simps) (auto simp: Let_def mset_swap_at)
qed

lemma siftDown_heap: "heap_hole m i h \<Longrightarrow> m \<le> i \<Longrightarrow> heap_from m (siftDown i h)"
proof (induction i h rule: siftDown.induct)
  case (1 i h)
  show ?case
  proof (cases "smallest_child i h = i")
    case True
    then show ?thesis using heap_hole_done [OF "1.prems"(1)] by (subst siftDown.simps) simp
  next
    case False
    then show ?thesis
      using "1.IH" [OF refl False heap_hole_step [OF "1.prems" False]] smallest_child_bounds [OF False]
        "1.prems"(2)
      by (subst siftDown.simps) (simp add: Let_def)
  qed
qed

lemma length_heapify_from [simp]: "length (heapify_from i h) = length h"
  by (induction i arbitrary: h) auto

lemma mset_heapify_from [simp]: "mset (heapify_from i h) = mset h"
  by (induction i arbitrary: h) auto

lemma heapify_from_ordered: "heap_from (Suc i) h \<Longrightarrow> heap_ordered (heapify_from i h)"
proof (induction i arbitrary: h)
  case 0
  then show ?case using siftDown_heap [OF heap_from_hole [OF 0]] by (simp add: heap_ordered_def)
next
  case (Suc i)
  then show ?case using siftDown_heap [OF heap_from_hole [OF Suc.prems]] by simp
qed

lemma length_heapify [simp]: "length (heapify h) = length h"
  by (simp add: heapify_def)

lemma mset_heapify [simp]: "mset (heapify h) = mset h"
  by (simp add: heapify_def)

lemma heapify_Nil_iff [simp]: "heapify h = [] \<longleftrightarrow> h = []"
  using length_heapify [of h] by (metis length_0_conv)

text \<open>\<open>heapify\<close> restores the order of an arbitrary slice.\<close>

lemma heapify_ordered [simp]: "heap_ordered (heapify h)"
  unfolding heapify_def by (rule heapify_from_ordered) (simp add: heap_from_half)

lemma heap_ordered_root:
  assumes "heap_ordered h" and "j < length h"
  shows "entry_date (h ! 0) \<le> entry_date (h ! j)"
  using assms(2)
proof (induction j rule: less_induct)
  case (less j)
  show ?case
  proof (cases "j = 0")
    case False
    then have "entry_date (h ! par j) \<le> entry_date (h ! j)" and "par j < j"
      using assms(1) less.prems by (auto simp: heap_ordered_def heap_from_def par_less)
    then show ?thesis using less.IH [of "par j"] less.prems by linarith
  qed simp
qed

section \<open>Operations\<close>

lemma mset_swap_root: "h \<noteq> [] \<Longrightarrow> mset (swap_at (length h - 1) 0 h) = mset h"
  by (simp add: mset_swap_at)

lemma mset_heap_Push [simp]:
  "mset (heap_Push x d h) = add_mset \<lparr>entry_hash = x, entry_date = d\<rparr> (mset h)"
  using mset_swap_root [of "h @ [\<lparr>entry_hash = x, entry_date = d\<rparr>]"]
  by (simp add: heap_Push_def Let_def)

lemma heap_Push_ordered [simp]: "heap_ordered (heap_Push x d h)"
  by (simp add: heap_Push_def Let_def)

lemma heap_Push_not_Nil [simp]: "heap_Push x d h \<noteq> []"
  by (metis add_mset_not_empty mset.simps(1) mset_heap_Push)

lemma mset_butlast_replace:
  assumes "h \<noteq> []"
  shows "add_mset (h ! 0) (mset (butlast (h[0 := h ! (length h - 1)]))) = mset h"
proof (cases h)
  case (Cons e es)
  show ?thesis
  proof (cases es rule: rev_cases)
    case (snoc ys y)
    then show ?thesis using Cons by (simp add: nth_append butlast_append)
  qed (simp add: Cons)
qed (use assms in simp)

lemma heap_Pop_Nil [simp]: "heap_Pop [] = (None, [])"
  by (simp add: heap_Pop_def)

lemma heap_Pop_mset:
  "heap_Pop h = (Some e, h') \<Longrightarrow> mset h = add_mset e (mset h')"
  using mset_butlast_replace [of h] by (auto simp: heap_Pop_def split: if_splits)

lemma heap_Pop_ordered: "heap_ordered h \<Longrightarrow> heap_ordered (snd (heap_Pop h))"
  by (simp add: heap_Pop_def)

lemma heap_Pop_Some: "h \<noteq> [] \<Longrightarrow> \<exists>h'. heap_Pop h = (Some (hd h), h')"
  by (simp add: heap_Pop_def hd_conv_nth)

lemma heap_min:
  assumes "heap_ordered h" and "e \<in># mset h"
  shows "entry_date (hd h) \<le> entry_date e"
proof -
  from assms(2) obtain j where j: "j < length h" "h ! j = e" by (auto simp: in_set_conv_nth)
  then show ?thesis
    using heap_ordered_root [OF assms(1) j(1)] by (metis hd_conv_nth length_0_conv not_less_zero)
qed

section \<open>The contract the notifier relies on\<close>

text \<open>A priority queue of dated entries: \<open>peek\<close> gives an entry of least date, \<open>pop\<close> removes the
  entry that \<open>peek\<close> shows, \<open>push\<close> adds one entry.\<close>

locale expiration_queue =
  fixes empty :: 'q
    and push :: "string \<Rightarrow> int \<Rightarrow> 'q \<Rightarrow> 'q"
    and pop :: "'q \<Rightarrow> ExpirationEntry option \<times> 'q"
    and peek :: "'q \<Rightarrow> string \<times> int"
    and len :: "'q \<Rightarrow> nat"
    and entries :: "'q \<Rightarrow> ExpirationEntry multiset"
    and invar :: "'q \<Rightarrow> bool"
  assumes entries_empty: "entries empty = {#}"
    and invar_empty: "invar empty"
    and entries_push: "invar q \<Longrightarrow> entries (push x d q) = add_mset \<lparr>entry_hash = x, entry_date = d\<rparr> (entries q)"
    and invar_push: "invar q \<Longrightarrow> invar (push x d q)"
    and pop_None: "invar q \<Longrightarrow> entries q = {#} \<Longrightarrow> pop q = (None, q)"
    and pop_Some: "invar q \<Longrightarrow> entries q \<noteq> {#} \<Longrightarrow>
      \<exists>e q'. pop q = (Some e, q') \<and> entries q = add_mset e (entries q') \<and>
             peek q = (entry_hash e, entry_date e)"
    and invar_pop: "invar q \<Longrightarrow> invar (snd (pop q))"
    and peek_min: "invar q \<Longrightarrow> e \<in># entries q \<Longrightarrow> snd (peek q) \<le> entry_date e"
    and len_entries: "invar q \<Longrightarrow> len q = size (entries q)"
begin

fun drain :: "nat \<Rightarrow> 'q \<Rightarrow> ExpirationEntry list" where
  "drain 0 q = []"
| "drain (Suc n) q =
     (case pop q of (None, _) \<Rightarrow> [] | (Some e, q') \<Rightarrow> e # drain n q')"

lemma pop_entry_min:
  assumes "invar q" and "pop q = (Some e, q')" and "e' \<in># entries q"
  shows "entry_date e \<le> entry_date e'"
proof -
  have "entries q \<noteq> {#}" using assms(3) by auto
  from pop_Some [OF assms(1) this] assms(2) have "peek q = (entry_hash e, entry_date e)" by auto
  with peek_min [OF assms(1,3)] show ?thesis by simp
qed

lemma pop_entries: "invar q \<Longrightarrow> pop q = (Some e, q') \<Longrightarrow> entries q = add_mset e (entries q')"
  using pop_Some [of q] pop_None [of q] by (cases "entries q = {#}") auto

lemma pop_peek: "invar q \<Longrightarrow> pop q = (Some e, q') \<Longrightarrow> peek q = (entry_hash e, entry_date e)"
  using pop_Some [of q] pop_None [of q] by (cases "entries q = {#}") auto

lemma drain_mset: "invar q \<Longrightarrow> len q \<le> n \<Longrightarrow> mset (drain n q) = entries q"
proof (induction n arbitrary: q)
  case 0
  then show ?case by (simp add: len_entries)
next
  case (Suc n)
  show ?case
  proof (cases "entries q = {#}")
    case True
    then show ?thesis using pop_None [OF Suc.prems(1)] by simp
  next
    case False
    then obtain e q' where p: "pop q = (Some e, q')" "entries q = add_mset e (entries q')"
      using pop_Some [OF Suc.prems(1)] by blast
    have inv: "invar q'" using invar_pop [OF Suc.prems(1)] p(1) by simp
    with p Suc.prems have "len q' \<le> n" by (simp add: len_entries)
    with Suc.IH [OF inv] p show ?thesis by simp
  qed
qed

lemma drain_subset: "invar q \<Longrightarrow> e \<in> set (drain n q) \<Longrightarrow> e \<in># entries q"
proof (induction n arbitrary: q)
  case (Suc n)
  then obtain e' q' where p: "pop q = (Some e', q')"
    by (cases "pop q"; cases "fst (pop q)") auto
  with Suc.prems have "e = e' \<or> e \<in> set (drain n q')" by simp
  then show ?case
    using Suc.IH [of q'] invar_pop [OF Suc.prems(1)] pop_entries [OF Suc.prems(1) p] p by auto
qed simp

lemma drain_sorted: "invar q \<Longrightarrow> sorted (map entry_date (drain n q))"
proof (induction n arbitrary: q)
  case (Suc n)
  show ?case
  proof (cases "pop q")
    case (Pair r q')
    show ?thesis
    proof (cases r)
      case (Some e)
      have inv: "invar q'" using invar_pop [OF Suc.prems] Pair by simp
      have "entry_date e \<le> entry_date e'" if "e' \<in> set (drain n q')" for e'
      proof -
        have "e' \<in># entries q'" using drain_subset [OF inv that] .
        then have "e' \<in># entries q" using pop_entries [OF Suc.prems] Pair Some by simp
        then show ?thesis using pop_entry_min [OF Suc.prems] Pair Some by simp
      qed
      with Suc.IH [OF inv] Pair Some show ?thesis by simp
    qed (simp add: Pair)
  qed
qed simp

end

interpretation eheap: expiration_queue NewExpirationHeap heap_Push heap_Pop heap_Peek heap_Len mset heap_ordered
proof (unfold_locales, goal_cases)
  case (5 q)
  then show ?case by simp
next
  case (6 q)
  then obtain h' where p: "heap_Pop q = (Some (hd q), h')" using heap_Pop_Some [of q] by auto
  with 6 show ?case
    by (intro exI [of _ "hd q"] exI [of _ h']) (auto simp: heap_Pop_mset heap_Peek_def split: list.splits)
next
  case (8 q e)
  then show ?case using heap_min [of q e] by (auto simp: heap_Peek_def split: list.splits)
qed (auto simp: NewExpirationHeap_def heap_Len_def heap_Pop_ordered)

section \<open>Properties\<close>

text \<open>C20: whatever the order of the slice, \<open>heapify\<close> yields a slice with the same entries in heap
  order, so its first entry has the least expiration date.\<close>

theorem heapify_correct:
  assumes "e \<in> set h"
  shows "mset (heapify h) = mset h \<and> heap_ordered (heapify h) \<and>
         entry_date (heapify h ! 0) \<le> entry_date e"
proof -
  have ne: "heapify h \<noteq> []" using assms by auto
  have "e \<in># mset (heapify h)" using assms by simp
  then have "entry_date (hd (heapify h)) \<le> entry_date e" by (rule heap_min [OF heapify_ordered])
  with ne show ?thesis by (simp add: hd_conv_nth)
qed

definition unordered :: exp_heap where
  "unordered = map (\<lambda>d. \<lparr>entry_hash = ''h'', entry_date = d\<rparr>) [7, 5, 3]"

theorem heapify_correct_witness:
  "\<lparr>entry_hash = ''h'', entry_date = 3\<rparr> \<in> set unordered \<and> \<not> heap_ordered unordered \<and>
   heap_ordered (heapify unordered) \<and> entry_date (heapify unordered ! 0) \<le> 3"
proof -
  have "\<lparr>entry_hash = ''h'', entry_date = 3\<rparr> \<in> set unordered" by (simp add: unordered_def)
  moreover have "\<not> heap_ordered unordered"
    by (auto simp: unordered_def heap_ordered_def heap_from_def par_def intro!: exI [of _ 1])
  ultimately show ?thesis using heapify_correct [of "\<lparr>entry_hash = ''h'', entry_date = 3\<rparr>" unordered] by simp
qed

end
