(* ===== verification/ExpirationNotifier.thy ===== *)
theory ExpirationNotifier
  imports Transitions ExpirationHeap
begin

text \<open>
  \<open>ExpirationNotifier\<close> of \<open>src/pkg/storage/local.go\<close>: the goroutine \<open>Monitor\<close>, which waits for the
  entry at the top of the heap to expire, and the calls \<open>Add\<close> and \<open>ForceExpiration\<close> that other
  goroutines make. The state holds the heap, the four channels (a channel of capacity one is a
  flag, the buffered notification channel a list, the unbuffered \<open>forceExpireChan\<close> a rendezvous
  step) and the program point of the waiter; \<open>notifier_step\<close> is one step of one goroutine and a run
  interleaves them in any order. \<open>Add\<close> is one step: its three critical sections are not
  interleaved with those of another \<open>Add\<close>.
\<close>

section \<open>Model\<close>

text \<open>\<open>Parked\<close>: the select of \<open>Monitor\<close> on \<open>addChan\<close>. \<open>Scanning\<close>: the label \<open>rescan\<close> of \<open>WaitOne\<close>.
  \<open>Waiting\<close>: the select of \<open>WaitOne\<close>, with the entry it read. \<open>Sending\<close>: the entry was popped and
  the send on \<open>expirationChan\<close> is pending.\<close>

datatype waiter = Scanning | Waiting string int | Sending string | Parked | Stopped

record notifier =
  n_heap :: exp_heap
  n_expirationChan :: "string list"
  n_rescanChan :: bool
  n_addChan :: bool
  n_waiter :: waiter
  n_now :: int

definition expiration_cap :: nat where
  "expiration_cap = 1000"

definition NewExpirationNotifier :: "int \<Rightarrow> notifier" where
  "NewExpirationNotifier t =
     \<lparr>n_heap = NewExpirationHeap, n_expirationChan = [], n_rescanChan = False, n_addChan = False,
      n_waiter = Scanning, n_now = t\<rparr>"

definition notifier_Add :: "string \<Rightarrow> int \<Rightarrow> notifier \<Rightarrow> notifier" where
  "notifier_Add hash expirationDate e =
     (let h = heap_Push hash expirationDate (n_heap e);
          e1 = e\<lparr>n_heap := h\<rparr>;
          e2 = (if fst (heap_Peek h) = hash then e1\<lparr>n_rescanChan := True\<rparr> else e1)
      in if heap_Len h = 1 then e2\<lparr>n_addChan := True\<rparr> else e2)"

definition NextExpiration :: "notifier \<Rightarrow> string \<times> int" where
  "NextExpiration e = heap_Peek (n_heap e)"

text \<open>The scan at the top of \<open>WaitOne\<close>; on an empty heap \<open>WaitOne\<close> and \<open>WaitAll\<close> return and
  \<open>Monitor\<close> parks.\<close>

definition wait_scan :: "notifier \<Rightarrow> notifier" where
  "wait_scan e =
     (if heap_Len (n_heap e) = 0 then e\<lparr>n_waiter := Parked\<rparr>
      else e\<lparr>n_waiter := Waiting (fst (NextExpiration e)) (snd (NextExpiration e))\<rparr>)"

definition wait_expire :: "string \<Rightarrow> notifier \<Rightarrow> notifier" where
  "wait_expire hash e = e\<lparr>n_heap := snd (heap_Pop (n_heap e)), n_waiter := Sending hash\<rparr>"

datatype n_event =
    Ev_Add string int   \<comment> \<open>a call of \<open>Add\<close>\<close>
  | Ev_Scan             \<comment> \<open>the waiter reads the top of the heap\<close>
  | Ev_Timer            \<comment> \<open>the timer of the select fires\<close>
  | Ev_Force            \<comment> \<open>a rendezvous with \<open>ForceExpiration\<close>\<close>
  | Ev_Rescan           \<comment> \<open>the select receives from \<open>rescanChan\<close>\<close>
  | Ev_Send             \<comment> \<open>the pending send on \<open>expirationChan\<close> succeeds\<close>
  | Ev_Wake             \<comment> \<open>\<open>Monitor\<close> receives from \<open>addChan\<close>\<close>
  | Ev_Notify           \<comment> \<open>the owner receives from \<open>Notify()\<close>\<close>
  | Ev_Cancel           \<comment> \<open>the context is done\<close>
  | Ev_Tick nat         \<comment> \<open>time passes\<close>

fun notifier_step :: "n_event \<Rightarrow> notifier \<Rightarrow> notifier option" where
  "notifier_step (Ev_Add x d) e = Some (notifier_Add x d e)"
| "notifier_step Ev_Scan e = (if n_waiter e = Scanning then Some (wait_scan e) else None)"
| "notifier_step Ev_Timer e =
     (case n_waiter e of
        Waiting x d \<Rightarrow> if d \<le> n_now e then Some (wait_expire x e) else None
      | _ \<Rightarrow> None)"
| "notifier_step Ev_Force e =
     (case n_waiter e of Waiting x d \<Rightarrow> Some (wait_expire x e) | _ \<Rightarrow> None)"
| "notifier_step Ev_Rescan e =
     (case n_waiter e of
        Waiting x d \<Rightarrow>
          if n_rescanChan e then Some (e\<lparr>n_rescanChan := False, n_waiter := Scanning\<rparr>) else None
      | _ \<Rightarrow> None)"
| "notifier_step Ev_Send e =
     (case n_waiter e of
        Sending x \<Rightarrow>
          if length (n_expirationChan e) < expiration_cap
          then Some (e\<lparr>n_expirationChan := n_expirationChan e @ [x], n_waiter := Scanning\<rparr>)
          else None
      | _ \<Rightarrow> None)"
| "notifier_step Ev_Wake e =
     (if n_waiter e = Parked \<and> n_addChan e
      then Some (e\<lparr>n_addChan := False, n_waiter := Scanning\<rparr>) else None)"
| "notifier_step Ev_Notify e =
     (case n_expirationChan e of [] \<Rightarrow> None | x # xs \<Rightarrow> Some (e\<lparr>n_expirationChan := xs\<rparr>))"
| "notifier_step Ev_Cancel e =
     (case n_waiter e of
        Sending x \<Rightarrow> None
      | Stopped \<Rightarrow> None
      | _ \<Rightarrow> Some (e\<lparr>n_waiter := Stopped\<rparr>))"
| "notifier_step (Ev_Tick n) e = Some (e\<lparr>n_now := n_now e + int n\<rparr>)"

text \<open>\<open>ForceExpiration\<close>: succeeds when the waiter takes the value within a second, that is, when it
  is in its select; otherwise the call fails.\<close>

definition ForceExpirationFailedErr :: go_error where
  "ForceExpirationFailedErr = Error ''failed to force expiration of current object''"

definition ForceExpiration :: "notifier \<Rightarrow> unit outcome \<times> notifier" where
  "ForceExpiration e =
     (case notifier_step Ev_Force e of
        Some e' \<Rightarrow> (Return (), e')
      | None \<Rightarrow> (Fail ForceExpirationFailedErr, e))"

abbreviation notifier_run :: "n_event list \<Rightarrow> notifier \<Rightarrow> notifier option" where
  "notifier_run \<equiv> run_events notifier_step"

inductive n_reachable :: "notifier \<Rightarrow> bool" where
  n_init: "n_reachable (NewExpirationNotifier t)"
| n_step: "n_reachable e \<Longrightarrow> notifier_step ev e = Some e' \<Longrightarrow> n_reachable e'"

interpretation notifier_sys: transition_system notifier_step "\<lambda>e. \<exists>t. e = NewExpirationNotifier t" n_reachable
proof (unfold_locales, goal_cases)
  case (3 s P)
  then show ?case by (induction rule: n_reachable.induct) blast+
qed (auto intro: n_init n_step)

lemmas n_reachable_run = notifier_sys.run_reach

section \<open>Invariant\<close>

text \<open>While the waiter is in its select the heap is not empty and its top entry is due no later than
  the date the waiter waits for; without a pending rescan the two dates are the same. A parked
  waiter with a non-empty heap has a wake-up pending.\<close>

definition notifier_inv :: "notifier \<Rightarrow> bool" where
  "notifier_inv e =
     (heap_ordered (n_heap e) \<and>
      length (n_expirationChan e) \<le> expiration_cap \<and>
      (case n_waiter e of
         Waiting x d \<Rightarrow>
           n_heap e \<noteq> [] \<and> snd (heap_Peek (n_heap e)) \<le> d \<and>
           (\<not> n_rescanChan e \<longrightarrow> snd (heap_Peek (n_heap e)) = d)
       | Parked \<Rightarrow> n_heap e \<noteq> [] \<longrightarrow> n_addChan e
       | _ \<Rightarrow> True))"

lemma heap_Peek_hd: "h \<noteq> [] \<Longrightarrow> heap_Peek h = (entry_hash (hd h), entry_date (hd h))"
  by (cases h) (auto simp: heap_Peek_def)

lemma hd_in_mset: "h \<noteq> [] \<Longrightarrow> hd h \<in># mset h"
  by (cases h) auto

lemma Peek_Push_le:
  assumes "heap_ordered h" and "h \<noteq> []"
  shows "snd (heap_Peek (heap_Push x d h)) \<le> snd (heap_Peek h)"
proof -
  have "hd h \<in># mset (heap_Push x d h)" using assms(2) by (cases h) auto
  then show ?thesis
    using eheap.peek_min [OF heap_Push_ordered] assms(2) by (simp add: heap_Peek_hd)
qed

text \<open>A push that changes the least date puts the pushed entry on top, so \<open>Add\<close> asks for a rescan.\<close>

lemma Peek_Push_cases:
  assumes "heap_ordered h" and "h \<noteq> []" and "fst (heap_Peek (heap_Push x d h)) \<noteq> x"
  shows "snd (heap_Peek (heap_Push x d h)) = snd (heap_Peek h)"
proof -
  let ?h' = "heap_Push x d h"
  have "hd ?h' \<in># mset ?h'" by (rule hd_in_mset) simp
  with assms(3) have "hd ?h' \<in># mset h" by (auto simp: heap_Peek_hd)
  then have "snd (heap_Peek h) \<le> snd (heap_Peek ?h')"
    using eheap.peek_min [OF assms(1)] by (simp add: heap_Peek_hd [of ?h'])
  with Peek_Push_le [OF assms(1,2), of x d] show ?thesis by simp
qed

lemma notifier_Add_simps [simp]:
  "n_heap (notifier_Add x d e) = heap_Push x d (n_heap e)"
  "n_expirationChan (notifier_Add x d e) = n_expirationChan e"
  "n_waiter (notifier_Add x d e) = n_waiter e"
  "n_now (notifier_Add x d e) = n_now e"
  "n_rescanChan (notifier_Add x d e) =
     (n_rescanChan e \<or> fst (heap_Peek (heap_Push x d (n_heap e))) = x)"
  "n_addChan (notifier_Add x d e) = (n_addChan e \<or> length (heap_Push x d (n_heap e)) = 1)"
  by (simp_all add: notifier_Add_def Let_def heap_Len_def)

lemma length_heap_Push [simp]: "length (heap_Push x d h) = Suc (length h)"
  using mset_heap_Push [of x d h] by (metis size_add_mset size_mset)

lemma notifier_Add_inv [inv_intro]:
  assumes "notifier_inv e"
  shows "notifier_inv (notifier_Add x d e)"
  using assms Peek_Push_le [of "n_heap e" x d] Peek_Push_cases [of "n_heap e" x d]
  by (auto simp: notifier_inv_def split: waiter.splits)

lemma wait_scan_inv [inv_intro]: "notifier_inv e \<Longrightarrow> notifier_inv (wait_scan e)"
  by (auto simp: notifier_inv_def wait_scan_def heap_Len_def NextExpiration_def)

lemma wait_expire_inv [inv_intro]: "notifier_inv e \<Longrightarrow> notifier_inv (wait_expire x e)"
  by (auto simp: notifier_inv_def wait_expire_def heap_Pop_ordered)

lemma notifier_step_inv: "notifier_step ev e = Some e' \<Longrightarrow> notifier_inv e \<Longrightarrow> notifier_inv e'"
proof (cases ev)
  case Ev_Timer
  then show "notifier_step ev e = Some e' \<Longrightarrow> notifier_inv e \<Longrightarrow> notifier_inv e'"
    by (auto split: waiter.splits if_splits intro: inv_intro)
next
  case Ev_Force
  then show "notifier_step ev e = Some e' \<Longrightarrow> notifier_inv e \<Longrightarrow> notifier_inv e'"
    by (auto split: waiter.splits if_splits intro: inv_intro)
qed (auto split: waiter.splits if_splits list.splits intro: inv_intro,
     (auto simp: notifier_inv_def split: waiter.splits)+)

lemma n_reachable_inv: "n_reachable e \<Longrightarrow> notifier_inv e"
proof (induction rule: n_reachable.induct)
  case (n_init t)
  show ?case by (simp add: notifier_inv_def NewExpirationNotifier_def NewExpirationHeap_def)
next
  case (n_step e ev e')
  then show ?case by (blast intro: notifier_step_inv)
qed

section \<open>Properties\<close>

text \<open>In every reachable state, when the timer of the waiter fires the entry removed from the
  heap has expired, and it is an entry of least date.\<close>

theorem timer_pops_expired:
  assumes "n_reachable e" and "notifier_step Ev_Timer e = Some e'"
  shows "\<exists>x. heap_Pop (n_heap e) = (Some x, n_heap e') \<and> entry_date x \<le> n_now e \<and>
             (\<forall>y \<in># mset (n_heap e). entry_date x \<le> entry_date y)"
proof -
  from assms(2) obtain h d where w: "n_waiter e = Waiting h d" "d \<le> n_now e"
    and e': "e' = wait_expire h e"
    by (auto split: waiter.splits if_splits)
  have inv: "notifier_inv e" by (rule n_reachable_inv [OF assms(1)])
  then have ne: "n_heap e \<noteq> []" and ord: "heap_ordered (n_heap e)"
    and le: "snd (heap_Peek (n_heap e)) \<le> d"
    using w by (auto simp: notifier_inv_def)
  obtain x where pop: "heap_Pop (n_heap e) = (Some x, n_heap e')"
    using heap_Pop_Some [OF ne] e' by (auto simp: wait_expire_def)
  moreover have "entry_date x \<le> n_now e" using eheap.pop_peek [OF ord pop] le w(2) by simp
  ultimately show ?thesis using eheap.pop_entry_min [OF ord pop] by blast
qed

theorem timer_pops_expired_witness:
  "\<exists>e e'. notifier_run [Ev_Add ''ab'' 3, Ev_Scan, Ev_Tick 4] (NewExpirationNotifier 0) = Some e \<and>
          notifier_step Ev_Timer e = Some e' \<and>
          (\<exists>x. heap_Pop (n_heap e) = (Some x, n_heap e') \<and> entry_date x \<le> n_now e \<and>
               (\<forall>y \<in># mset (n_heap e). entry_date x \<le> entry_date y))"
proof -
  have "Option.bind (notifier_run [Ev_Add ''ab'' 3, Ev_Scan, Ev_Tick 4] (NewExpirationNotifier 0))
     (notifier_step Ev_Timer) \<noteq> None" by code_simp
  then obtain e e' where r:
    "notifier_run [Ev_Add ''ab'' 3, Ev_Scan, Ev_Tick 4] (NewExpirationNotifier 0) = Some e"
    "notifier_step Ev_Timer e = Some e'" by (auto simp: bind_eq_Some_conv)
  from timer_pops_expired [OF n_reachable_run [OF n_reachable.n_init r(1)] r(2)] r
  show ?thesis by blast
qed



definition tied_dates_run :: "n_event list" where
  "tied_dates_run =
     [Ev_Add ''A'' 5, Ev_Add ''B'' 5, Ev_Scan, Ev_Rescan, Ev_Scan, Ev_Add ''C'' 9, Ev_Tick 5,
      Ev_Timer, Ev_Send, Ev_Scan, Ev_Timer, Ev_Send]"


end
