(* ===== verification/StorageTypes.thy ===== *)
theory StorageTypes
  imports Prelude
begin

text \<open>
  The data of the cache (\<open>CacheKey\<close>, \<open>CacheObject\<close> and their parts, as the storage providers build
  and read them), the metrics the providers report, and the interface \<open>StorageProvider\<close> of
  \<open>src/pkg/storage/provider.go\<close> as a locale. A key is its hash. A pointer field that the code
  tests against \<open>nil\<close> is an option; a Go map of tags is an association list.
\<close>

section \<open>Cache objects\<close>

datatype StorageLocation = Loc_Unknown | Memory | Disk | S3

record CacheObjectManaged =
  mf_Size :: int
  mf_Timestamp :: int
  mf_Score :: int
  mf_Location :: StorageLocation

record CacheObjectMeta =
  cm_Tags :: "(string \<times> string) list option"
  cm_ExpirationDate :: int
  cm_ManagedFields :: "CacheObjectManaged option"

record CacheObject =
  co_Data :: bytes
  co_Metadata :: "CacheObjectMeta option"

definition empty_meta :: CacheObjectMeta where
  "empty_meta = \<lparr>cm_Tags = None, cm_ExpirationDate = 0, cm_ManagedFields = None\<rparr>"

text \<open>The nil-safe getters \<open>GetMetadata().GetExpirationDate()\<close> and
  \<open>GetMetadata().GetManagedFields().GetSize()\<close>.\<close>

definition GetExpirationDate :: "CacheObject \<Rightarrow> int" where
  "GetExpirationDate obj = (case co_Metadata obj of None \<Rightarrow> 0 | Some m \<Rightarrow> cm_ExpirationDate m)"

definition GetManagedSize :: "CacheObject \<Rightarrow> int" where
  "GetManagedSize obj =
     (case Option.bind (co_Metadata obj) cm_ManagedFields of None \<Rightarrow> 0 | Some f \<Rightarrow> mf_Size f)"

record CacheUsage =
  cu_ObjectCount :: int
  cu_TotalSize :: int
  cu_UsagePercent :: go_float

record CacheHitsMetric =
  ch_CacheHitsTotal :: int
  ch_CacheMissesTotal :: int
  ch_CacheHitPercent :: go_float

section \<open>The provider interface\<close>

text \<open>
  What a client of a provider relies on, whatever the environment \<open>e\<close> of a call (the time, the
  faults of the disk, the evictions of a third-party cache): \<open>holds s\<close> is the data a provider in
  state \<open>s\<close> would return. A call of \<open>Put\<close> adds nothing but the object it is given, \<open>Get\<close> adds
  nothing, and what \<open>Get\<close> returns is what is held under the key. \<open>Put\<close> also returns the object,
  whose metadata it updates in place.
\<close>

locale storage_provider =
  fixes put :: "'e \<Rightarrow> string \<Rightarrow> CacheObject \<Rightarrow> 's \<Rightarrow> unit outcome \<times> CacheObject \<times> 's"
    and get :: "'e \<Rightarrow> string \<Rightarrow> 's \<Rightarrow> CacheObject outcome \<times> 's"
    and holds :: "'s \<Rightarrow> string \<Rightarrow> bytes \<Rightarrow> bool"
    and valid :: "'s \<Rightarrow> bool"
    and key_ok :: "string \<Rightarrow> bool"
  assumes put_valid: "valid s \<Longrightarrow> put e k obj s = (r, obj', s') \<Longrightarrow> valid s'"
    and get_valid: "valid s \<Longrightarrow> get e k s = (q, s') \<Longrightarrow> valid s'"
    and put_data: "put e k obj s = (r, obj', s') \<Longrightarrow> co_Data obj' = co_Data obj"
    and put_holds: "valid s \<Longrightarrow> key_ok k \<Longrightarrow> key_ok k' \<Longrightarrow> put e k obj s = (r, obj', s') \<Longrightarrow>
      holds s' k' d \<Longrightarrow> holds s k' d \<or> k' = k \<and> d = co_Data obj"
    and get_holds: "valid s \<Longrightarrow> key_ok k \<Longrightarrow> key_ok k' \<Longrightarrow> get e k s = (q, s') \<Longrightarrow>
      holds s' k' d \<Longrightarrow> holds s k' d"
    and get_Return: "valid s \<Longrightarrow> key_ok k \<Longrightarrow> get e k s = (Return obj, s') \<Longrightarrow> holds s k (co_Data obj)"
begin

text \<open>A state is consistent with the record \<open>T\<close> of what was ever put when it holds nothing else.\<close>

definition consistent :: "(string \<Rightarrow> bytes set) \<Rightarrow> 's \<Rightarrow> bool" where
  "consistent T s \<longleftrightarrow> valid s \<and> (\<forall>k d. key_ok k \<longrightarrow> holds s k d \<longrightarrow> d \<in> T k)"

lemma put_consistent:
  assumes "consistent T s" and "key_ok k" and "put e k obj s = (r, obj', s')"
  shows "consistent (T(k := insert (co_Data obj) (T k))) s'"
  using assms put_valid put_holds unfolding consistent_def by (metis fun_upd_apply insertCI)

lemma put_known:
  assumes "consistent T s" and "key_ok k" and "put e k obj s = (r, obj', s')" and "co_Data obj \<in> T k"
  shows "consistent T s'"
  using put_consistent [OF assms(1-3)] assms(4) by (simp add: insert_absorb)

lemma get_consistent:
  assumes "consistent T s" and "key_ok k" and "get e k s = (q, s')"
  shows "consistent T s'"
  using assms get_valid get_holds unfolding consistent_def by metis

lemma get_member:
  assumes "consistent T s" and "key_ok k" and "get e k s = (Return obj, s')"
  shows "co_Data obj \<in> T k"
  using assms get_Return unfolding consistent_def by metis

lemma consistent_mono: "consistent T s \<Longrightarrow> (\<And>k. T k \<subseteq> U k) \<Longrightarrow> consistent U s"
  unfolding consistent_def by blast

end

text \<open>A provider that also keeps what it accepted: a successful \<open>Put\<close> is visible to \<open>Get\<close>.\<close>

locale durable_provider = storage_provider +
  assumes put_Return: "valid s \<Longrightarrow> key_ok k \<Longrightarrow> put e k obj s = (Return u, obj', s') \<Longrightarrow>
      holds s' k (co_Data obj)"

end
