(* ===== verification/Paths.thy ===== *)
theory Paths
  imports Prelude
begin

text \<open>
  Facts on cleaned paths that the file names of the local storage provider rest on: cleaning is
  stable, and joining a name to a joined path is joining it to the parts.
\<close>

text \<open>Cleaning is stable: the stack of a cleaned path is a run of \<open>..\<close> (none when the path is
  rooted) followed by ordinary names, and cleaning leaves such a list alone.\<close>

definition stack_ok :: "bool \<Rightarrow> string list \<Rightarrow> bool" where
  "stack_ok rooted st \<longleftrightarrow> (\<exists>n names. rev st = replicate n ''..'' @ names \<and>
     (\<forall>c\<in>set names. plain_name c) \<and> (rooted \<longrightarrow> n = 0))"

lemma stack_ok_Nil: "stack_ok rooted []"
  unfolding stack_ok_def by (rule exI [of _ 0]) simp

lemma stack_ok_push:
  assumes "stack_ok rooted st" and "plain_name c"
  shows "stack_ok rooted (c # st)"
proof -
  from assms(1) obtain n names where "rev st = replicate n ''..'' @ names"
    and "\<forall>c\<in>set names. plain_name c" and "rooted \<longrightarrow> n = 0" by (auto simp: stack_ok_def)
  with assms(2) show ?thesis
    unfolding stack_ok_def by (intro exI [of _ n] exI [of _ "names @ [c]"]) auto
qed

lemma stack_ok_dots:
  assumes "stack_ok rooted (x # st)" and "x = ''..''"
  shows "stack_ok rooted (''..'' # x # st)"
proof -
  from assms obtain n names where st: "rev (x # st) = replicate n ''..'' @ names"
    and names: "\<forall>c\<in>set names. plain_name c" and r: "rooted \<longrightarrow> n = 0" by (auto simp: stack_ok_def)
  have "names = []"
  proof (rule ccontr)
    assume "names \<noteq> []"
    then have "last (rev (x # st)) \<in> set names" using st by simp
    with names assms(2) show False by (auto simp: plain_name_def)
  qed
  with st have n: "rev (x # st) = replicate n ''..''" by simp
  then have "n \<noteq> 0" by (cases n) auto
  moreover have "rev (''..'' # x # st) = replicate (Suc n) ''..''" using n
    by (simp add: replicate_append_same)
  ultimately show ?thesis using r unfolding stack_ok_def
    by (metis append.right_neutral empty_iff empty_set)
qed

lemma stack_ok_pop:
  assumes "stack_ok rooted (x # st)" and "x \<noteq> ''..''"
  shows "stack_ok rooted st"
proof -
  from assms obtain n names where st: "rev st @ [x] = replicate n ''..'' @ names"
    and names: "\<forall>c\<in>set names. plain_name c" and r: "rooted \<longrightarrow> n = 0" by (auto simp: stack_ok_def)
  have "names \<noteq> []"
  proof
    assume "names = []"
    then have "x \<in> set (replicate n ''..'')" using st by (metis append.right_neutral in_set_conv_decomp)
    with assms(2) show False by simp
  qed
  then have "rev st = replicate n ''..'' @ butlast names"
    using st by (metis butlast_append butlast_snoc)
  then show ?thesis using names r unfolding stack_ok_def by (metis in_set_butlastD)
qed

lemma clean_stack_ok:
  "stack_ok rooted st \<Longrightarrow> \<forall>c\<in>set cs. CHR ''/'' \<notin> set c \<Longrightarrow>
   stack_ok rooted (rev (clean_stack rooted st cs))"
proof (induction rooted st cs rule: clean_stack.induct)
  case (2 rooted st c cs)
  have one: "stack_ok False [''..'']" unfolding stack_ok_def by (rule exI [of _ 1]) simp
  consider (skip) "c = '''' \<or> c = ''.''" | (bottom) "c = ''..''" "st = []"
    | (dots) x xs where "c = ''..''" "st = x # xs" "x = ''..''"
    | (pop) x xs where "c = ''..''" "st = x # xs" "x \<noteq> ''..''"
    | (name) "plain_name c" using "2.prems" by (cases st) (auto simp: plain_name_def)
  then show ?case
  proof cases
    case skip
    then show ?thesis using 2 by auto
  next
    case bottom
    then show ?thesis using "2.IH"(2) "2.prems" one by (auto simp: stack_ok_Nil)
  next
    case (dots x xs)
    then show ?thesis using "2.IH"(3) "2.prems" stack_ok_dots [of rooted x xs] by simp
  next
    case (pop x xs)
    then show ?thesis using "2.IH"(4) "2.prems" stack_ok_pop [of rooted x xs] by simp
  next
    case name
    then have "c \<noteq> ''''" "c \<noteq> ''.''" "c \<noteq> ''..''" by (auto simp: plain_name_def)
    then show ?thesis using "2.IH"(5) "2.prems" stack_ok_push [OF _ name] by simp
  qed
qed simp

lemma clean_stack_names:
  "\<forall>c\<in>set names. plain_name c \<Longrightarrow> clean_stack rooted st names = rev st @ names"
  by (induction names arbitrary: st) (auto simp: plain_name_def)

lemma clean_stack_dots:
  "clean_stack False (replicate m ''..'') (replicate n ''..'' @ names) =
   clean_stack False (replicate (m + n) ''..'') names"
proof (induction n arbitrary: m)
  case (Suc n)
  then show ?case using Suc [of "Suc m"] by (cases m) simp_all
qed simp

lemma clean_stack_stable: "stack_ok rooted (rev ws) \<Longrightarrow> clean_stack rooted [] ws = ws"
  unfolding stack_ok_def
  by (cases rooted) (auto simp: clean_stack_names clean_stack_dots [of 0, simplified])

lemma Split_components: "c \<in> set (Split sep s) \<Longrightarrow> sep \<notin> set c"
  by (induction s arbitrary: c) (auto split: list.splits if_splits)

lemma Split_join_with:
  "ws \<noteq> [] \<Longrightarrow> \<forall>c\<in>set ws. CHR ''/'' \<notin> set c \<Longrightarrow> Split (CHR ''/'') (join_with ''/'' ws) = ws"
  by (induction ws rule: rev_induct) (auto simp: join_with_snoc Split_snoc Split_no_sep)

lemma Split_Cons_sep: "Split sep (sep # s) = [] # Split sep s"
  by simp

lemma clean_stack_empty: "clean_stack rooted st ([] # cs) = clean_stack rooted st cs"
  by simp

lemma stack_ok_names: "stack_ok rooted (rev ws) \<Longrightarrow> c \<in> set ws \<Longrightarrow> CHR ''/'' \<notin> set c \<and> c \<noteq> []"
  unfolding stack_ok_def plain_name_def by fastforce

lemma Clean_eq:
  assumes "x \<noteq> []" and "ws = clean_stack (hd x = CHR ''/'') [] (Split (CHR ''/'') x)"
  shows "Clean x = (if hd x = CHR ''/'' then ''/'' @ join_with ''/'' ws
                    else if join_with ''/'' ws = [] then ''.'' else join_with ''/'' ws)"
  using assms by (simp add: Clean_def Let_def)

lemma hd_join_with:
  assumes "ws \<noteq> []" and "\<And>c. c \<in> set ws \<Longrightarrow> CHR ''/'' \<notin> set c \<and> c \<noteq> []"
  shows "join_with ''/'' ws \<noteq> [] \<and> hd (join_with ''/'' ws) \<noteq> CHR ''/''"
proof -
  obtain c cs where ws: "ws = c # cs" using assms(1) by (cases ws) auto
  then have "CHR ''/'' \<notin> set c" "c \<noteq> []" using assms(2) by auto
  then show ?thesis unfolding ws by (cases cs; cases c) auto
qed

lemma Clean_snoc:
  assumes "plain_name w" and "x \<noteq> []"
    and "ws = clean_stack (hd x = CHR ''/'') [] (Split (CHR ''/'') x)"
  shows "Clean (x @ CHR ''/'' # w) =
           (if hd x = CHR ''/'' then ''/'' else []) @ join_with ''/'' (ws @ [w])"
proof -
  have w: "CHR ''/'' \<notin> set w" "w \<noteq> ''''" "w \<noteq> ''.''" "w \<noteq> ''..''"
    using assms(1) by (auto simp: plain_name_def)
  have "clean_stack (hd (x @ CHR ''/'' # w) = CHR ''/'') [] (Split (CHR ''/'') (x @ CHR ''/'' # w)) = ws @ [w]"
    using assms(2,3) w by (simp add: Split_snoc clean_stack_snoc)
  moreover have "join_with ''/'' (ws @ [w]) \<noteq> []" using w(2) by (simp add: join_with_snoc)
  ultimately show ?thesis using Clean_eq [of "x @ CHR ''/'' # w" "ws @ [w]"] assms(2) by simp
qed

lemma Clean_append:
  assumes "plain_name w" and "x \<noteq> []"
  shows "Clean (Clean x @ CHR ''/'' # w) = Clean (x @ CHR ''/'' # w)"
proof -
  define ws where "ws = clean_stack (hd x = CHR ''/'') [] (Split (CHR ''/'') x)"
  have ok: "stack_ok (hd x = CHR ''/'') (rev ws)"
    unfolding ws_def by (rule clean_stack_ok) (auto simp: stack_ok_Nil dest: Split_components)
  note names = stack_ok_names [OF ok]
  note rhs = Clean_snoc [OF assms ws_def]
  note lhs = Clean_eq [OF assms(2) ws_def]
  have stable: "clean_stack (hd x = CHR ''/'') [] (Split (CHR ''/'') (join_with ''/'' ws)) = ws"
  proof (cases "ws = []")
    case False
    with Split_join_with [of ws] names clean_stack_stable [OF ok] show ?thesis by metis
  qed simp
  show ?thesis
  proof (cases "hd x = CHR ''/''")
    case True
    have "Clean x \<noteq> []" "hd (Clean x) = CHR ''/''"
      and "ws = clean_stack (hd (Clean x) = CHR ''/'') [] (Split (CHR ''/'') (Clean x))"
      using lhs True stable Split_Cons_sep [of "CHR ''/''" "join_with ''/'' ws"] clean_stack_empty
      by (simp_all del: Split.simps clean_stack.simps)
    from Clean_snoc [OF assms(1) this(1,3)] rhs this(2) True show ?thesis by simp
  next
    case False
    show ?thesis
    proof (cases "ws = []")
      case True
      with lhs False have "Clean x = ''.''" by simp
      with True False rhs Clean_snoc [OF assms(1), of "''.''" "[]"] show ?thesis by simp
    next
      case ne: False
      from hd_join_with [OF ne names] lhs False
      have cx: "Clean x = join_with ''/'' ws" "hd (Clean x) \<noteq> CHR ''/''" "Clean x \<noteq> []" by auto
      have "ws = clean_stack (hd (Clean x) = CHR ''/'') [] (Split (CHR ''/'') (Clean x))"
        using stable False cx by metis
      from Clean_snoc [OF assms(1) cx(3) this] rhs cx(2) False show ?thesis by (simp only: if_False)
    qed
  qed
qed

lemma Join_Join:
  assumes "plain_name w" and "b \<noteq> []"
  shows "Join [Join [a, b], w] = Join [a, b, w]"
proof -
  have w: "w \<noteq> []" using assms(1) by (simp add: plain_name_def)
  have ne: "Clean x \<noteq> []" for x by (simp add: Clean_def Let_def)
  show ?thesis
  proof (cases "a = []")
    case True
    then show ?thesis using w ne assms(2) Clean_append [OF assms(1), of b] by (simp add: Join_def)
  next
    case False
    then show ?thesis
      using w ne assms(2) Clean_append [OF assms(1), of "a @ CHR ''/'' # b"] by (simp add: Join_def)
  qed
qed

end
