(* ===== verification/LocalStorage.thy ===== *)
theory LocalStorage
  imports ExpirationNotifier StorageTypes Paths "HOL-Library.AList"
begin

text \<open>
  \<open>LocalStorageProvider\<close> of \<open>src/pkg/storage/local.go\<close>: objects as files under a root directory, two
  counters, the hit and miss counters and the expiration notifier. The disk is an association list
  from paths to contents. The protobuf encoder is a parameter, the record \<open>codec\<close>; the faults of
  the operating system and the time of a call are its environment \<open>disk_env\<close>. The text of wrapped
  errors is left out of the messages.
\<close>

section \<open>Model\<close>

record codec =
  Marshal :: "CacheObject \<Rightarrow> bytes option"
  Unmarshal :: "bytes \<Rightarrow> CacheObject option"

text \<open>What the code relies on: what was encoded decodes to an equal message.\<close>

definition codec_ok :: "codec \<Rightarrow> bool" where
  "codec_ok cod \<longleftrightarrow> (\<forall>obj b. Marshal cod obj = Some b \<longrightarrow> Unmarshal cod b = Some obj)"

record disk_env =
  de_now :: int
  de_mkdir_ok :: "string \<Rightarrow> bool"
  de_write_ok :: "string \<Rightarrow> bool"
  de_read_ok :: "string \<Rightarrow> bool"
  de_remove_ok :: "string \<Rightarrow> bool"

definition no_faults :: "int \<Rightarrow> disk_env" where
  "no_faults t = \<lparr>de_now = t, de_mkdir_ok = (\<lambda>_. True), de_write_ok = (\<lambda>_. True),
     de_read_ok = (\<lambda>_. True), de_remove_ok = (\<lambda>_. True)\<rparr>"

record LocalStorageProvider =
  ls_root :: string
  ls_files :: "(string \<times> bytes) list"
  ls_numObjects :: int
  ls_totalSize :: int
  ls_sizeLimit :: int
  ls_cacheHitsTotal :: int
  ls_cacheMissesTotal :: int
  ls_notifier :: notifier

definition NewLocalStorageProvider ::
    "string \<Rightarrow> int \<Rightarrow> (string \<times> bytes) list \<Rightarrow> int \<Rightarrow> LocalStorageProvider" where
  "NewLocalStorageProvider path limit disk t =
     \<lparr>ls_root = path, ls_files = disk, ls_numObjects = 0, ls_totalSize = 0, ls_sizeLimit = limit,
      ls_cacheHitsTotal = 0, ls_cacheMissesTotal = 0, ls_notifier = NewExpirationNotifier t\<rparr>"

definition Local_Location :: StorageLocation where
  "Local_Location = Disk"

text \<open>\<open>path.Join(p.root, hash[0:2], hash)\<close>; the slice panics on a hash of fewer than two bytes.\<close>

definition objDir :: "string \<Rightarrow> string \<Rightarrow> string" where
  "objDir dir hash = Join [dir, take 2 hash]"

definition objPath :: "string \<Rightarrow> string \<Rightarrow> string" where
  "objPath dir hash = Join [dir, take 2 hash, hash]"

text \<open>\<open>Configure\<close>: the walk counts every file, registers those that decode and collects the others
  for deletion; a file that cannot be read stops it. The files are visited in the order of the
  list.\<close>

fun configure_walk ::
    "codec \<Rightarrow> disk_env \<Rightarrow> (string \<times> bytes) list \<Rightarrow> string list \<Rightarrow> LocalStorageProvider \<Rightarrow>
     string list outcome \<times> LocalStorageProvider" where
  "configure_walk cod e [] toDelete p = (Return toDelete, p)"
| "configure_walk cod e ((path, content) # files) toDelete p =
     (let p1 = p\<lparr>ls_numObjects := ls_numObjects p + 1,
                ls_totalSize := ls_totalSize p + int (length content)\<rparr>
      in if \<not> de_read_ok e path then (Fail (Error ''read''), p1)
         else case Unmarshal cod content of
                None \<Rightarrow> configure_walk cod e files (toDelete @ [path]) p1
              | Some obj \<Rightarrow>
                  configure_walk cod e files toDelete
                    (p1\<lparr>ls_notifier :=
                       notifier_Add (Base path) (GetExpirationDate obj) (ls_notifier p1)\<rparr>))"

fun configure_delete :: "disk_env \<Rightarrow> string list \<Rightarrow> LocalStorageProvider \<Rightarrow> LocalStorageProvider" where
  "configure_delete e [] p = p"
| "configure_delete e (path # paths) p =
     configure_delete e paths
       (if de_remove_ok e path then p\<lparr>ls_files := AList.delete path (ls_files p)\<rparr> else p)"

definition under_root :: "string \<Rightarrow> string \<times> bytes \<Rightarrow> bool" where
  "under_root dir f = HasPrefix (fst f) (Clean dir @ ''/'')"

definition Local_Configure ::
    "codec \<Rightarrow> disk_env \<Rightarrow> LocalStorageProvider \<Rightarrow> unit outcome \<times> LocalStorageProvider" where
  "Local_Configure cod e p =
     (if \<not> de_mkdir_ok e (ls_root p) then (Fail (Error ''mkdir''), p)
      else case configure_walk cod e (filter (under_root (ls_root p)) (ls_files p)) []
                  (p\<lparr>ls_numObjects := 0, ls_totalSize := 0\<rparr>) of
             (Return toDelete, p1) \<Rightarrow> (Return (), configure_delete e toDelete p1)
           | (Fail err, p1) \<Rightarrow> (Fail err, p1)
           | (Panic, p1) \<Rightarrow> (Panic, p1))"

text \<open>The goroutine that serves \<open>Notify()\<close>, on one hash.\<close>

definition process_expiration ::
    "disk_env \<Rightarrow> string \<Rightarrow> LocalStorageProvider \<Rightarrow> unit outcome \<times> LocalStorageProvider" where
  "process_expiration e hash p =
     (if length hash < 2 then (Panic, p)
      else let path = objPath (ls_root p) hash
           in case map_of (ls_files p) path of
                None \<Rightarrow> (Return (), p)
              | Some content \<Rightarrow>
                  if \<not> de_remove_ok e path then (Return (), p)
                  else (Return (), p\<lparr>ls_files := AList.delete path (ls_files p),
                                     ls_totalSize := ls_totalSize p - int (length content),
                                     ls_numObjects := ls_numObjects p - 1\<rparr>))"

definition Local_Put ::
    "codec \<Rightarrow> disk_env \<Rightarrow> string \<Rightarrow> CacheObject \<Rightarrow> LocalStorageProvider \<Rightarrow>
     unit outcome \<times> CacheObject \<times> LocalStorageProvider" where
  "Local_Put cod e hash obj p =
     (case co_Metadata obj of
        None \<Rightarrow> (Panic, obj, p)
      | Some m \<Rightarrow>
          let obj' = obj\<lparr>co_Metadata := Some (m\<lparr>cm_ManagedFields :=
                       Some \<lparr>mf_Size = int (length (co_Data obj)), mf_Timestamp = de_now e,
                             mf_Score = 0, mf_Location = Disk\<rparr>\<rparr>)\<rparr>
          in if length hash < 2 then (Panic, obj', p)
             else if \<not> de_mkdir_ok e (objDir (ls_root p) hash) then (Fail (Status Internal ''mkdir''), obj', p)
             else case Marshal cod obj' of
                    None \<Rightarrow> (Fail (Status Internal ''marshal''), obj', p)
                  | Some b \<Rightarrow>
                      let path = Join [objDir (ls_root p) hash, hash]
                      in if \<not> de_write_ok e path then (Fail (Status Internal ''write''), obj', p)
                         else (Return (), obj',
                               p\<lparr>ls_files := AList.update path b (ls_files p),
                                 ls_totalSize := ls_totalSize p + int (length (co_Data obj)),
                                 ls_numObjects := ls_numObjects p + 1,
                                 ls_notifier := notifier_Add hash (cm_ExpirationDate m) (ls_notifier p)\<rparr>))"

text \<open>The decoding that \<open>Get\<close> and \<open>Query\<close> share: empty metadata and tags are filled in.\<close>

definition fill_omitted :: "CacheObject \<Rightarrow> CacheObjectMeta" where
  "fill_omitted obj =
     (let m = (case co_Metadata obj of None \<Rightarrow> empty_meta | Some m \<Rightarrow> m)
      in if cm_Tags m = None then m\<lparr>cm_Tags := Some []\<rparr> else m)"

definition Local_Get ::
    "codec \<Rightarrow> disk_env \<Rightarrow> string \<Rightarrow> LocalStorageProvider \<Rightarrow>
     CacheObject outcome \<times> LocalStorageProvider" where
  "Local_Get cod e hash p =
     (if length hash < 2 then (Panic, p)
      else let path = objPath (ls_root p) hash
           in case map_of (ls_files p) path of
                None \<Rightarrow> (Fail (Status NotFound ''Object not found''),
                         p\<lparr>ls_cacheMissesTotal := ls_cacheMissesTotal p + 1\<rparr>)
              | Some content \<Rightarrow>
                  let p1 = p\<lparr>ls_cacheHitsTotal := ls_cacheHitsTotal p + 1\<rparr>
                  in if \<not> de_read_ok e path then (Fail (Status NotFound ''Error retrieving object''), p1)
                     else case Unmarshal cod content of
                            None \<Rightarrow> (Fail (Status NotFound ''Object is corrupted or invalid''), p1)
                          | Some obj \<Rightarrow>
                              let m = fill_omitted obj
                              in case cm_ManagedFields m of
                                   None \<Rightarrow> (Panic, p1)
                                 | Some f \<Rightarrow>
                                     (Return (obj\<lparr>co_Metadata := Some (m\<lparr>cm_ManagedFields :=
                                        Some (f\<lparr>mf_Timestamp := de_now e\<rparr>)\<rparr>)\<rparr>), p1))"

fun Local_Query ::
    "codec \<Rightarrow> disk_env \<Rightarrow> string list \<Rightarrow> LocalStorageProvider \<Rightarrow> CacheObjectMeta list outcome" where
  "Local_Query cod e [] p = Return []"
| "Local_Query cod e (hash # keys) p =
     (if length hash < 2 then Panic
      else let path = objPath (ls_root p) hash;
               found = (case map_of (ls_files p) path of
                          None \<Rightarrow> []
                        | Some content \<Rightarrow>
                            if \<not> de_read_ok e path then []
                            else case Unmarshal cod content of
                                   None \<Rightarrow> []
                                 | Some obj \<Rightarrow> [fill_omitted obj])
           in case Local_Query cod e keys p of
                Return rest \<Rightarrow> Return (found @ rest)
              | Fail err \<Rightarrow> Fail err
              | Panic \<Rightarrow> Panic)"

definition Local_UsageInfo :: "LocalStorageProvider \<Rightarrow> CacheUsage" where
  "Local_UsageInfo p =
     \<lparr>cu_ObjectCount = ls_numObjects p, cu_TotalSize = ls_totalSize p,
      cu_UsagePercent = fdiv (ls_totalSize p * 100) (ls_sizeLimit p)\<rparr>"

definition Local_CacheHits :: "LocalStorageProvider \<Rightarrow> CacheHitsMetric option" where
  "Local_CacheHits p =
     (let total = ls_cacheHitsTotal p + ls_cacheMissesTotal p
      in if total > 0
         then Some \<lparr>ch_CacheHitsTotal = ls_cacheHitsTotal p,
                    ch_CacheMissesTotal = ls_cacheMissesTotal p,
                    ch_CacheHitPercent = fdiv (ls_cacheHitsTotal p) total\<rparr>
         else None)"

text \<open>\<open>DeleteObjectsClosestToExpiration\<close>: one round forces the expiration of the entry on top of the
  heap, the other two goroutines run (the waiter sends the notification and scans again, the owner
  removes the file), and the poll looks the object up; a lookup that still succeeds is the poll's
  timeout. \<open>n\<close> bounds the rounds.\<close>

definition serve_waiter :: "LocalStorageProvider \<Rightarrow> LocalStorageProvider" where
  "serve_waiter p =
     (case notifier_run [Ev_Send, Ev_Scan] (ls_notifier p) of
        Some e \<Rightarrow> p\<lparr>ls_notifier := e\<rparr> | None \<Rightarrow> p)"

fun serve_owner :: "disk_env \<Rightarrow> string list \<Rightarrow> LocalStorageProvider \<Rightarrow> unit outcome \<times> LocalStorageProvider" where
  "serve_owner e [] p = (Return (), p)"
| "serve_owner e (hash # hashes) p =
     (case process_expiration e hash p of
        (Return _, p1) \<Rightarrow> serve_owner e hashes p1
      | r \<Rightarrow> r)"

definition drain_notify :: "disk_env \<Rightarrow> LocalStorageProvider \<Rightarrow> unit outcome \<times> LocalStorageProvider" where
  "drain_notify e p =
     serve_owner e (n_expirationChan (ls_notifier p))
       (p\<lparr>ls_notifier := (ls_notifier p)\<lparr>n_expirationChan := []\<rparr>\<rparr>)"

fun DeleteObjectsClosestToExpiration ::
    "nat \<Rightarrow> codec \<Rightarrow> disk_env \<Rightarrow> nat \<Rightarrow> LocalStorageProvider \<Rightarrow> (nat outcome \<times> LocalStorageProvider) option" where
  "DeleteObjectsClosestToExpiration 0 cod e numDeleted p = None"
| "DeleteObjectsClosestToExpiration (Suc n) cod e numDeleted p =
     (if 10 * ls_totalSize p \<ge> 9 * ls_sizeLimit p then
        (let hash = fst (heap_Peek (n_heap (ls_notifier p)))
         in case ForceExpiration (ls_notifier p) of
              (Return _, e1) \<Rightarrow>
                (case drain_notify e (serve_waiter (p\<lparr>ls_notifier := e1\<rparr>)) of
                   (Return _, p1) \<Rightarrow>
                     (case Local_Get cod e hash p1 of
                        (Return _, p2) \<Rightarrow> Some (Fail (Error ''timed out waiting for the condition''), p2)
                      | (Fail _, p2) \<Rightarrow> DeleteObjectsClosestToExpiration n cod e (Suc numDeleted) p2
                      | (Panic, p2) \<Rightarrow> Some (Panic, p2))
                 | (Fail err, p1) \<Rightarrow> Some (Fail err, p1)
                 | (Panic, p1) \<Rightarrow> Some (Panic, p1))
            | (Fail err, _) \<Rightarrow> Some (Fail err, p)
            | (Panic, _) \<Rightarrow> Some (Panic, p))
      else Some (Return numDeleted, p))"

section \<open>Files and keys\<close>

definition key_ok :: "string \<Rightarrow> bool" where
  "key_ok hash = (2 \<le> length hash \<and> plain_name hash)"

text \<open>Two distinct keys are stored in two distinct files, and the walk of \<open>Configure\<close> recovers the key
  from the path.\<close>

lemma Base_objPath: "plain_name hash \<Longrightarrow> Base (objPath dir hash) = hash"
  unfolding objPath_def using Base_Join [of hash "[dir, take 2 hash]"] by simp

lemma objPath_inj: "plain_name k \<Longrightarrow> plain_name k' \<Longrightarrow> objPath dir k = objPath dir k' \<Longrightarrow> k = k'"
  by (metis Base_objPath)

lemma Base_put_path: "plain_name hash \<Longrightarrow> Base (Join [objDir dir hash, hash]) = hash"
  using Base_Join [of hash "[objDir dir hash]"] by simp

lemma put_path: "key_ok hash \<Longrightarrow> Join [objDir dir hash, hash] = objPath dir hash"
  unfolding objDir_def objPath_def key_ok_def by (intro Join_Join) (cases hash; auto)+

section \<open>The provider contract\<close>

text \<open>What a provider in state \<open>p\<close> holds under a key: the data of a file that decodes.\<close>

definition local_holds :: "codec \<Rightarrow> LocalStorageProvider \<Rightarrow> string \<Rightarrow> bytes \<Rightarrow> bool" where
  "local_holds cod p hash d \<longleftrightarrow>
     (case Option.bind (map_of (ls_files p) (objPath (ls_root p) hash)) (Unmarshal cod) of
        None \<Rightarrow> False | Some obj \<Rightarrow> co_Data obj = d)"

lemmas local_op_splits =
  option.splits if_splits outcome.splits prod.splits

lemma Local_Put_cases:
  assumes "Local_Put cod e hash obj p = (r, obj', p')"
  shows "co_Data obj' = co_Data obj" and "ls_root p' = ls_root p"
    and "p' = p \<or> (\<exists>b. r = Return () \<and> Marshal cod obj' = Some b \<and>
           ls_files p' = AList.update (Join [objDir (ls_root p) hash, hash]) b (ls_files p) \<and>
           ls_totalSize p' = ls_totalSize p + int (length (co_Data obj)) \<and>
           ls_numObjects p' = ls_numObjects p + 1)"
    and "is_return r \<Longrightarrow> ls_numObjects p' = ls_numObjects p + 1"
  using assms by (auto simp: Local_Put_def Let_def split: local_op_splits)

lemma Local_Get_cases:
  assumes "Local_Get cod e hash p = (q, p')"
  shows "ls_files p' = ls_files p" and "ls_root p' = ls_root p" and "ls_notifier p' = ls_notifier p"
    and "q = Return obj \<Longrightarrow> local_holds cod p hash (co_Data obj)"
  using assms by (auto simp: Local_Get_def local_holds_def Let_def split: local_op_splits)

lemma local_holds_cong:
  "ls_files p' = ls_files p \<Longrightarrow> ls_root p' = ls_root p \<Longrightarrow> local_holds cod p' = local_holds cod p"
  by (intro ext) (simp add: local_holds_def)

lemma local_holds_put:
  assumes "codec_ok cod" and "key_ok k" and "key_ok k'"
    and "Local_Put cod e k obj p = (r, obj', p')" and "p' \<noteq> p"
  shows "local_holds cod p' k' d \<longleftrightarrow> (if k' = k then d = co_Data obj else local_holds cod p k' d)"
proof -
  from Local_Put_cases(3) [OF assms(4)] assms(5) obtain b where b: "Marshal cod obj' = Some b"
    and files: "ls_files p' = AList.update (objPath (ls_root p) k) b (ls_files p)"
    using put_path [OF assms(2)] by auto
  have "Unmarshal cod b = Some obj'" using assms(1) b by (simp add: codec_ok_def)
  moreover have "k' \<noteq> k \<Longrightarrow> objPath (ls_root p) k' \<noteq> objPath (ls_root p) k"
    using assms(2,3) objPath_inj by (auto simp: key_ok_def)
  ultimately show ?thesis
    using Local_Put_cases(1,2) [OF assms(4)] files by (auto simp: local_holds_def update_conv')
qed

interpretation ls: durable_provider "Local_Put cod" "Local_Get cod" "local_holds cod"
  "\<lambda>p. codec_ok cod" key_ok for cod
proof (unfold_locales, goal_cases)
  case 3
  then show ?case by (rule Local_Put_cases(1))
next
  case (4 p k k' e obj r obj' p' d)
  then show ?case using local_holds_put [of cod k k' e obj p r obj' p' d] by (cases "p' = p") (auto split: if_splits)
next
  case (5 p k k' e q p' d)
  then show ?case using local_holds_cong [OF Local_Get_cases(1,2)] by metis
next
  case (6 p k e obj p')
  then show ?case using Local_Get_cases(4) by blast
next
  case (7 p k e obj u obj' p')
  then have "ls_numObjects p' = ls_numObjects p + 1" using Local_Put_cases(4) [OF 7(3)] by simp
  then have "p' \<noteq> p" by auto
  with 7 show ?case using local_holds_put [of cod k k e obj p _ obj' p'] by auto
qed auto

section \<open>Configure and eviction\<close>

lemma configure_walk_Return:
  assumes "configure_walk cod e files del p = (Return del', p')"
  shows "del' = del @ map fst (filter (\<lambda>f. Unmarshal cod (snd f) = None) files)"
    and "ls_numObjects p' = ls_numObjects p + int (length files)"
    and "ls_totalSize p' = ls_totalSize p + (\<Sum>f\<leftarrow>files. int (length (snd f)))"
    and "ls_files p' = ls_files p"
    and "mset (n_heap (ls_notifier p')) = mset (n_heap (ls_notifier p)) +
      mset [\<lparr>entry_hash = Base (fst f), entry_date = GetExpirationDate (the (Unmarshal cod (snd f)))\<rparr>.
            f \<leftarrow> files, Unmarshal cod (snd f) \<noteq> None]"
  using assms
  by (induction cod e files del p rule: configure_walk.induct)
    (auto simp: Let_def split: if_splits option.splits)

lemma map_of_configure_delete:
  "map_of (ls_files (configure_delete e del p)) x =
     (if x \<in> set del \<and> de_remove_ok e x then None else map_of (ls_files p) x)"
  by (induction e del p rule: configure_delete.induct) (auto simp: delete_conv')

lemma configure_delete_same:
  "ls_numObjects (configure_delete e del p) = ls_numObjects p"
  "ls_totalSize (configure_delete e del p) = ls_totalSize p"
  "ls_notifier (configure_delete e del p) = ls_notifier p"
  by (induction e del p rule: configure_delete.induct) auto

lemma process_expiration_same:
  "process_expiration e hash p = (r, p') \<Longrightarrow> ls_notifier p' = ls_notifier p"
  by (auto simp: process_expiration_def Let_def split: local_op_splits)

lemma serve_owner_same: "serve_owner e hashes p = (r, p') \<Longrightarrow> ls_notifier p' = ls_notifier p"
  by (induction e hashes p rule: serve_owner.induct)
    (auto dest: process_expiration_same split: local_op_splits)

lemma drain_notify_inv:
  assumes "drain_notify e p = (r, p')" and "notifier_inv (ls_notifier p)"
  shows "notifier_inv (ls_notifier p')" and "n_heap (ls_notifier p') = n_heap (ls_notifier p)"
  using serve_owner_same [OF assms(1) [unfolded drain_notify_def]] assms(2)
  by (auto simp: notifier_inv_def split: waiter.splits)

lemma serve_waiter_inv:
  assumes "notifier_inv (ls_notifier p)"
  shows "notifier_inv (ls_notifier (serve_waiter p))"
    and "n_heap (ls_notifier (serve_waiter p)) = n_heap (ls_notifier p)"
proof -
  have inv: "notifier_run evs e = Some e' \<Longrightarrow> notifier_inv e \<Longrightarrow> notifier_inv e'" for evs e e'
    by (induction evs arbitrary: e) (auto split: option.splits intro: notifier_step_inv)
  show "notifier_inv (ls_notifier (serve_waiter p))"
    using assms inv by (auto simp: serve_waiter_def simp del: run_events.simps split: option.splits)
  show "n_heap (ls_notifier (serve_waiter p)) = n_heap (ls_notifier p)"
    by (auto simp: serve_waiter_def wait_scan_def split: option.splits waiter.splits if_splits)
qed

lemma ForceExpiration_pops:
  assumes "ForceExpiration e = (Return u, e')" and "notifier_inv e"
  shows "notifier_inv e'" and "length (n_heap e') < length (n_heap e)"
proof -
  from assms(1) have step: "notifier_step Ev_Force e = Some e'"
    by (auto simp: ForceExpiration_def split: option.splits)
  then show "notifier_inv e'" by (rule notifier_step_inv [OF _ assms(2)])
  from step assms(2) have ne: "n_heap e \<noteq> []" and e': "n_heap e' = snd (heap_Pop (n_heap e))"
    by (auto simp: notifier_inv_def wait_expire_def split: waiter.splits)
  obtain h' where "heap_Pop (n_heap e) = (Some (hd (n_heap e)), h')" using heap_Pop_Some [OF ne] by blast
  with eheap.pop_entries [of "n_heap e"] assms(2) e' show "length (n_heap e') < length (n_heap e)"
    by (simp add: notifier_inv_def) (metis lessI size_add_mset size_mset)
qed

section \<open>Properties\<close>

text \<open>C4: an object stored by a successful \<open>Put\<close> is what \<open>Get\<close> of the same key returns, with its
  expiration date and the time of the read, as long as the file can be read; the results for other
  keys do not change.\<close>

theorem local_put_get:
  assumes "codec_ok cod" and "key_ok k" and "Local_Put cod e k obj p = (Return (), obj', p')"
    and "de_read_ok e' (objPath (ls_root p) k)"
  shows "(\<exists>got p''. Local_Get cod e' k p' = (Return got, p'') \<and> co_Data got = co_Data obj \<and>
           GetExpirationDate got = GetExpirationDate obj \<and>
           map_option mf_Timestamp (Option.bind (co_Metadata got) cm_ManagedFields) = Some (de_now e') \<and>
           ls_cacheHitsTotal p'' = ls_cacheHitsTotal p' + 1) \<and>
         (\<forall>k'. key_ok k' \<and> k' \<noteq> k \<longrightarrow> fst (Local_Get cod e' k' p') = fst (Local_Get cod e' k' p))"
proof -
  from assms(3) obtain m b where m: "co_Metadata obj = Some m" and b: "Marshal cod obj' = Some b"
    and obj': "obj' = obj\<lparr>co_Metadata := Some (m\<lparr>cm_ManagedFields :=
                       Some \<lparr>mf_Size = int (length (co_Data obj)), mf_Timestamp = de_now e,
                             mf_Score = 0, mf_Location = Disk\<rparr>\<rparr>)\<rparr>"
    and files: "ls_files p' = AList.update (Join [objDir (ls_root p) k, k]) b (ls_files p)"
    and rt: "ls_root p' = ls_root p"
    by (auto simp: Local_Put_def Let_def split: local_op_splits)
  have stored: "map_of (ls_files p') (objPath (ls_root p') k) = Some b"
    using files rt put_path [OF assms(2)] by (simp add: update_conv')
  have dec: "Unmarshal cod b = Some obj'" using assms(1) b by (simp add: codec_ok_def)
  have len: "\<not> length k < 2" using assms(2) by (simp add: key_ok_def)
  have "\<exists>got p''. Local_Get cod e' k p' = (Return got, p'') \<and> co_Data got = co_Data obj \<and>
           GetExpirationDate got = GetExpirationDate obj \<and>
           map_option mf_Timestamp (Option.bind (co_Metadata got) cm_ManagedFields) = Some (de_now e') \<and>
           ls_cacheHitsTotal p'' = ls_cacheHitsTotal p' + 1"
    using stored dec len assms(4) rt m
    by (simp add: Local_Get_def Let_def obj' fill_omitted_def GetExpirationDate_def)
  moreover have "fst (Local_Get cod e' k' p') = fst (Local_Get cod e' k' p)"
    if k': "key_ok k'" "k' \<noteq> k" for k'
  proof -
    from k'
    have "objPath (ls_root p) k' \<noteq> objPath (ls_root p) k"
      using assms(2) objPath_inj by (auto simp: key_ok_def)
    then have "map_of (ls_files p') (objPath (ls_root p') k') = map_of (ls_files p) (objPath (ls_root p) k')"
      using files rt put_path [OF assms(2)] by (simp add: update_conv')
    then show ?thesis using rt by (simp add: Local_Get_def Let_def split: option.splits)
  qed
  ultimately show ?thesis by blast
qed

text \<open>A concrete encoder, a table of messages and their encodings, for the instances below.\<close>

definition table_codec :: "(CacheObject \<times> bytes) list \<Rightarrow> codec" where
  "table_codec t = \<lparr>Marshal = map_of t, Unmarshal = map_of (map prod.swap t)\<rparr>"

lemma table_codec_ok: "distinct (map snd t) \<Longrightarrow> codec_ok (table_codec t)"
  by (auto simp: codec_ok_def table_codec_def comp_def intro!: map_of_is_SomeI dest!: map_of_SomeD)

definition sample_object :: "bytes \<Rightarrow> int \<Rightarrow> CacheObject" where
  "sample_object d x = \<lparr>co_Data = d,
     co_Metadata = Some \<lparr>cm_Tags = None, cm_ExpirationDate = x, cm_ManagedFields = None\<rparr>\<rparr>"

definition stored_object :: "bytes \<Rightarrow> int \<Rightarrow> int \<Rightarrow> CacheObject" where
  "stored_object d x t = \<lparr>co_Data = d,
     co_Metadata = Some \<lparr>cm_Tags = None, cm_ExpirationDate = x, cm_ManagedFields =
       Some \<lparr>mf_Size = int (length d), mf_Timestamp = t, mf_Score = 0, mf_Location = Disk\<rparr>\<rparr>\<rparr>"

definition sample_codec :: codec where
  "sample_codec = table_codec [(stored_object ''obj'' 90 5, ''encoded''), (stored_object ''o2'' 40 6, ''enc2'')]"

lemma sample_codec_ok: "codec_ok sample_codec"
  unfolding sample_codec_def by (rule table_codec_ok) simp

definition sample_provider :: LocalStorageProvider where
  "sample_provider = NewLocalStorageProvider ''/data'' 100 [] 0"

definition put_sample :: "LocalStorageProvider \<Rightarrow> unit outcome \<times> CacheObject \<times> LocalStorageProvider" where
  "put_sample = Local_Put sample_codec (no_faults 5) ''abcd'' (sample_object ''obj'' 90)"

lemma put_sample_Return: "fst (put_sample sample_provider) = Return ()"
  by code_simp

theorem local_put_get_witness:
  "\<exists>obj' p' got p''.
     Local_Put sample_codec (no_faults 5) ''abcd'' (sample_object ''obj'' 90) sample_provider = (Return (), obj', p') \<and>
     Local_Get sample_codec (no_faults 7) ''abcd'' p' = (Return got, p'') \<and> co_Data got = ''obj'' \<and>
     fst (Local_Get sample_codec (no_faults 7) ''abce'' p') =
     fst (Local_Get sample_codec (no_faults 7) ''abce'' sample_provider)"
proof -
  obtain r obj' p' where put: "put_sample sample_provider = (r, obj', p')" by (cases "put_sample sample_provider")
  with put_sample_Return have put': "Local_Put sample_codec (no_faults 5) ''abcd'' (sample_object ''obj'' 90) sample_provider
     = (Return (), obj', p')" by (simp add: put_sample_def)
  have keys: "key_ok ''abcd''" "key_ok ''abce''" by code_simp+
  have "de_read_ok (no_faults 7) (objPath (ls_root sample_provider) ''abcd'')" by (simp add: no_faults_def)
  from local_put_get [OF sample_codec_ok keys(1) put' this] put' keys(2)
  show ?thesis by (auto simp: sample_object_def)
qed

text \<open>C22: \<open>Configure\<close> rebuilds the provider from the disk. After a successful call the files that do
  not decode are gone (unless their removal fails), every other file is kept, and the expiration
  heap has gained one entry per file that decodes, with the hash taken from the file name and the
  expiration date of the object. The counters count every file found, those it then deletes
  included.\<close>

theorem local_configure_rebuilds:
  assumes "Local_Configure cod e p = (Return (), p')"
  defines "files \<equiv> filter (under_root (ls_root p)) (ls_files p)"
  shows "ls_numObjects p' = int (length files) \<and>
         ls_totalSize p' = (\<Sum>f\<leftarrow>files. int (length (snd f))) \<and>
         (\<forall>x. map_of (ls_files p') x =
            (if (\<exists>f\<in>set files. fst f = x \<and> Unmarshal cod (snd f) = None) \<and> de_remove_ok e x
             then None else map_of (ls_files p) x)) \<and>
         mset (n_heap (ls_notifier p')) = mset (n_heap (ls_notifier p)) +
           mset [\<lparr>entry_hash = Base (fst f), entry_date = GetExpirationDate (the (Unmarshal cod (snd f)))\<rparr>.
                 f \<leftarrow> files, Unmarshal cod (snd f) \<noteq> None]"
proof -
  from assms(1) obtain del p1 where walk: "configure_walk cod e files []
      (p\<lparr>ls_numObjects := 0, ls_totalSize := 0\<rparr>) = (Return del, p1)" and p': "p' = configure_delete e del p1"
    by (auto simp: Local_Configure_def files_def split: local_op_splits)
  have del: "x \<in> set del \<longleftrightarrow> (\<exists>f\<in>set files. fst f = x \<and> Unmarshal cod (snd f) = None)" for x
    using configure_walk_Return(1) [OF walk] by auto
  have "map_of (ls_files p') x =
      (if (\<exists>f\<in>set files. fst f = x \<and> Unmarshal cod (snd f) = None) \<and> de_remove_ok e x
       then None else map_of (ls_files p) x)" for x
    unfolding p' map_of_configure_delete del configure_walk_Return(4) [OF walk] by auto
  then show ?thesis
    using configure_walk_Return(2,3,5) [OF walk] by (simp only: p' configure_delete_same) simp
qed

definition restart_disk :: "(string \<times> bytes) list" where
  "restart_disk = [(''/data/ab/abcd'', ''encoded''), (''/data/zz'', ''garbage'')]"

definition restarted :: LocalStorageProvider where
  "restarted = NewLocalStorageProvider ''/data'' 100 restart_disk 0"

theorem local_configure_rebuilds_witness:
  "\<exists>p'. Local_Configure sample_codec (no_faults 9) restarted = (Return (), p') \<and>
     ls_numObjects p' = 2 \<and> map_of (ls_files p') ''/data/zz'' = None \<and>
     mset (n_heap (ls_notifier p')) = {#\<lparr>entry_hash = ''abcd'', entry_date = 90\<rparr>#}"
proof -
  let ?p = restarted
  obtain r p' where c: "Local_Configure sample_codec (no_faults 9) ?p = (r, p')"
    by (cases "Local_Configure sample_codec (no_faults 9) ?p")
  have "fst (Local_Configure sample_codec (no_faults 9) ?p) = Return ()" by code_simp
  with c have c': "Local_Configure sample_codec (no_faults 9) ?p = (Return (), p')" by simp
  have f: "filter (under_root (ls_root ?p)) restart_disk = restart_disk" by code_simp
  have u: "Unmarshal sample_codec ''encoded'' = Some (stored_object ''obj'' 90 5)"
    "Unmarshal sample_codec ''garbage'' = None" by code_simp+
  have b: "Base ''/data/ab/abcd'' = ''abcd''" "GetExpirationDate (stored_object ''obj'' 90 5) = 90" by code_simp+
  have h: "n_heap (ls_notifier ?p) = []" "ls_files ?p = restart_disk" by code_simp+
  from local_configure_rebuilds [OF c', unfolded f h] c' show ?thesis
    by (simp add: restart_disk_def u b no_faults_def)
qed

text \<open>\<open>DeleteObjectsClosestToExpiration\<close> ends: each round that goes on removes an entry from the
  heap, so one round more than there are entries is enough; and when it reports success, the total
  size is below nine tenths of the limit.\<close>

theorem delete_objects_ends:
  assumes "notifier_inv (ls_notifier p)" and "length (n_heap (ls_notifier p)) < n"
  shows "\<exists>r p'. DeleteObjectsClosestToExpiration n cod e c p = Some (r, p') \<and>
           (is_return r \<longrightarrow> 10 * ls_totalSize p' < 9 * ls_sizeLimit p')"
  using assms
proof (induction n arbitrary: c p)
  case (Suc n)
  show ?case
  proof (cases "10 * ls_totalSize p \<ge> 9 * ls_sizeLimit p \<and> fst (ForceExpiration (ls_notifier p)) = Return ()")
    case False
    then show ?thesis by (auto split: local_op_splits)
  next
    case True
    obtain e1 where f: "ForceExpiration (ls_notifier p) = (Return (), e1)"
      using True by (cases "ForceExpiration (ls_notifier p)") auto
    let ?p1 = "serve_waiter (p\<lparr>ls_notifier := e1\<rparr>)"
    obtain r2 p2 where d: "drain_notify e ?p1 = (r2, p2)" by (cases "drain_notify e ?p1")
    have heap: "notifier_inv (ls_notifier p2)" "length (n_heap (ls_notifier p2)) < n"
      using ForceExpiration_pops [OF f Suc.prems(1)] serve_waiter_inv [of "p\<lparr>ls_notifier := e1\<rparr>"]
        drain_notify_inv [OF d] Suc.prems(2) by auto
    obtain q p3 where g: "Local_Get cod e (fst (heap_Peek (n_heap (ls_notifier p)))) p2 = (q, p3)"
      by (cases "Local_Get cod e (fst (heap_Peek (n_heap (ls_notifier p)))) p2")
    have "notifier_inv (ls_notifier p3)" "length (n_heap (ls_notifier p3)) < n"
      using heap Local_Get_cases(3) [OF g] by auto
    then show ?thesis using True f d g Suc.IH [of p3 "Suc c"] by (cases r2; cases q) auto
  qed
qed simp

definition full_provider :: LocalStorageProvider where
  "full_provider = (let p = snd (snd (put_sample (sample_provider\<lparr>ls_sizeLimit := 3\<rparr>)))
     in p\<lparr>ls_notifier := wait_scan (ls_notifier p)\<rparr>)"

theorem delete_objects_ends_witness:
  "\<exists>r p'. DeleteObjectsClosestToExpiration 2 sample_codec (no_faults 9) 0 full_provider = Some (r, p') \<and>
     is_return r \<and> 10 * ls_totalSize p' < 9 * ls_sizeLimit p'"
proof -
  have "ls_notifier full_provider = wait_scan (notifier_Add ''abcd'' 90 (NewExpirationNotifier 0))" by code_simp
  moreover have "notifier_inv (NewExpirationNotifier 0)" by (intro n_reachable_inv n_reachable.n_init)
  ultimately have "notifier_inv (ls_notifier full_provider)" by (simp add: inv_intro)
  moreover have "length (n_heap (ls_notifier full_provider)) < 2" by code_simp
  moreover have "map_option (\<lambda>x. is_return (fst x))
    (DeleteObjectsClosestToExpiration 2 sample_codec (no_faults 9) 0 full_provider) = Some True" by code_simp
  ultimately show ?thesis
    using delete_objects_ends [of full_provider 2 sample_codec "no_faults 9" 0] by fastforce
qed

text \<open>The size accounting drifts. \<open>Put\<close> adds the length of the data while the removal of the
  expired object subtracts the size of its file, which is the length of the encoded object; so
  storing and expiring an object leaves the difference of the two in \<open>totalSize\<close>, and the disk and
  the object count as they were.\<close>

theorem local_put_expire_drift:
  assumes "key_ok k" and "Local_Put cod e k obj p = (Return (), obj', p')"
    and "map_of (ls_files p) (objPath (ls_root p) k) = None" and "de_remove_ok e' (objPath (ls_root p) k)"
  shows "\<exists>p''. process_expiration e' k p' = (Return (), p'') \<and>
           map_of (ls_files p'') = map_of (ls_files p) \<and> ls_numObjects p'' = ls_numObjects p \<and>
           ls_totalSize p'' =
             ls_totalSize p + int (length (co_Data obj)) - int (length (the (Marshal cod obj')))"
proof -
  have ret: "is_return (Return ())" by simp
  from Local_Put_cases(3) [OF assms(2)] Local_Put_cases(4) [OF assms(2) ret] put_path [OF assms(1)]
  obtain b where b: "Marshal cod obj' = Some b"
    and p': "ls_files p' = AList.update (objPath (ls_root p) k) b (ls_files p)"
      "ls_totalSize p' = ls_totalSize p + int (length (co_Data obj))" "ls_numObjects p' = ls_numObjects p + 1"
    by auto
  have "(map_of (ls_files p))(objPath (ls_root p) k := None) = map_of (ls_files p)"
    using assms(3) by (auto simp: fun_eq_iff)
  then show ?thesis
    using assms(1,4) b p' Local_Put_cases(2) [OF assms(2)]
    by (simp add: process_expiration_def Let_def key_ok_def update_conv' delete_conv' not_less)
qed

theorem local_put_expire_drift_witness:
  "\<exists>obj' p' p''. Local_Put sample_codec (no_faults 5) ''abcd'' (sample_object ''obj'' 90) sample_provider = (Return (), obj', p') \<and>
     process_expiration (no_faults 91) ''abcd'' p' = (Return (), p'') \<and> ls_totalSize p'' = - 4"
proof -
  obtain r obj' p' where put: "put_sample sample_provider = (r, obj', p')" by (cases "put_sample sample_provider")
  with put_sample_Return have put': "Local_Put sample_codec (no_faults 5) ''abcd'' (sample_object ''obj'' 90) sample_provider
     = (Return (), obj', p')" by (simp add: put_sample_def)
  have "fst (snd (put_sample sample_provider)) = stored_object ''obj'' 90 5" by code_simp
  with put have obj': "obj' = stored_object ''obj'' 90 5" by simp
  have m: "Marshal sample_codec (stored_object ''obj'' 90 5) = Some ''encoded''"
    and k: "key_ok ''abcd''"
    and f: "map_of (ls_files sample_provider) (objPath (ls_root sample_provider) ''abcd'') = None"
    and z: "ls_totalSize sample_provider = 0" by code_simp+
  have "de_remove_ok (no_faults 91) (objPath (ls_root sample_provider) ''abcd'')" by (simp add: no_faults_def)
  from local_put_expire_drift [OF k put' f this] put' show ?thesis
    by (auto simp: obj' m z sample_object_def)
qed

end
