(* ===== verification/VolatileStorage.thy ===== *)
theory VolatileStorage
  imports StorageTypes
begin

text \<open>
  \<open>VolatileStorageProvider\<close> of \<open>src/pkg/storage/volatile.go\<close>. The cache itself is the package
  \<open>ccache\<close>, which is not part of the sources: its operations are the record \<open>ccache\<close>, a parameter.
  The operations that depend on the clock take the time as an argument.
  An operation that removes items returns them, and the provider's \<open>OnDelete\<close> callback runs on each.
  \<open>ccache_ok\<close> states what the provider relies on.
\<close>

section \<open>Model\<close>

record ('c, 'i) ccache =
  cc_New :: "int \<Rightarrow> 'c"
  cc_Get :: "string \<Rightarrow> 'c \<Rightarrow> 'i option \<times> 'c"
  cc_Value :: "'i \<Rightarrow> CacheObject"
  cc_Expired :: "int \<Rightarrow> 'i \<Rightarrow> bool"
  cc_Extend :: "string \<Rightarrow> int \<Rightarrow> int \<Rightarrow> 'c \<Rightarrow> 'c"
  cc_Set :: "string \<Rightarrow> CacheObject \<Rightarrow> int \<Rightarrow> int \<Rightarrow> 'c \<Rightarrow> 'c \<times> CacheObject list"
  cc_Delete :: "string \<Rightarrow> 'c \<Rightarrow> 'c \<times> CacheObject list"
  cc_Prune :: "'c \<Rightarrow> 'c \<times> CacheObject list"
  cc_ItemCount :: "'c \<Rightarrow> int"

record 'c VolatileStorageProvider =
  vs_cache :: 'c
  vs_storageLimit :: int
  vs_totalSize :: int
  vs_cacheHitsTotal :: int
  vs_cacheMissesTotal :: int

definition Volatile_Location :: StorageLocation where
  "Volatile_Location = Memory"

text \<open>\<open>NewVolatileStorageProvider\<close> followed by \<open>Configure\<close>; the quantity parser of the Kubernetes
  library yields the limit or nothing.\<close>

definition ConfigurationError :: go_error where
  "ConfigurationError = Error ''Configuration Error''"

definition Volatile_Configure ::
    "('c, 'i) ccache \<Rightarrow> int option \<Rightarrow> 'c VolatileStorageProvider outcome" where
  "Volatile_Configure C quantity =
     (case quantity of
        None \<Rightarrow> Fail ConfigurationError
      | Some storageLimit \<Rightarrow>
          Return \<lparr>vs_cache = cc_New C storageLimit, vs_storageLimit = storageLimit, vs_totalSize = 0,
                  vs_cacheHitsTotal = 0, vs_cacheMissesTotal = 0\<rparr>)"

definition on_delete :: "CacheObject list \<Rightarrow> int \<Rightarrow> int" where
  "on_delete removed n = n - (\<Sum>obj\<leftarrow>removed. GetManagedSize obj)"

definition Volatile_Put ::
    "('c, 'i) ccache \<Rightarrow> int \<Rightarrow> string \<Rightarrow> CacheObject \<Rightarrow> 'c VolatileStorageProvider \<Rightarrow>
     unit outcome \<times> CacheObject \<times> 'c VolatileStorageProvider" where
  "Volatile_Put C t key obj sp =
     (case cc_Get C key (vs_cache sp) of
        (Some item, c) \<Rightarrow>
          (Fail (Status AlreadyExists ''Object already exists''), obj, sp\<lparr>vs_cache := c\<rparr>)
      | (None, c) \<Rightarrow>
          let sz = int (length (co_Data obj));
              m = (case co_Metadata obj of None \<Rightarrow> empty_meta | Some m \<Rightarrow> m);
              obj' = obj\<lparr>co_Metadata := Some (m\<lparr>cm_ManagedFields :=
                       Some \<lparr>mf_Size = sz, mf_Timestamp = t div 1000000000, mf_Score = 0,
                             mf_Location = Volatile_Location\<rparr>\<rparr>)\<rparr>;
              (c', removed) = cc_Set C key obj' t (cm_ExpirationDate m - t) c
          in (Return (), obj',
              sp\<lparr>vs_cache := c', vs_totalSize := on_delete removed (vs_totalSize sp + sz)\<rparr>))"

definition Volatile_Get ::
    "('c, 'i) ccache \<Rightarrow> int \<Rightarrow> string \<Rightarrow> 'c VolatileStorageProvider \<Rightarrow>
     CacheObject outcome \<times> 'c VolatileStorageProvider" where
  "Volatile_Get C t key sp =
     (case cc_Get C key (vs_cache sp) of
        (None, c) \<Rightarrow> (Fail (Status NotFound ''Object not found''),
                      sp\<lparr>vs_cache := c, vs_cacheMissesTotal := vs_cacheMissesTotal sp + 1\<rparr>)
      | (Some item, c) \<Rightarrow>
          let obj = cc_Value C item
          in if cc_Expired C t item \<and> GetExpirationDate obj > 0
             then let (c', removed) = cc_Delete C key c
                  in (Fail (Status NotFound ''Object expired''),
                      sp\<lparr>vs_cache := c', vs_totalSize := on_delete removed (vs_totalSize sp)\<rparr>)
             else case co_Metadata obj of
                    None \<Rightarrow> (Panic, sp\<lparr>vs_cache := c\<rparr>)
                  | Some m \<Rightarrow>
                      (Return obj,
                       sp\<lparr>vs_cache := cc_Extend C key t (cm_ExpirationDate m - t) c,
                         vs_cacheHitsTotal := vs_cacheHitsTotal sp + 1\<rparr>))"

text \<open>The body of the loop of \<open>Query\<close>, for one key.\<close>

definition query_key ::
    "('c, 'i) ccache \<Rightarrow> int \<Rightarrow> string \<Rightarrow> 'c VolatileStorageProvider \<Rightarrow>
     CacheObjectMeta option \<times> 'c VolatileStorageProvider" where
  "query_key C t key sp =
     (case cc_Get C key (vs_cache sp) of
        (None, c) \<Rightarrow> (None, sp\<lparr>vs_cache := c\<rparr>)
      | (Some item, c) \<Rightarrow>
          let obj = cc_Value C item
          in if cc_Expired C t item \<and> GetExpirationDate obj > 0
             then let (c', removed) = cc_Delete C key c
                  in (None, sp\<lparr>vs_cache := c', vs_totalSize := on_delete removed (vs_totalSize sp)\<rparr>)
             else (co_Metadata obj, sp\<lparr>vs_cache := c\<rparr>))"

fun Volatile_Query ::
    "('c, 'i) ccache \<Rightarrow> int \<Rightarrow> string list \<Rightarrow> 'c VolatileStorageProvider \<Rightarrow>
     CacheObjectMeta option list \<times> 'c VolatileStorageProvider" where
  "Volatile_Query C t [] sp = ([], sp)"
| "Volatile_Query C t (key # keys) sp =
     (let (r, sp1) = query_key C t key sp;
          (rs, sp2) = Volatile_Query C t keys sp1
      in (r # rs, sp2))"

text \<open>The worker of the cache prunes items when the limit is exceeded.\<close>

definition Volatile_Prune :: "('c, 'i) ccache \<Rightarrow> 'c VolatileStorageProvider \<Rightarrow> 'c VolatileStorageProvider" where
  "Volatile_Prune C sp =
     (let (c', removed) = cc_Prune C (vs_cache sp)
      in sp\<lparr>vs_cache := c', vs_totalSize := on_delete removed (vs_totalSize sp)\<rparr>)"

definition Volatile_UsageInfo :: "('c, 'i) ccache \<Rightarrow> 'c VolatileStorageProvider \<Rightarrow> CacheUsage" where
  "Volatile_UsageInfo C sp =
     \<lparr>cu_ObjectCount = cc_ItemCount C (vs_cache sp), cu_TotalSize = vs_totalSize sp,
      cu_UsagePercent =
        (if vs_storageLimit sp = 0 then Fin 0 else fdiv (vs_totalSize sp) (vs_storageLimit sp))\<rparr>"

definition Volatile_CacheHits :: "'c VolatileStorageProvider \<Rightarrow> CacheHitsMetric" where
  "Volatile_CacheHits sp =
     (let hitTotal = vs_cacheHitsTotal sp; missTotal = vs_cacheMissesTotal sp
      in \<lparr>ch_CacheHitsTotal = hitTotal, ch_CacheMissesTotal = missTotal,
          ch_CacheHitPercent =
            (if hitTotal + missTotal = 0 then Fin 0 else fdiv hitTotal (hitTotal + missTotal))\<rparr>)"

section \<open>What the provider relies on\<close>

definition cc_lookup :: "('c, 'i) ccache \<Rightarrow> 'c \<Rightarrow> string \<Rightarrow> CacheObject option" where
  "cc_lookup C c k = map_option (cc_Value C) (fst (cc_Get C k c))"

text \<open>The lookups after each operation: reads and \<open>Extend\<close> change nothing, \<open>Set\<close> makes the object
  visible and may evict others, \<open>Delete\<close> removes the key.\<close>

definition cc_lookups_ok :: "('c, 'i) ccache \<Rightarrow> bool" where
  "cc_lookups_ok C \<longleftrightarrow>
     (\<forall>n k. cc_lookup C (cc_New C n) k = None) \<and>
     (\<forall>c k. cc_lookup C (snd (cc_Get C k c)) = cc_lookup C c) \<and>
     (\<forall>c k t d. cc_lookup C (cc_Extend C k t d c) = cc_lookup C c) \<and>
     (\<forall>c k v t d. cc_lookup C (fst (cc_Set C k v t d c)) k = Some v) \<and>
     (\<forall>c k v t d. cc_lookup C (fst (cc_Set C k v t d c)) \<subseteq>\<^sub>m (cc_lookup C c)(k \<mapsto> v)) \<and>
     (\<forall>c k. cc_lookup C (fst (cc_Delete C k c)) = (cc_lookup C c)(k := None)) \<and>
     (\<forall>c. cc_lookup C (fst (cc_Prune C c)) \<subseteq>\<^sub>m cc_lookup C c)"

text \<open>Every object that enters the cache is there, counted by \<open>objs\<close>, until it is handed to the
  deletion callback.\<close>

definition cc_deletes_ok :: "('c, 'i) ccache \<Rightarrow> ('c \<Rightarrow> CacheObject multiset) \<Rightarrow> bool" where
  "cc_deletes_ok C objs \<longleftrightarrow>
     (\<forall>n. objs (cc_New C n) = {#}) \<and>
     (\<forall>c k. objs (snd (cc_Get C k c)) = objs c) \<and>
     (\<forall>c k t d. objs (cc_Extend C k t d c) = objs c) \<and>
     (\<forall>c k v t d. objs (fst (cc_Set C k v t d c)) + mset (snd (cc_Set C k v t d c)) = add_mset v (objs c)) \<and>
     (\<forall>c k. objs (fst (cc_Delete C k c)) + mset (snd (cc_Delete C k c)) = objs c) \<and>
     (\<forall>c. objs (fst (cc_Prune C c)) + mset (snd (cc_Prune C c)) = objs c)"

lemma cc_lookups:
  assumes "cc_lookups_ok C"
  shows "cc_Get C k c = (i, c') \<Longrightarrow> cc_lookup C c' = cc_lookup C c"
    and "cc_lookup C (cc_Extend C k t d c) = cc_lookup C c"
    and "cc_Set C k v t d c = (c', rem) \<Longrightarrow> cc_lookup C c' k = Some v"
    and "cc_Set C k v t d c = (c', rem) \<Longrightarrow> cc_lookup C c' x = Some y \<Longrightarrow>
           x = k \<and> y = v \<or> cc_lookup C c x = Some y"
    and "cc_Delete C k c = (c', rem) \<Longrightarrow> cc_lookup C c' = (cc_lookup C c)(k := None)"
    and "cc_Prune C c = (c', rem) \<Longrightarrow> cc_lookup C c' \<subseteq>\<^sub>m cc_lookup C c"
proof -
  show "cc_Get C k c = (i, c') \<Longrightarrow> cc_lookup C c' = cc_lookup C c"
    using assms by (metis cc_lookups_ok_def snd_conv)
  show "cc_lookup C (cc_Extend C k t d c) = cc_lookup C c"
    using assms by (simp add: cc_lookups_ok_def)
  show "cc_Set C k v t d c = (c', rem) \<Longrightarrow> cc_lookup C c' k = Some v"
    using assms by (metis cc_lookups_ok_def fst_conv)
  show "cc_Delete C k c = (c', rem) \<Longrightarrow> cc_lookup C c' = (cc_lookup C c)(k := None)"
    using assms by (metis cc_lookups_ok_def fst_conv)
  show "cc_Prune C c = (c', rem) \<Longrightarrow> cc_lookup C c' \<subseteq>\<^sub>m cc_lookup C c"
    using assms by (metis cc_lookups_ok_def fst_conv)
  assume set: "cc_Set C k v t d c = (c', rem)" and x: "cc_lookup C c' x = Some y"
  have "cc_lookup C c' \<subseteq>\<^sub>m (cc_lookup C c)(k \<mapsto> v)" using assms set by (metis cc_lookups_ok_def fst_conv)
  with x have "((cc_lookup C c)(k \<mapsto> v)) x = Some y" unfolding map_le_def by (metis domI)
  then show "x = k \<and> y = v \<or> cc_lookup C c x = Some y" by (auto split: if_splits)
qed

lemma cc_deletes:
  assumes "cc_deletes_ok C objs"
  shows "cc_Get C k c = (i, c') \<Longrightarrow> objs c' = objs c"
    and "objs (cc_Extend C k t d c) = objs c"
    and "cc_Set C k v t d c = (c', rem) \<Longrightarrow> objs c' + mset rem = add_mset v (objs c)"
    and "cc_Delete C k c = (c', rem) \<Longrightarrow> objs c' + mset rem = objs c"
    and "cc_Prune C c = (c', rem) \<Longrightarrow> objs c' + mset rem = objs c"
  using assms unfolding cc_deletes_ok_def by (metis fst_conv snd_conv)+

section \<open>The provider contract\<close>

definition volatile_holds :: "('c, 'i) ccache \<Rightarrow> 'c VolatileStorageProvider \<Rightarrow> string \<Rightarrow> bytes \<Rightarrow> bool" where
  "volatile_holds C sp k d \<longleftrightarrow> map_option co_Data (cc_lookup C (vs_cache sp) k) = Some d"

lemma Volatile_Put_lookup:
  assumes "cc_lookups_ok C" and "Volatile_Put C t k obj sp = (r, obj', sp')"
  shows "co_Data obj' = co_Data obj"
    and "cc_lookup C (vs_cache sp') x = Some y \<Longrightarrow> x = k \<and> y = obj' \<or> cc_lookup C (vs_cache sp) x = Some y"
    and "is_return r \<Longrightarrow> cc_lookup C (vs_cache sp') k = Some obj'"
  using assms(2)
  by (auto simp: Volatile_Put_def Let_def cc_lookups(1) [OF assms(1)]
      dest: cc_lookups(3,4) [OF assms(1)] split: prod.splits option.splits)

lemma Volatile_Get_lookup:
  assumes "cc_lookups_ok C" and "Volatile_Get C t k sp = (q, sp')"
  shows "cc_lookup C (vs_cache sp') \<subseteq>\<^sub>m cc_lookup C (vs_cache sp)"
    and "q = Return obj \<Longrightarrow> cc_lookup C (vs_cache sp) k = Some obj"
  using assms(2)
  by (auto simp: Volatile_Get_def Let_def cc_lookups(1,2) [OF assms(1)] cc_lookup_def [of C "vs_cache sp"]
      map_le_def cc_lookups(5) [OF assms(1)] split: prod.splits option.splits if_splits)

interpretation vs: durable_provider "Volatile_Put C" "Volatile_Get C" "volatile_holds C"
  "\<lambda>sp. cc_lookups_ok C" "\<lambda>k. True" for C
proof (unfold_locales, goal_cases)
  case 3
  then show ?case
    by (auto simp: Volatile_Put_def Let_def split: prod.splits option.splits)
next
  case (4 sp k k' t obj r obj' sp' d)
  then show ?case
    using Volatile_Put_lookup(1) [OF 4(1,4)] Volatile_Put_lookup(2) [OF 4(1,4)]
    by (auto simp: volatile_holds_def)
next
  case (5 sp k k' t q sp' d)
  then show ?case
    using Volatile_Get_lookup(1) [OF 5(1,4)] by (auto simp: volatile_holds_def map_le_def dom_def)
next
  case (6 sp k t obj sp')
  then show ?case using Volatile_Get_lookup(2) [OF 6(1,3)] by (auto simp: volatile_holds_def)
next
  case (7 sp k t obj u obj' sp')
  then show ?case
    using Volatile_Put_lookup(1,3) [OF 7(1,3)] by (auto simp: volatile_holds_def)
qed auto

section \<open>Accounting\<close>

text \<open>The size counter is the sum of the recorded sizes of the objects in the cache.\<close>

definition size_inv :: "('c \<Rightarrow> CacheObject multiset) \<Rightarrow> 'c VolatileStorageProvider \<Rightarrow> bool" where
  "size_inv objs sp \<longleftrightarrow> vs_totalSize sp = (\<Sum>obj\<in>#objs (vs_cache sp). GetManagedSize obj)"

lemma on_delete_removed:
  assumes "objs' + mset removed = objs"
  shows "on_delete removed (\<Sum>obj\<in>#objs. GetManagedSize obj) = (\<Sum>obj\<in>#objs'. GetManagedSize obj)"
proof -
  have "(\<Sum>obj\<leftarrow>removed. GetManagedSize obj) = (\<Sum>obj\<in>#mset removed. GetManagedSize obj)"
    by (metis mset_map sum_mset_sum_list)
  then show ?thesis using assms by (auto simp: on_delete_def)
qed

datatype volatile_op = VPut string CacheObject | VGet string | VQuery "string list" | VPrune

fun volatile_step ::
    "('c, 'i) ccache \<Rightarrow> int \<Rightarrow> volatile_op \<Rightarrow> 'c VolatileStorageProvider \<Rightarrow> 'c VolatileStorageProvider" where
  "volatile_step C t (VPut k obj) sp = snd (snd (Volatile_Put C t k obj sp))"
| "volatile_step C t (VGet k) sp = snd (Volatile_Get C t k sp)"
| "volatile_step C t (VQuery ks) sp = snd (Volatile_Query C t ks sp)"
| "volatile_step C t VPrune sp = Volatile_Prune C sp"

lemma Volatile_Put_size:
  assumes "cc_deletes_ok C objs" and "size_inv objs sp"
  shows "size_inv objs (snd (snd (Volatile_Put C t k obj sp)))"
proof (cases "cc_Get C k (vs_cache sp)")
  case (Pair i c)
  note c = cc_deletes(1) [OF assms(1) Pair]
  show ?thesis
  proof (cases i)
    case None
    define m where "m = (case co_Metadata obj of None \<Rightarrow> empty_meta | Some m \<Rightarrow> m)"
    define obj' where "obj' = obj\<lparr>co_Metadata := Some (m\<lparr>cm_ManagedFields :=
        Some \<lparr>mf_Size = int (length (co_Data obj)), mf_Timestamp = t div 1000000000, mf_Score = 0,
          mf_Location = Volatile_Location\<rparr>\<rparr>)\<rparr>"
    obtain c' rem where s: "cc_Set C k obj' t (cm_ExpirationDate m - t) c = (c', rem)" by force
    have "GetManagedSize obj' = int (length (co_Data obj))" by (simp add: GetManagedSize_def obj'_def)
    then have "vs_totalSize sp + int (length (co_Data obj)) = (\<Sum>obj\<in>#add_mset obj' (objs c). GetManagedSize obj)"
      using assms(2) c by (simp add: size_inv_def)
    then show ?thesis
      using on_delete_removed [OF cc_deletes(3) [OF assms(1) s]] Pair None s
      by (simp add: Volatile_Put_def size_inv_def Let_def flip: m_def obj'_def)
  qed (use Pair assms(2) c in \<open>simp add: Volatile_Put_def size_inv_def\<close>)
qed

lemma Volatile_Delete_size:
  assumes "cc_deletes_ok C objs" and "size_inv objs sp" and "objs c = objs (vs_cache sp)"
    and "cc_Delete C k c = (c', removed)"
  shows "size_inv objs (sp\<lparr>vs_cache := c', vs_totalSize := on_delete removed (vs_totalSize sp)\<rparr>)"
  using on_delete_removed [OF cc_deletes(4) [OF assms(1,4)]] assms(2,3) by (simp add: size_inv_def)

lemma size_inv_simps [simp]:
  "size_inv objs (sp\<lparr>vs_cacheHitsTotal := n\<rparr>) = size_inv objs sp"
  "size_inv objs (sp\<lparr>vs_cacheMissesTotal := n\<rparr>) = size_inv objs sp"
  "objs c = objs (vs_cache sp) \<Longrightarrow> size_inv objs (sp\<lparr>vs_cache := c\<rparr>) = size_inv objs sp"
  by (simp_all add: size_inv_def)

lemma Volatile_Get_size:
  assumes "cc_deletes_ok C objs" and "size_inv objs sp"
  shows "size_inv objs (snd (Volatile_Get C t k sp))"
proof (cases "cc_Get C k (vs_cache sp)")
  case (Pair i c)
  note c = cc_deletes(1) [OF assms(1) Pair]
  show ?thesis
    using Pair c assms(2) Volatile_Delete_size [OF assms c]
    by (auto simp: Volatile_Get_def Let_def cc_deletes(2) [OF assms(1)] split: prod.splits option.splits)
qed

lemma query_key_size:
  assumes "cc_deletes_ok C objs" and "size_inv objs sp"
  shows "size_inv objs (snd (query_key C t k sp))"
proof (cases "cc_Get C k (vs_cache sp)")
  case (Pair i c)
  note c = cc_deletes(1) [OF assms(1) Pair]
  show ?thesis
    using Pair c assms(2) Volatile_Delete_size [OF assms c]
    by (auto simp: query_key_def Let_def split: prod.splits option.splits)
qed

lemma Volatile_Query_size:
  "cc_deletes_ok C objs \<Longrightarrow> size_inv objs sp \<Longrightarrow> size_inv objs (snd (Volatile_Query C t ks sp))"
proof (induction ks arbitrary: sp)
  case (Cons k ks)
  then show ?case using query_key_size [of C objs sp t k] by (simp add: split_def Let_def)
qed simp

lemma volatile_step_size:
  assumes "cc_deletes_ok C objs" and "size_inv objs sp"
  shows "size_inv objs (volatile_step C t op sp)"
proof (cases op)
  case VPrune
  obtain c' rem where p: "cc_Prune C (vs_cache sp) = (c', rem)" by force
  then show ?thesis
    using VPrune assms(2) on_delete_removed [OF cc_deletes(5) [OF assms(1) p]]
    by (simp add: Volatile_Prune_def size_inv_def)
qed (use assms in \<open>simp_all add: Volatile_Put_size Volatile_Get_size Volatile_Query_size\<close>)

section \<open>A concrete cache\<close>

text \<open>A cache kept in a list, the most recent first, for the instances below.\<close>

definition list_ccache ::
    "((string \<times> CacheObject \<times> int) list, CacheObject \<times> int) ccache" where
  "list_ccache =
     \<lparr>cc_New = (\<lambda>n. []), cc_Get = (\<lambda>k c. (map_of c k, c)), cc_Value = fst,
      cc_Expired = (\<lambda>t i. snd i < t),
      cc_Extend = (\<lambda>k t d c. map (\<lambda>(k', v, x). (k', v, if k' = k then t + d else x)) c),
      cc_Set = (\<lambda>k v t d c.
        ((k, v, t + d) # filter (\<lambda>x. fst x \<noteq> k) c, map (\<lambda>x. fst (snd x)) (filter (\<lambda>x. fst x = k) c))),
      cc_Delete = (\<lambda>k c.
        (filter (\<lambda>x. fst x \<noteq> k) c, map (\<lambda>x. fst (snd x)) (filter (\<lambda>x. fst x = k) c))),
      cc_Prune = (\<lambda>c. (butlast c, if c = [] then [] else [fst (snd (last c))])),
      cc_ItemCount = (\<lambda>c. int (length c))\<rparr>"


lemma map_of_filter_key: "map_of (filter (\<lambda>x. fst x \<noteq> k) c) = (map_of c)(k := None)"
  by (induction c) auto

lemma list_ccache_lookups: "cc_lookups_ok list_ccache"
proof -
  have extend: "map_option fst (map_of (map (\<lambda>(k', v, x). (k', v, if k' = k then z else x)) c) k'')
      = map_option fst (map_of c k'')" for k z k'' and c :: "(string \<times> CacheObject \<times> int) list"
    by (induction c) auto
  have lk: "cc_lookup list_ccache c = (\<lambda>k. map_option fst (map_of c k))" for c
    by (rule ext) (simp add: cc_lookup_def list_ccache_def)
  have prune: "map_of (butlast c) k = Some y \<Longrightarrow> map_of c k = Some y"
    for k y and c :: "(string \<times> CacheObject \<times> int) list"
    by (cases c rule: rev_cases) auto
  show ?thesis
    unfolding cc_lookups_ok_def lk
    by (auto simp: list_ccache_def extend map_of_filter_key fun_eq_iff map_le_def dom_def)
      (drule prune, simp)
qed

lemma list_ccache_deletes: "cc_deletes_ok list_ccache (\<lambda>c. mset (map (\<lambda>x. fst (snd x)) c))"
proof -
  have "mset (map (\<lambda>x. fst (snd x)) (filter (\<lambda>x. fst x \<noteq> k) c)) +
        mset (map (\<lambda>x. fst (snd x)) (filter (\<lambda>x. fst x = k) c)) = mset (map (\<lambda>x. fst (snd x)) c)"
    for k and c :: "(string \<times> CacheObject \<times> int) list"
    by (induction c) auto
  moreover have "mset (map (\<lambda>x. fst (snd x)) (map (\<lambda>(k', v, x). (k', v, if k' = k then z else x)) c)) =
       mset (map (\<lambda>x. fst (snd x)) c)" for k z and c :: "(string \<times> CacheObject \<times> int) list"
    by (induction c) auto
  moreover have "c \<noteq> [] \<Longrightarrow> add_mset (fst (snd (last c))) (mset (map (\<lambda>x. fst (snd x)) (butlast c))) =
       mset (map (\<lambda>x. fst (snd x)) c)" for c :: "(string \<times> CacheObject \<times> int) list"
    by (cases c rule: rev_cases) auto
  ultimately show ?thesis
    by (simp add: cc_deletes_ok_def list_ccache_def multiset.map_comp del: mset_map)
qed

section \<open>Properties\<close>

text \<open>C23: whatever puts, lookups, queries and prunings happen, at any times, the size counter of the
  memory provider is the sum of the sizes of the objects in its cache.\<close>

theorem volatile_size_accounting:
  assumes "cc_deletes_ok C objs" and "Volatile_Configure C quantity = Return sp"
  shows "vs_totalSize (fold (\<lambda>(t, op). volatile_step C t op) ops sp) =
         (\<Sum>obj\<in>#objs (vs_cache (fold (\<lambda>(t, op). volatile_step C t op) ops sp)). GetManagedSize obj)"
proof -
  have "size_inv objs sp"
    using assms by (auto simp: Volatile_Configure_def size_inv_def cc_deletes_ok_def split: option.splits)
  then have "size_inv objs (fold (\<lambda>(t, op). volatile_step C t op) ops sp)"
    using volatile_step_size [OF assms(1)] by (induction ops arbitrary: sp) (auto split: prod.splits)
  then show ?thesis by (simp add: size_inv_def)
qed

definition plain_object :: "bytes \<Rightarrow> CacheObject" where
  "plain_object d = \<lparr>co_Data = d, co_Metadata = None\<rparr>"

theorem volatile_size_accounting_witness:
  "\<exists>sp. Volatile_Configure list_ccache (Some 100) = Return sp \<and>
     vs_totalSize (fold (\<lambda>(t, op). volatile_step list_ccache t op)
       [(1, VPut ''ab'' (plain_object ''xyz'')), (2, VPut ''cd'' (plain_object ''uv'')), (3, VPrune)] sp) = 2"
proof -
  let ?C = list_ccache
  obtain sp where sp: "Volatile_Configure ?C (Some 100) = Return sp" by (simp add: Volatile_Configure_def)
  let ?ops = "[(1, VPut ''ab'' (plain_object ''xyz'')), (2, VPut ''cd'' (plain_object ''uv'')), (3, VPrune)]"
  have "(case Volatile_Configure ?C (Some 100) of
       Return sp \<Rightarrow> map (\<lambda>x. GetManagedSize (fst (snd x))) (vs_cache (fold (\<lambda>(t, op). volatile_step ?C t op) ?ops sp)) = [2]
     | _ \<Rightarrow> False)" by code_simp
  then have two: "map (\<lambda>x. GetManagedSize (fst (snd x))) (vs_cache (fold (\<lambda>(t, op). volatile_step ?C t op) ?ops sp)) = [2]"
    using sp by simp
  have "vs_totalSize (fold (\<lambda>(t, op). volatile_step ?C t op) ?ops sp) =
     sum_list (map (\<lambda>x. GetManagedSize (fst (snd x))) (vs_cache (fold (\<lambda>(t, op). volatile_step ?C t op) ?ops sp)))"
    unfolding volatile_size_accounting [OF list_ccache_deletes sp, of ?ops]
    by (simp only: mset_map [symmetric] sum_mset_sum_list map_map comp_def)
  then show ?thesis using sp two by (simp del: fold_simps)
qed

end
