(* ===== verification/S3Storage.thy ===== *)
theory S3Storage
  imports StorageTypes Strconv "HOL-Library.AList"
begin

text \<open>
  \<open>S3StorageProvider\<close> of \<open>src/pkg/storage/s3.go\<close>. The S3 client is the package \<open>minio-go\<close>, which is
  not part of the sources: its calls are the record \<open>minio\<close>, a parameter, over a state of the
  remote store. A call that returns only an error or nothing yields an option. Reading an object
  yields the bytes received and whether the read ended without an error. The two goroutines of
  \<open>Get\<close> have run when the call returns.
\<close>

section \<open>Model\<close>

record object_info =
  oi_Size :: int
  oi_UserMetadata :: "(string \<times> string) list"
  oi_UserTags :: "(string \<times> string) list option"
  oi_Expiration :: int

record 'm minio =
  mi_BucketExists :: "'m \<Rightarrow> bool option"
  mi_MakeBucket :: "'m \<Rightarrow> 'm option"
  mi_GetBucketLifecycle :: "'m \<Rightarrow> int list option"
  mi_SetBucketLifecycle :: "int list \<Rightarrow> 'm \<Rightarrow> 'm option"
  mi_StatObject :: "string \<Rightarrow> 'm \<Rightarrow> object_info option"
  mi_PutObject :: "string \<Rightarrow> bytes \<Rightarrow> (string \<times> string) list \<Rightarrow> (string \<times> string) list option \<Rightarrow> 'm \<Rightarrow> 'm option"
  mi_GetObject :: "string \<Rightarrow> 'm \<Rightarrow> bytes \<times> bool"
  mi_CopyObject :: "string \<Rightarrow> (string \<times> string) list \<Rightarrow> 'm \<Rightarrow> 'm"
  mi_ListObjects :: "'m \<Rightarrow> int list"

record 'm S3StorageProvider =
  s3_client :: "'m option"
  s3_bucket :: string
  s3_ExpirationDays :: int
  s3_cacheHitsTotal :: int
  s3_cacheMissesTotal :: int

definition NewS3StorageProvider :: "string \<Rightarrow> int \<Rightarrow> 'm S3StorageProvider" where
  "NewS3StorageProvider bucket days =
     \<lparr>s3_client = None, s3_bucket = (if bucket = '''' then ''kubecc'' else bucket),
      s3_ExpirationDays = days, s3_cacheHitsTotal = 0, s3_cacheMissesTotal = 0\<rparr>"

definition S3_Location :: StorageLocation where
  "S3_Location = S3"

definition S3StorageError :: go_error where
  "S3StorageError = Error ''S3 Storage Error''"

definition createBucketIfNotExists :: "'m minio \<Rightarrow> int \<Rightarrow> 'm \<Rightarrow> unit outcome \<times> 'm" where
  "createBucketIfNotExists M days m =
     (case mi_BucketExists M m of
        None \<Rightarrow> (Fail S3StorageError, m)
      | Some True \<Rightarrow> (Return (), m)
      | Some False \<Rightarrow>
          (case mi_MakeBucket M m of
             None \<Rightarrow> (Fail S3StorageError, m)
           | Some m1 \<Rightarrow>
               (case mi_GetBucketLifecycle M m1 of
                  None \<Rightarrow> (Fail (Error ''GetBucketLifecycle''), m1)
                | Some rules \<Rightarrow>
                    (case mi_SetBucketLifecycle M (rules @ [days]) m1 of
                       None \<Rightarrow> (Fail S3StorageError, m1)
                     | Some m2 \<Rightarrow> (Return (), m2)))))"

text \<open>The goroutine of \<open>Configure\<close> retries until the bucket is set up; \<open>n\<close> bounds the attempts.\<close>

fun S3_configure_loop :: "nat \<Rightarrow> 'm minio \<Rightarrow> int \<Rightarrow> 'm \<Rightarrow> 'm option" where
  "S3_configure_loop 0 M days m = None"
| "S3_configure_loop (Suc n) M days m =
     (case createBucketIfNotExists M days m of
        (Return _, m1) \<Rightarrow> Some m1
      | (_, m1) \<Rightarrow> S3_configure_loop n M days m1)"

definition S3_Put ::
    "'m minio \<Rightarrow> int \<Rightarrow> string \<Rightarrow> CacheObject \<Rightarrow> 'm S3StorageProvider \<Rightarrow>
     unit outcome \<times> CacheObject \<times> 'm S3StorageProvider" where
  "S3_Put M t key obj sp =
     (let m = (case co_Metadata obj of None \<Rightarrow> empty_meta | Some m \<Rightarrow> m);
          obj' = obj\<lparr>co_Metadata := Some m\<rparr>
      in case s3_client sp of
           None \<Rightarrow> (Panic, obj', sp)
         | Some client \<Rightarrow>
             (case mi_PutObject M key (co_Data obj)
                     [(''timestamp'', FormatInt t), (''score'', ''1'')] (cm_Tags m) client of
                None \<Rightarrow> (Fail (Status Internal ''PutObject''), obj', sp)
              | Some client' \<Rightarrow> (Return (), obj', sp\<lparr>s3_client := Some client'\<rparr>)))"

definition next_score :: "(string \<times> string) list \<Rightarrow> int" where
  "next_score metadata =
     int64 ((case map_of metadata ''score'' of
               None \<Rightarrow> 1
             | Some v \<Rightarrow> (case ParseInt v of None \<Rightarrow> 1 | Some s \<Rightarrow> s)) + 1)"

text \<open>\<open>canceled\<close> is the error of the caller's context when it is done before the read.\<close>

definition S3_Get ::
    "'m minio \<Rightarrow> int \<Rightarrow> go_error option \<Rightarrow> string \<Rightarrow> 'm S3StorageProvider \<Rightarrow>
     CacheObject outcome \<times> 'm S3StorageProvider" where
  "S3_Get M t canceled hash sp =
     (case s3_client sp of
        None \<Rightarrow> (Panic, sp)
      | Some client \<Rightarrow>
          (case mi_StatObject M hash client of
             None \<Rightarrow> (Fail (Status NotFound ''Object not found''),
                      sp\<lparr>s3_cacheMissesTotal := s3_cacheMissesTotal sp + 1\<rparr>)
           | Some info \<Rightarrow>
               let score = next_score (oi_UserMetadata info);
                   metadata = AList.update ''score'' (FormatInt score) (oi_UserMetadata info);
                   sp' = sp\<lparr>s3_client := Some (mi_CopyObject M hash metadata client),
                            s3_cacheHitsTotal := s3_cacheHitsTotal sp + 1\<rparr>
               in case canceled of
                    Some err \<Rightarrow> (Fail err, sp')
                  | None \<Rightarrow>
                      (Return \<lparr>co_Data = fst (mi_GetObject M hash client),
                               co_Metadata = Some
                                 \<lparr>cm_Tags = oi_UserTags info, cm_ExpirationDate = oi_Expiration info,
                                  cm_ManagedFields = Some
                                    \<lparr>mf_Size = oi_Size info, mf_Timestamp = t, mf_Score = score,
                                     mf_Location = S3\<rparr>\<rparr>\<rparr>, sp')))"

definition s3_query_key :: "'m minio \<Rightarrow> 'm \<Rightarrow> string \<Rightarrow> CacheObjectMeta option" where
  "s3_query_key M client key =
     (case mi_StatObject M key client of
        None \<Rightarrow> None
      | Some info \<Rightarrow>
          let field = (\<lambda>f. case map_of (oi_UserMetadata info) f of None \<Rightarrow> '''' | Some v \<Rightarrow> v)
          in case ParseInt (field ''timestamp'') of
               None \<Rightarrow> None
             | Some timestamp \<Rightarrow>
                 (case ParseInt (field ''score'') of
                    None \<Rightarrow> None
                  | Some score \<Rightarrow>
                      Some \<lparr>cm_Tags = oi_UserTags info, cm_ExpirationDate = oi_Expiration info,
                            cm_ManagedFields = Some
                              \<lparr>mf_Size = oi_Size info, mf_Timestamp = timestamp, mf_Score = score,
                               mf_Location = S3\<rparr>\<rparr>))"

definition S3_Query ::
    "'m minio \<Rightarrow> go_error option \<Rightarrow> string list \<Rightarrow> 'm S3StorageProvider \<Rightarrow>
     CacheObjectMeta option list outcome" where
  "S3_Query M canceled keys sp =
     (if keys = [] then Return []
      else case canceled of
             Some err \<Rightarrow> Fail err
           | None \<Rightarrow>
               (case s3_client sp of
                  None \<Rightarrow> Panic
                | Some client \<Rightarrow> Return (map (s3_query_key M client) keys)))"

definition S3_UsageInfo :: "'m minio \<Rightarrow> 'm S3StorageProvider \<Rightarrow> CacheUsage" where
  "S3_UsageInfo M sp =
     (case s3_client sp of
        None \<Rightarrow> \<lparr>cu_ObjectCount = 0, cu_TotalSize = 0, cu_UsagePercent = Fin 0\<rparr>
      | Some client \<Rightarrow>
          \<lparr>cu_ObjectCount = int (length (mi_ListObjects M client)),
           cu_TotalSize = sum_list (mi_ListObjects M client), cu_UsagePercent = Fin 0\<rparr>)"

definition S3_CacheHits :: "'m S3StorageProvider \<Rightarrow> CacheHitsMetric" where
  "S3_CacheHits sp =
     (let hitTotal = s3_cacheHitsTotal sp; missTotal = s3_cacheMissesTotal sp
      in \<lparr>ch_CacheHitsTotal = hitTotal, ch_CacheMissesTotal = missTotal,
          ch_CacheHitPercent =
            (if hitTotal + missTotal = 0 then Fin 0 else fdiv hitTotal (hitTotal + missTotal))\<rparr>)"

section \<open>What the provider relies on\<close>

text \<open>\<open>blob m k\<close> is the data the store keeps under a key. A stored object can be looked up, with the
  tags it was stored with; copying an object onto itself leaves the data alone.\<close>

definition minio_ok :: "'m minio \<Rightarrow> ('m \<Rightarrow> string \<Rightarrow> bytes option) \<Rightarrow> bool" where
  "minio_ok M blob \<longleftrightarrow>
     (\<forall>k m. mi_StatObject M k m = None \<longleftrightarrow> blob m k = None) \<and>
     (\<forall>k d md tags m m'. mi_PutObject M k d md tags m = Some m' \<longrightarrow>
        blob m' = (blob m)(k \<mapsto> d) \<and>
        (\<exists>info. mi_StatObject M k m' = Some info \<and> oi_UserTags info = tags \<and>
                oi_Size info = int (length d))) \<and>
     (\<forall>k md m. blob (mi_CopyObject M k md m) = blob m)"

text \<open>Every read of an object that exists ends without an error.\<close>

definition reads_complete :: "'m minio \<Rightarrow> ('m \<Rightarrow> string \<Rightarrow> bytes option) \<Rightarrow> bool" where
  "reads_complete M blob \<longleftrightarrow> (\<forall>k m d. blob m k = Some d \<longrightarrow> mi_GetObject M k m = (d, True))"

section \<open>The provider contract\<close>

definition s3_holds :: "('m \<Rightarrow> string \<Rightarrow> bytes option) \<Rightarrow> 'm S3StorageProvider \<Rightarrow> string \<Rightarrow> bytes \<Rightarrow> bool" where
  "s3_holds blob sp k d \<longleftrightarrow> (case s3_client sp of None \<Rightarrow> False | Some m \<Rightarrow> blob m k = Some d)"

lemma S3_Put_holds:
  assumes "minio_ok M blob" and "S3_Put M t k obj sp = (r, obj', sp')"
  shows "co_Data obj' = co_Data obj"
    and "s3_holds blob sp' k' d \<Longrightarrow> s3_holds blob sp k' d \<or> k' = k \<and> d = co_Data obj"
    and "is_return r \<Longrightarrow> s3_holds blob sp' k (co_Data obj)"
proof -
  note put = assms(2) [unfolded S3_Put_def Let_def]
  have blob: "mi_PutObject M k d md tags m = Some m' \<Longrightarrow> blob m' = (blob m)(k \<mapsto> d)" for k d md tags m m'
    using assms(1) by (simp add: minio_ok_def)
  show "co_Data obj' = co_Data obj" using put by (auto split: option.splits)
  show "s3_holds blob sp' k' d \<Longrightarrow> s3_holds blob sp k' d \<or> k' = k \<and> d = co_Data obj"
    using put by (auto simp: s3_holds_def split: option.splits if_splits dest!: blob)
  show "is_return r \<Longrightarrow> s3_holds blob sp' k (co_Data obj)"
    using put by (auto simp: s3_holds_def split: option.splits dest!: blob)
qed

lemma S3_Get_holds:
  assumes "minio_ok M blob" and "S3_Get M t canceled k sp = (q, sp')"
  shows "s3_holds blob sp' = s3_holds blob sp"
    and "reads_complete M blob \<Longrightarrow> q = Return obj \<Longrightarrow> s3_holds blob sp k (co_Data obj)"
proof -
  note get = assms(2) [unfolded S3_Get_def Let_def]
  have blob: "blob (mi_CopyObject M k md m) = blob m" for k md m
    using assms(1) by (simp add: minio_ok_def)
  show "s3_holds blob sp' = s3_holds blob sp"
    using get by (intro ext) (auto simp: s3_holds_def blob split: option.splits)
  assume rc: "reads_complete M blob" and q: "q = Return obj"
  from get q obtain m info where m: "s3_client sp = Some m" "mi_StatObject M k m = Some info"
    and obj: "co_Data obj = fst (mi_GetObject M k m)" by (auto split: option.splits)
  have "mi_StatObject M k m = None \<longleftrightarrow> blob m k = None" using assms(1) by (simp add: minio_ok_def)
  with m(2) obtain d where "blob m k = Some d" by auto
  with rc obj m(1) show "s3_holds blob sp k (co_Data obj)" by (simp add: reads_complete_def s3_holds_def)
qed

interpretation s3: durable_provider "\<lambda>e. S3_Put M (fst e)" "\<lambda>e. S3_Get M (fst e) (snd e)"
  "s3_holds blob" "\<lambda>sp. minio_ok M blob \<and> reads_complete M blob" "\<lambda>k. True" for M blob
proof (unfold_locales, goal_cases)
  case 3
  then show ?case by (auto simp: S3_Put_def Let_def split: option.splits)
next
  case (4 sp k k' e obj r obj' sp' d)
  then show ?case using S3_Put_holds(2) by metis
next
  case (5 sp k k' e q sp' d)
  then show ?case using S3_Get_holds(1) by metis
next
  case (6 sp k e obj sp')
  then show ?case using S3_Get_holds(2) by blast
next
  case (7 sp k e obj u obj' sp')
  then show ?case using S3_Put_holds(3) by (metis is_return.simps(1))
qed auto

section \<open>Properties\<close>

text \<open>With a store that reads back completely, what \<open>Put\<close> stored is what \<open>Get\<close> returns: the
  data, its length as the size, and the tags.\<close>

theorem s3_put_get:
  assumes "minio_ok M blob" and "reads_complete M blob" and "S3_Put M t k obj sp = (Return (), obj', sp')"
  shows "\<exists>got sp'' m. S3_Get M t' None k sp' = (Return got, sp'') \<and> co_Data got = co_Data obj \<and>
           co_Metadata got = Some m \<and> cm_Tags m = Option.bind (co_Metadata obj) cm_Tags \<and>
           map_option mf_Size (cm_ManagedFields m) = Some (int (length (co_Data obj)))"
proof -
  let ?tags = "Option.bind (co_Metadata obj) cm_Tags"
  obtain c c' md where c': "s3_client sp' = Some c'" "mi_PutObject M k (co_Data obj) md ?tags c = Some c'"
    using assms(3) by (auto simp: S3_Put_def Let_def empty_meta_def split: option.splits)
  with assms(1) obtain info where info: "mi_StatObject M k c' = Some info" "oi_UserTags info = ?tags"
    "oi_Size info = int (length (co_Data obj))" "blob c' k = Some (co_Data obj)"
    unfolding minio_ok_def by (metis fun_upd_same)
  with assms(2) c' show ?thesis by (simp add: S3_Get_def Let_def reads_complete_def)
qed

text \<open>A store kept in a list of objects, for the instances below. Reads of more than \<open>n\<close> bytes are
  cut off.\<close>

type_synonym mem_store = "(string \<times> bytes \<times> object_info) list"

definition mem_minio :: "nat \<Rightarrow> (mem_store \<times> int list option) minio" where
  "mem_minio n =
     \<lparr>mi_BucketExists = (\<lambda>m. Some (snd m \<noteq> None)), mi_MakeBucket = (\<lambda>m. Some (fst m, Some [])),
      mi_GetBucketLifecycle = (\<lambda>m. if snd m = Some [] then None else snd m),
      mi_SetBucketLifecycle = (\<lambda>rules m. Some (fst m, Some rules)),
      mi_StatObject = (\<lambda>k m. map_option snd (map_of (fst m) k)),
      mi_PutObject = (\<lambda>k d md tags m. Some ((k, d,
         \<lparr>oi_Size = int (length d), oi_UserMetadata = md, oi_UserTags = tags, oi_Expiration = 0\<rparr>) # fst m, snd m)),
      mi_GetObject = (\<lambda>k m. case map_of (fst m) k of None \<Rightarrow> ([], False)
         | Some (d, info) \<Rightarrow> if n = 0 then (d, True) else (take n d, length d \<le> n)),
      mi_CopyObject = (\<lambda>k md m. (map (\<lambda>(k', d, info).
         (k', d, if k' = k then info\<lparr>oi_UserMetadata := md\<rparr> else info)) (fst m), snd m)),
      mi_ListObjects = (\<lambda>m. map (\<lambda>x. oi_Size (snd (snd x))) (fst m))\<rparr>"

definition mem_blob :: "(mem_store \<times> int list option) \<Rightarrow> string \<Rightarrow> bytes option" where
  "mem_blob m k = map_option fst (map_of (fst m) k)"

lemma mem_minio_ok: "minio_ok (mem_minio n) mem_blob"
proof -
  have "map_option fst (map_of (map (\<lambda>(k', d, info). (k', d, if k' = k then f info else info)) c) x) =
        map_option fst (map_of c x)" for k x f and c :: mem_store
    by (induction c) auto
  then show ?thesis by (auto simp: minio_ok_def mem_minio_def mem_blob_def fun_eq_iff)
qed

lemma mem_minio_reads: "reads_complete (mem_minio 0) mem_blob"
  by (auto simp: reads_complete_def mem_minio_def mem_blob_def)

definition s3_configured :: "(mem_store \<times> int list option) S3StorageProvider" where
  "s3_configured = (NewS3StorageProvider '''' 7)\<lparr>s3_client := Some ([], Some [7])\<rparr>"

definition tagged_object :: CacheObject where
  "tagged_object = \<lparr>co_Data = ''objdata'', co_Metadata = Some (empty_meta\<lparr>cm_Tags := Some [(''Compiler'', ''gcc'')]\<rparr>)\<rparr>"

theorem s3_put_get_witness:
  "\<exists>obj' sp' got sp'' m. S3_Put (mem_minio 0) 5 ''abcd'' tagged_object s3_configured = (Return (), obj', sp') \<and>
     S3_Get (mem_minio 0) 9 None ''abcd'' sp' = (Return got, sp'') \<and> co_Data got = ''objdata'' \<and>
     co_Metadata got = Some m \<and> cm_Tags m = Some [(''Compiler'', ''gcc'')]"
proof -
  have "fst (S3_Put (mem_minio 0) 5 ''abcd'' tagged_object s3_configured) = Return ()"
    by (simp add: S3_Put_def s3_configured_def mem_minio_def tagged_object_def)
  then obtain obj' sp' where put: "S3_Put (mem_minio 0) 5 ''abcd'' tagged_object s3_configured = (Return (), obj', sp')"
    by (metis prod.collapse)
  from s3_put_get [OF mem_minio_ok mem_minio_reads put, of 9] put show ?thesis
    by (force simp: tagged_object_def)
qed

text \<open>An error of the read is dropped. \<open>Get\<close> receives the error of the reading goroutine and
  ignores it, so when the read breaks off it returns success with the bytes received so far.\<close>

theorem s3_get_ignores_read_error:
  assumes "s3_client sp = Some m" and "mi_StatObject M k m \<noteq> None" and "mi_GetObject M k m = (partial, False)"
  shows "map_option co_Data (case fst (S3_Get M t None k sp) of Return obj \<Rightarrow> Some obj | _ \<Rightarrow> None) = Some partial"
  using assms by (auto simp: S3_Get_def Let_def)

definition s3_stored :: "(mem_store \<times> int list option) S3StorageProvider" where
  "s3_stored = snd (snd (S3_Put (mem_minio 3) 5 ''abcd'' tagged_object s3_configured))"

theorem s3_get_ignores_read_error_witness:
  "\<exists>m. s3_client s3_stored = Some m \<and> mi_StatObject (mem_minio 3) ''abcd'' m \<noteq> None \<and>
     mi_GetObject (mem_minio 3) ''abcd'' m = (''obj'', False) \<and>
     map_option co_Data (case fst (S3_Get (mem_minio 3) 9 None ''abcd'' s3_stored) of
       Return obj \<Rightarrow> Some obj | _ \<Rightarrow> None) = Some ''obj''"
proof -
  obtain m where m: "s3_client s3_stored = Some m" "mi_StatObject (mem_minio 3) ''abcd'' m \<noteq> None"
    "mi_GetObject (mem_minio 3) ''abcd'' m = (''obj'', False)"
    by (simp add: s3_stored_def S3_Put_def s3_configured_def mem_minio_def tagged_object_def)
  with s3_get_ignores_read_error [OF m, of 9] show ?thesis by blast
qed

text \<open>When the lifecycle of a bucket that was just created cannot be read, the expiration rule
  is never set: the first attempt fails, the retry finds the bucket and succeeds, and the store is
  as the creation left it.\<close>

theorem s3_lifecycle_lost:
  assumes "mi_BucketExists M m = Some False" and "mi_MakeBucket M m = Some m1"
    and "mi_GetBucketLifecycle M m1 = None" and "mi_BucketExists M m1 = Some True"
  shows "S3_configure_loop (Suc (Suc n)) M days m = Some m1"
  using assms by (simp add: createBucketIfNotExists_def)

theorem s3_lifecycle_lost_witness:
  "S3_configure_loop 2 (mem_minio 0) 7 ([], None) = Some ([], Some [])"
  using s3_lifecycle_lost [of "mem_minio 0" "([], None)" "([], Some [])" 0 7]
  by (simp add: mem_minio_def numeral_2_eq_2)

end
