(* ===== verification/ChainStorage.thy ===== *)
theory ChainStorage
  imports LocalStorage VolatileStorage S3Storage
begin

text \<open>
  \<open>ChainStorageProvider\<close> of \<open>src/pkg/storage/chain.go\<close>, over any provider interface: the calls of
  the interface are arguments of its operations, the providers a list from fastest to slowest. The
  goroutine with which \<open>Get\<close> copies an object to the faster providers is an operation of its own,
  which runs at any later time. \<open>provider\<close> is the dynamic dispatch to the three providers of this
  package. A provider that keeps a reference to the object it was given keeps the value it had at
  that time.
\<close>

section \<open>Model\<close>

fun Chain_Configure :: "('s \<Rightarrow> unit outcome \<times> 's) \<Rightarrow> 's list \<Rightarrow> unit outcome \<times> 's list" where
  "Chain_Configure configure [] = (Return (), [])"
| "Chain_Configure configure (p # ps) =
     (case configure p of
        (Return _, p') \<Rightarrow> (let (r, ps') = Chain_Configure configure ps in (r, p' # ps'))
      | (err, p') \<Rightarrow> (err, p' # ps))"

definition Chain_Location :: StorageLocation where
  "Chain_Location = Memory"

fun Chain_Put ::
    "('e \<Rightarrow> string \<Rightarrow> CacheObject \<Rightarrow> 's \<Rightarrow> unit outcome \<times> CacheObject \<times> 's) \<Rightarrow>
     'e \<Rightarrow> string \<Rightarrow> CacheObject \<Rightarrow> 's list \<Rightarrow> unit outcome \<times> CacheObject \<times> 's list" where
  "Chain_Put put e key obj [] = (Return (), obj, [])"
| "Chain_Put put e key obj (p # ps) =
     (case put e key obj p of
        (Return _, obj', p') \<Rightarrow>
          (let (r, obj'', ps') = Chain_Put put e key obj' ps in (r, obj'', p' # ps'))
      | (err, obj', p') \<Rightarrow> (err, obj', p' # ps))"

text \<open>The first loop of \<open>Get\<close>: the result is the error of the last provider, or the object and the
  number of providers that missed it. Without any provider it is no object and no error.\<close>

fun chain_find ::
    "('e \<Rightarrow> string \<Rightarrow> 's \<Rightarrow> CacheObject outcome \<times> 's) \<Rightarrow> 'e \<Rightarrow> string \<Rightarrow> nat \<Rightarrow> 's list \<Rightarrow>
     (CacheObject option \<times> nat) outcome \<times> 's list" where
  "chain_find get e key i [] = (Return (None, i), [])"
| "chain_find get e key i (p # ps) =
     (case get e key p of
        (Return obj, p') \<Rightarrow> (Return (Some obj, i), p' # ps)
      | (Panic, p') \<Rightarrow> (Panic, p' # ps)
      | (Fail err, p') \<Rightarrow>
          if ps = [] then (Fail err, [p'])
          else (let (r, ps') = chain_find get e key (Suc i) ps in (r, p' # ps')))"

text \<open>A pending write-back: the index of the provider that had the object, the key and a clone of
  the object.\<close>

record write_back =
  wb_index :: nat
  wb_key :: string
  wb_object :: CacheObject

definition Chain_Get ::
    "('e \<Rightarrow> string \<Rightarrow> 's \<Rightarrow> CacheObject outcome \<times> 's) \<Rightarrow> 'e \<Rightarrow> string \<Rightarrow> 's list \<Rightarrow>
     CacheObject option outcome \<times> write_back list \<times> 's list" where
  "Chain_Get get e key ps =
     (case chain_find get e key 0 ps of
        (Return (Some obj, i), ps') \<Rightarrow>
          (Return (Some obj), [\<lparr>wb_index = i, wb_key = key, wb_object = obj\<rparr>], ps')
      | (Return (None, i), ps') \<Rightarrow> (Return None, [], ps')
      | (Fail err, ps') \<Rightarrow> (Fail err, [], ps')
      | (Panic, ps') \<Rightarrow> (Panic, [], ps'))"

fun run_write_back ::
    "('e \<Rightarrow> string \<Rightarrow> CacheObject \<Rightarrow> 's \<Rightarrow> unit outcome \<times> CacheObject \<times> 's) \<Rightarrow>
     'e \<Rightarrow> string \<Rightarrow> CacheObject \<Rightarrow> nat \<Rightarrow> 's list \<Rightarrow> unit outcome \<times> 's list" where
  "run_write_back put e key obj 0 ps = (Return (), ps)"
| "run_write_back put e key obj (Suc i) ps =
     (if i < length ps then
        (case put e key obj (ps ! i) of
           (Return _, obj', p') \<Rightarrow> run_write_back put e key obj' i (ps[i := p'])
         | (Fail _, obj', p') \<Rightarrow> (Return (), ps[i := p'])
         | (Panic, obj', p') \<Rightarrow> (Panic, ps[i := p']))
      else (Panic, ps))"

text \<open>\<open>Query\<close>: the goroutine for key \<open>i\<close> asks provider \<open>i\<close>, once for each provider, until it has a
  result, and takes the first element of the answer.\<close>

fun chain_query_loop ::
    "(string list \<Rightarrow> 's \<Rightarrow> CacheObjectMeta option list) \<Rightarrow> string list \<Rightarrow> 's list \<Rightarrow> nat \<Rightarrow> nat \<Rightarrow>
     CacheObjectMeta option outcome" where
  "chain_query_loop query keys ps i 0 = Return None"
| "chain_query_loop query keys ps i (Suc n) =
     (if i < length ps then
        (case query keys (ps ! i) of
           [] \<Rightarrow> Panic
         | r # _ \<Rightarrow> if r = None then chain_query_loop query keys ps i n else Return r)
      else Panic)"

definition Chain_Query ::
    "(string list \<Rightarrow> 's \<Rightarrow> CacheObjectMeta option list) \<Rightarrow> string list \<Rightarrow> 's list \<Rightarrow>
     CacheObjectMeta option outcome list" where
  "Chain_Query query keys ps =
     map (\<lambda>i. chain_query_loop query keys ps i (length ps)) [0..<length keys]"

definition Chain_UsageInfo :: "('s \<Rightarrow> CacheUsage) \<Rightarrow> 's list \<Rightarrow> CacheUsage" where
  "Chain_UsageInfo usageInfo ps =
     (case ps of [] \<Rightarrow> \<lparr>cu_ObjectCount = 0, cu_TotalSize = 0, cu_UsagePercent = Fin 0\<rparr>
      | p # _ \<Rightarrow> usageInfo p)"

definition Chain_CacheHits :: "('s \<Rightarrow> CacheHitsMetric option) \<Rightarrow> 's list \<Rightarrow> CacheHitsMetric option" where
  "Chain_CacheHits cacheHits ps =
     (case ps of [] \<Rightarrow> Some \<lparr>ch_CacheHitsTotal = 0, ch_CacheMissesTotal = 0, ch_CacheHitPercent = Fin 0\<rparr>
      | p # _ \<Rightarrow> cacheHits p)"

text \<open>The providers behind the interface and the calls through it. The third-party parts are those
  of the three providers.\<close>

datatype ('c, 'm) provider =
    P_Volatile "'c VolatileStorageProvider" | P_Local LocalStorageProvider | P_S3 "'m S3StorageProvider"

record storage_env =
  se_disk :: disk_env
  se_canceled :: "go_error option"

fun provider_Put ::
    "('c, 'i) ccache \<Rightarrow> codec \<Rightarrow> 'm minio \<Rightarrow> storage_env \<Rightarrow> string \<Rightarrow> CacheObject \<Rightarrow> ('c, 'm) provider \<Rightarrow>
     unit outcome \<times> CacheObject \<times> ('c, 'm) provider" where
  "provider_Put C cod M e k obj (P_Volatile v) =
     (let (r, obj', v') = Volatile_Put C (de_now (se_disk e)) k obj v in (r, obj', P_Volatile v'))"
| "provider_Put C cod M e k obj (P_Local l) =
     (let (r, obj', l') = Local_Put cod (se_disk e) k obj l in (r, obj', P_Local l'))"
| "provider_Put C cod M e k obj (P_S3 s) =
     (let (r, obj', s') = S3_Put M (de_now (se_disk e)) k obj s in (r, obj', P_S3 s'))"

fun provider_Get ::
    "('c, 'i) ccache \<Rightarrow> codec \<Rightarrow> 'm minio \<Rightarrow> storage_env \<Rightarrow> string \<Rightarrow> ('c, 'm) provider \<Rightarrow>
     CacheObject outcome \<times> ('c, 'm) provider" where
  "provider_Get C cod M e k (P_Volatile v) =
     (let (q, v') = Volatile_Get C (de_now (se_disk e)) k v in (q, P_Volatile v'))"
| "provider_Get C cod M e k (P_Local l) =
     (let (q, l') = Local_Get cod (se_disk e) k l in (q, P_Local l'))"
| "provider_Get C cod M e k (P_S3 s) =
     (let (q, s') = S3_Get M (de_now (se_disk e)) (se_canceled e) k s in (q, P_S3 s'))"

text \<open>A run of a chain: puts, lookups and the write-backs of earlier lookups, in any order. The
  output lists the keys and the data the lookups returned.\<close>

datatype chain_op = C_Put string CacheObject | C_Get string | C_WriteBack nat

definition chain_step ::
    "('e \<Rightarrow> string \<Rightarrow> CacheObject \<Rightarrow> 's \<Rightarrow> unit outcome \<times> CacheObject \<times> 's) \<Rightarrow>
     ('e \<Rightarrow> string \<Rightarrow> 's \<Rightarrow> CacheObject outcome \<times> 's) \<Rightarrow> 'e \<Rightarrow> chain_op \<Rightarrow>
     write_back list \<times> 's list \<Rightarrow> (string \<times> bytes) list \<times> write_back list \<times> 's list" where
  "chain_step put get e op st =
     (case op of
        C_Put k obj \<Rightarrow> ([], fst st, snd (snd (Chain_Put put e k obj (snd st))))
      | C_Get k \<Rightarrow>
          (case Chain_Get get e k (snd st) of
             (Return (Some obj), wb, ps) \<Rightarrow> ([(k, co_Data obj)], fst st @ wb, ps)
           | (_, wb, ps) \<Rightarrow> ([], fst st @ wb, ps))
      | C_WriteBack j \<Rightarrow>
          if j < length (fst st)
          then let w = fst st ! j
               in ([], fst st, snd (run_write_back put e (wb_key w) (wb_object w) (wb_index w) (snd st)))
          else ([], st))"

fun chain_run ::
    "('e \<Rightarrow> string \<Rightarrow> CacheObject \<Rightarrow> 's \<Rightarrow> unit outcome \<times> CacheObject \<times> 's) \<Rightarrow>
     ('e \<Rightarrow> string \<Rightarrow> 's \<Rightarrow> CacheObject outcome \<times> 's) \<Rightarrow> ('e \<times> chain_op) list \<Rightarrow>
     write_back list \<times> 's list \<Rightarrow> (string \<times> bytes) list" where
  "chain_run put get [] st = []"
| "chain_run put get ((e, op) # ops) st =
     (let (out, st') = chain_step put get e op st in out @ chain_run put get ops st')"

section \<open>Chains over any provider\<close>

fun op_key_ok :: "(string \<Rightarrow> bool) \<Rightarrow> chain_op \<Rightarrow> bool" where
  "op_key_ok ok (C_Put k obj) = ok k"
| "op_key_ok ok (C_Get k) = ok k"
| "op_key_ok ok (C_WriteBack j) = True"

text \<open>What an operation adds to the record of what was put.\<close>

fun op_adds :: "chain_op \<Rightarrow> (string \<Rightarrow> bytes set) \<Rightarrow> (string \<Rightarrow> bytes set)" where
  "op_adds (C_Put k obj) T = T(k := insert (co_Data obj) (T k))"
| "op_adds (C_Get k) T = T"
| "op_adds (C_WriteBack j) T = T"

lemma op_adds_mono: "T k \<subseteq> op_adds op T k"
  by (cases op) auto

context storage_provider
begin

lemma chain_put_consistent:
  "list_all (consistent T) ps \<Longrightarrow> key_ok k \<Longrightarrow> co_Data obj \<in> T k \<Longrightarrow>
   Chain_Put put e k obj ps = (r, obj', ps') \<Longrightarrow> list_all (consistent T) ps'"
proof (induction ps arbitrary: obj r obj' ps')
  case (Cons p ps)
  obtain r1 obj1 p1 where put: "put e k obj p = (r1, obj1, p1)" by (metis prod_cases3)
  have "consistent T p1" using put_known put Cons.prems by auto
  with put put_data [OF put] Cons show ?case
    by (auto split: outcome.splits prod.splits) metis
qed simp

lemma chain_find_consistent:
  "list_all (consistent T) ps \<Longrightarrow> key_ok k \<Longrightarrow> chain_find get e k i ps = (q, ps') \<Longrightarrow>
   list_all (consistent T) ps' \<and> (\<forall>obj j. q = Return (Some obj, j) \<longrightarrow> co_Data obj \<in> T k)"
proof (induction ps arbitrary: i q ps')
  case (Cons p ps)
  obtain q1 p1 where get: "get e k p = (q1, p1)" by force
  have p1: "consistent T p1" "\<And>obj. q1 = Return obj \<Longrightarrow> co_Data obj \<in> T k"
    using get_consistent get_member get Cons.prems by auto
  obtain q2 ps2 where rest: "chain_find get e k (Suc i) ps = (q2, ps2)" by force
  show ?case
    using Cons.prems get p1 rest Cons.IH [OF _ _ rest] by (auto split: outcome.splits if_splits)
qed auto

lemma chain_write_back_consistent:
  "list_all (consistent T) ps \<Longrightarrow> key_ok k \<Longrightarrow> co_Data obj \<in> T k \<Longrightarrow>
   list_all (consistent T) (snd (run_write_back put e k obj i ps))"
proof (induction i arbitrary: obj ps)
  case (Suc i)
  show ?case
  proof (cases "i < length ps")
    case True
    obtain r1 obj1 p1 where put: "put e k obj (ps ! i) = (r1, obj1, p1)" by (metis prod_cases3)
    have "consistent T (ps ! i)" using Suc.prems True by (auto simp: list_all_length)
    then have "consistent T p1" using put_known put Suc.prems by blast
    then have "list_all (consistent T) (ps[i := p1])"
      using Suc.prems(1) by (auto simp: list_all_iff dest!: set_update_subset_insert [THEN subsetD])
    then show ?thesis
      using put put_data [OF put] Suc True by (auto split: outcome.splits)
  qed (use Suc in simp)
qed simp

definition chain_consistent :: "(string \<Rightarrow> bytes set) \<Rightarrow> write_back list \<times> 's list \<Rightarrow> bool" where
  "chain_consistent T st \<longleftrightarrow>
     list_all (consistent T) (snd st) \<and>
     list_all (\<lambda>w. key_ok (wb_key w) \<and> co_Data (wb_object w) \<in> T (wb_key w)) (fst st)"

lemma chain_consistent_mono:
  "chain_consistent T st \<Longrightarrow> (\<And>k. T k \<subseteq> U k) \<Longrightarrow> chain_consistent U st"
  by (auto simp: chain_consistent_def list_all_iff intro: consistent_mono)

lemma chain_step_consistent:
  assumes "chain_consistent T st" and "op_key_ok key_ok op" and "chain_step put get e op st = (out, st')"
  shows "chain_consistent (op_adds op T) st'" and "\<forall>(k, d)\<in>set out. d \<in> T k"
proof -
  have "chain_consistent (op_adds op T) st' \<and> (\<forall>(k, d)\<in>set out. d \<in> T k)"
  proof (cases op)
    case (C_Put k obj)
    have "chain_consistent (op_adds op T) st"
      using assms(1) by (rule chain_consistent_mono) (rule op_adds_mono)
    moreover obtain r obj' ps' where p: "Chain_Put put e k obj (snd st) = (r, obj', ps')"
      by (metis prod_cases3)
    moreover have "list_all (consistent (op_adds op T)) ps'"
      using chain_put_consistent [OF _ _ _ p, of "op_adds op T"] calculation(1) C_Put assms(2)
      by (simp add: chain_consistent_def)
    moreover have "out = [] \<and> st' = (fst st, ps')" using p C_Put assms(3) by (auto simp: chain_step_def)
    ultimately show ?thesis by (simp add: chain_consistent_def)
  next
    case (C_Get k)
    obtain q ps where f: "chain_find get e k 0 (snd st) = (q, ps)" by force
    have "list_all (consistent T) ps \<and> (\<forall>obj j. q = Return (Some obj, j) \<longrightarrow> co_Data obj \<in> T k)"
      using chain_find_consistent [OF _ _ f] assms(1,2) C_Get by (simp add: chain_consistent_def)
    with C_Get f assms show ?thesis
      by (auto simp: chain_step_def Chain_Get_def chain_consistent_def split: outcome.splits option.splits)
  next
    case (C_WriteBack j)
    then show ?thesis
    proof (cases "j < length (fst st)")
      case True
      then have "key_ok (wb_key (fst st ! j)) \<and> co_Data (wb_object (fst st ! j)) \<in> T (wb_key (fst st ! j))"
        using assms(1) by (auto simp: chain_consistent_def list_all_length)
      then show ?thesis
        using chain_write_back_consistent assms True C_WriteBack
        by (auto simp: chain_step_def chain_consistent_def Let_def)
    qed (use assms in \<open>auto simp: chain_step_def\<close>)
  qed
  then show "chain_consistent (op_adds op T) st'" and "\<forall>(k, d)\<in>set out. d \<in> T k" by auto
qed

lemma chain_run_sound:
  assumes "chain_consistent T st" and "\<forall>(e, op)\<in>set ops. op_key_ok key_ok op"
    and "(k, d) \<in> set (chain_run put get ops st)"
  shows "d \<in> T k \<or> (\<exists>e obj. (e, C_Put k obj) \<in> set ops \<and> co_Data obj = d)"
  using assms
proof (induction ops arbitrary: T st)
  case (Cons eop ops)
  obtain e op where eop: "eop = (e, op)" by force
  obtain out st' where step: "chain_step put get e op st = (out, st')"
    by (cases "chain_step put get e op st")
  have ok: "op_key_ok key_ok op" using Cons.prems(2) eop by simp
  note step_ok = chain_step_consistent [OF Cons.prems(1) ok step]
  consider "(k, d) \<in> set out" | "(k, d) \<in> set (chain_run put get ops st')"
    using Cons.prems(3) eop step by auto
  then show ?case
  proof cases
    case 1
    then show ?thesis using step_ok(2) by auto
  next
    case 2
    then have "d \<in> op_adds op T k \<or> (\<exists>e obj. (e, C_Put k obj) \<in> set ops \<and> co_Data obj = d)"
      using Cons.IH [OF step_ok(1)] Cons.prems(2) by auto
    then show ?thesis using eop by (cases op) (auto split: if_splits)
  qed
qed simp

lemma chain_run_from:
  assumes "\<forall>p\<in>set ps. valid p" and "\<forall>(e, op)\<in>set ops. op_key_ok key_ok op"
    and "(k, d) \<in> set (chain_run put get ops ([], ps))"
  shows "(\<exists>p\<in>set ps. holds p k d) \<or> (\<exists>e obj. (e, C_Put k obj) \<in> set ops \<and> co_Data obj = d)"
proof -
  have "chain_consistent (\<lambda>k. {d. \<exists>p\<in>set ps. holds p k d}) ([], ps)"
    using assms(1) by (auto simp: chain_consistent_def consistent_def list_all_iff)
  from chain_run_sound [OF this assms(2,3)] show ?thesis by blast
qed

end

section \<open>Chains of the providers of the package\<close>

fun provider_holds ::
    "('c, 'i) ccache \<Rightarrow> codec \<Rightarrow> ('m \<Rightarrow> string \<Rightarrow> bytes option) \<Rightarrow> ('c, 'm) provider \<Rightarrow> string \<Rightarrow> bytes \<Rightarrow> bool" where
  "provider_holds C cod blob (P_Volatile v) k d = volatile_holds C v k d"
| "provider_holds C cod blob (P_Local l) k d = local_holds cod l k d"
| "provider_holds C cod blob (P_S3 s) k d = s3_holds blob s k d"

text \<open>The third-party parts behave as documented.\<close>

definition parts_ok ::
    "('c, 'i) ccache \<Rightarrow> codec \<Rightarrow> 'm minio \<Rightarrow> ('m \<Rightarrow> string \<Rightarrow> bytes option) \<Rightarrow> bool" where
  "parts_ok C cod M blob \<longleftrightarrow>
     cc_lookups_ok C \<and> codec_ok cod \<and> minio_ok M blob \<and> reads_complete M blob"

interpretation any: durable_provider "provider_Put C cod M" "provider_Get C cod M"
  "provider_holds C cod blob" "\<lambda>p. parts_ok C cod M blob" key_ok for C cod M blob
proof (unfold_locales, goal_cases)
  case (3 e k obj p r obj' p')
  then show ?case
    by (cases p) (auto simp: S3_Put_def Let_def split: prod.splits option.splits dest: ls.put_data vs.put_data)
next
  case (4 p k k' e obj r obj' p' d)
  then show ?case
    by (cases p) (auto simp: parts_ok_def split: prod.splits
        dest: ls.put_holds vs.put_holds S3_Put_holds(2))
next
  case (5 p k k' e q p' d)
  then show ?case
    by (cases p) (auto simp: parts_ok_def split: prod.splits
        dest: ls.get_holds vs.get_holds S3_Get_holds(1))
next
  case (6 p k e obj p')
  then show ?case
    by (cases p) (auto simp: parts_ok_def split: prod.splits
        dest: ls.get_Return vs.get_Return S3_Get_holds(2))
next
  case (7 p k e obj u obj' p')
  then show ?case
    by (cases p) (auto simp: parts_ok_def split: prod.splits
        dest: ls.put_Return vs.put_Return S3_Put_holds(3))
qed auto

section \<open>Properties\<close>


definition sample_env :: "int \<Rightarrow> storage_env" where
  "sample_env t = \<lparr>se_disk = no_faults t, se_canceled = None\<rparr>"

definition sample_chain ::
    "((string \<times> CacheObject \<times> int) list, mem_store \<times> int list option) provider list" where
  "sample_chain =
     [P_Volatile \<lparr>vs_cache = [], vs_storageLimit = 100, vs_totalSize = 0, vs_cacheHitsTotal = 0, vs_cacheMissesTotal = 0\<rparr>,
      P_Local (NewLocalStorageProvider ''/data'' 100 [(''/data/ab/abcd'', ''encoded'')] 0),
      P_S3 s3_configured]"

definition sample_ops :: "(storage_env \<times> chain_op) list" where
  "sample_ops = [(sample_env 3, C_Get ''abcd''), (sample_env 4, C_WriteBack 0), (sample_env 6, C_Get ''abcd'')]"

lemma sample_parts_ok: "parts_ok list_ccache sample_codec (mem_minio 0) mem_blob"
  by (simp add: parts_ok_def list_ccache_lookups sample_codec_ok mem_minio_ok mem_minio_reads)

lemma sample_chain_run:
  "chain_run (provider_Put list_ccache sample_codec (mem_minio 0))
     (provider_Get list_ccache sample_codec (mem_minio 0)) sample_ops ([], sample_chain) =
   [(''abcd'', ''obj''), (''abcd'', ''obj'')]"
  by code_simp


text \<open>\<open>Query\<close> of a chain panics on more keys than providers. The goroutine for key \<open>i\<close> asks
  provider \<open>i\<close>, where the providers should be tried in turn for each key.\<close>

theorem chain_query_panics:
  assumes "ps \<noteq> []" and "length ps < length keys"
  shows "Panic \<in> set (Chain_Query query keys ps)"
proof -
  have "chain_query_loop query keys ps (length ps) (length ps) = Panic"
    using assms(1) by (cases "length ps") auto
  then show ?thesis using assms(2) by (force simp: Chain_Query_def)
qed

definition query_none :: "string list \<Rightarrow> nat \<Rightarrow> CacheObjectMeta option list" where
  "query_none keys p = map (\<lambda>_. None) keys"

theorem chain_query_panics_witness:
  "[0 :: nat] \<noteq> [] \<and> length [0 :: nat] < length [''ab'', ''cd''] \<and>
   Panic \<in> set (Chain_Query query_none [''ab'', ''cd''] [0])"
  using chain_query_panics [of "[0]" "[''ab'', ''cd'']" query_none] by simp

end
