(* ===== verification/Filename.thy ===== *)
theory Filename
  imports Prelude
begin

text \<open>
  \<open>src/pkg/cc/filename.go\<close>: the source file extensions with their languages, the test files that
  are always compiled locally, and the replacement of a file extension.
\<close>

section \<open>Model\<close>

definition sourceExtensions :: "(string \<times> string) list" where
  "sourceExtensions =
    [(''.i'', ''c''), (''.ii'', ''c++''), (''.c'', ''c''), (''.cc'', ''c++''), (''.cpp'', ''c++''),
     (''.CPP'', ''c++''), (''.cxx'', ''c++''), (''.cp'', ''c++''), (''.c++'', ''c++''), (''.C'', ''c++''),
     (''.m'', ''objective-c''), (''.mm'', ''objective-c++''), (''.mi'', ''objective-c''),
     (''.mii'', ''objective-c++''), (''.M'', ''objective-c++''), (''.s'', ''assembler''),
     (''.S'', ''assembler''), (''.go'', ''go''), (''.h'', ''c-header''), (''.H'', ''c++-header''),
     (''.hpp'', ''c++-header''), (''.hp'', ''c++-header''), (''.hxx'', ''c++-header''),
     (''.h++'', ''c++-header''), (''.HPP'', ''c++-header''), (''.tcc'', ''c++-header''),
     (''.hh'', ''c++-header'')]"

definition knownCmakeTestFiles :: "string list" where
  "knownCmakeTestFiles =
    [''DummyCXXFile.cxx'', ''TestForAnsiForScope.cxx'', ''TestForANSIStreamHeaders.cxx'',
     ''TestForSSTREAM.cxx'', ''TestForSTDNamespace.cxx'', ''CMakeCXXCompilerABI.cpp'',
     ''CheckForPthreads.c'', ''CheckFunctionExists.c'', ''CheckVariableExists.c'',
     ''CMakeCCompilerABI.c'', ''CMakeTestGNU.c'']"

definition IsSourceFile :: "string \<Rightarrow> bool" where
  "IsSourceFile f = (map_of sourceExtensions (Ext f) \<noteq> None)"

definition SourceFileLanguage :: "string \<Rightarrow> string outcome" where
  "SourceFileLanguage f =
     (case map_of sourceExtensions (Ext f) of
        Some lang \<Rightarrow> Return lang
      | None \<Rightarrow> Fail (Error ''Unknown source file extension''))"

definition ShouldRunLocal :: "string \<Rightarrow> bool" where
  "ShouldRunLocal f =
     (HasPrefix (Base f) ''conftest.'' \<or> HasPrefix (Base f) ''tmp.conftest.'' \<or>
      Contains f ''CMakeTmp/src.'' \<or> Base f \<in> set knownCmakeTestFiles)"

definition ReplaceExtension :: "string \<Rightarrow> string \<Rightarrow> string" where
  "ReplaceExtension path newExt = take (length path - length (Ext path)) path @ newExt"

section \<open>Facts\<close>

lemma source_has_ext: "IsSourceFile f \<Longrightarrow> Ext f \<noteq> []"
  by (auto simp: IsSourceFile_def sourceExtensions_def)

lemma source_not_Nil: "IsSourceFile f \<Longrightarrow> f \<noteq> []"
  using source_has_ext by force

text \<open>Replacing the extension keeps the stem: the path up to its old extension.\<close>

lemma ReplaceExtension_stem:
  obtains stem where "path = stem @ Ext path" and "\<And>e. ReplaceExtension path e = stem @ e"
proof -
  obtain stem where s: "path = stem @ Ext path" using Ext_suffix by blast
  then have "length path = length stem + length (Ext path)" by (metis length_append)
  then have "take (length path - length (Ext path)) path = stem" using s by (metis add_diff_cancel_right' append_eq_conv_conj)
  then show ?thesis using that [OF s] by (simp add: ReplaceExtension_def)
qed

lemma Ext_ReplaceExtension:
  assumes "CHR ''/'' \<notin> set e" and "CHR ''.'' \<notin> set e"
  shows "Ext (ReplaceExtension path (CHR ''.'' # e)) = CHR ''.'' # e"
  unfolding ReplaceExtension_def by (rule Ext_append_ext [OF assms])

lemma ReplaceExtension_ReplaceExtension:
  assumes "CHR ''/'' \<notin> set e" and "CHR ''.'' \<notin> set e"
  shows "ReplaceExtension (ReplaceExtension path (CHR ''.'' # e)) e' = ReplaceExtension path e'"
  by (simp add: ReplaceExtension_def [of "ReplaceExtension path (CHR ''.'' # e)"] Ext_ReplaceExtension [OF assms])
    (simp add: ReplaceExtension_def)

end
