(* ===== verification/Args.thy ===== *)
theory Args
  imports Filename "HOL-Library.AList"
begin

text \<open>
  \<open>src/pkg/cc/args.go\<close>: the parser of compiler command lines, which decides whether a command can
  be compiled remotely, and the operations that rewrite the arguments. The argument list is a list
  of strings, \<open>FlagIndexMap\<close> an association list. Indexing an empty argument panics.
\<close>

section \<open>Model\<close>

datatype RunMode = Unset | RunLocal | RunRemote

fun RunMode_String :: "RunMode \<Rightarrow> string" where
  "RunMode_String Unset = ''RunError''"
| "RunMode_String RunLocal = ''RunLocal''"
| "RunMode_String RunRemote = ''RunRemote''"

type_synonym ActionOpt = string

definition ProfileArgs :: "string list" where
  "ProfileArgs = [''-fprofile-arcs'', ''-ftest-coverage'', ''--coverage'', ''-fprofile-correction'']"

definition ProfilePrefixArgs :: "string list" where
  "ProfilePrefixArgs = [''-fprofile-generate'', ''-fprofile-use'', ''-fauto-profile'']"

definition LocalArgsWithValues :: "string list" where
  "LocalArgsWithValues =
    [''-D'', ''-I'', ''-U'', ''-L'', ''-l'', ''-MF'', ''-MT'', ''-MQ'', ''-include'', ''-imacros'',
     ''-iprefix'', ''-iwithprefix'', ''-isystem'', ''-imultilib'', ''-iplugindir'', ''-iquote'',
     ''-isysroot'', ''-iwithprefixbefore'', ''-idirafter'']"

definition LocalArgsNoValues :: "string list" where
  "LocalArgsNoValues = [''-undef'', ''-nostdinc'', ''-nostdinc++'', ''-MD'', ''-MMD'', ''-MG'', ''-MP'']"

definition PICArgs :: "string list" where
  "PICArgs = [''-fPIC'', ''-fPIE'', ''-fpic'', ''-fpie'', ''-fno-pic'', ''-fno-pie'', ''-fno-PIC'', ''-fno-PIE'']"

definition LocalPrefixArgs :: "string list" where
  "LocalPrefixArgs =
    [''-Wp,'', ''-Wl,'', ''-D'', ''-U'', ''-I'', ''-l'', ''-L'', ''-MF'', ''-MT'', ''-MQ'', ''-isystem'', ''-stdlib'']"

definition Compile :: ActionOpt where "Compile = ''-c''"

definition Preprocess :: ActionOpt where "Preprocess = ''-E''"

definition GenAssembly :: ActionOpt where "GenAssembly = ''-S''"

definition NoAction :: ActionOpt where "NoAction = ''''"

definition IsActionOpt :: "string \<Rightarrow> bool" where
  "IsActionOpt str = (str = Compile \<or> str = Preprocess \<or> str = GenAssembly)"

record ArgParser =
  ap_Args :: "string list"
  ap_Mode :: RunMode
  ap_InputArgIndex :: int
  ap_OutputArgIndex :: int
  ap_FlagIndexMap :: "(string \<times> nat) list"

definition CanRunRemote :: "ArgParser \<Rightarrow> bool" where
  "CanRunRemote ap = (ap_Mode ap = RunRemote)"

definition NewArgParser :: "string list \<Rightarrow> ArgParser" where
  "NewArgParser args =
     \<lparr>ap_Args = args, ap_Mode = Unset, ap_InputArgIndex = 0, ap_OutputArgIndex = 0, ap_FlagIndexMap = []\<rparr>"

fun standardize :: "string list \<Rightarrow> string list" where
  "standardize [] = []"
| "standardize (a # as) =
     (if length a \<ge> 3 \<and> take 3 a = ''-o/'' then ''-o'' # drop 2 a # as else a # standardize as)"

definition unsupported :: "string \<Rightarrow> bool" where
  "unsupported a = (a = ''-Wpedantic'' \<or> a = ''-pedantic-errors'' \<or> a = ''-pedantic'' \<or> HasPrefix a ''-flto'')"

text \<open>The loop removes in place and steps back by one.\<close>

function strip_from :: "nat \<Rightarrow> string list \<Rightarrow> string list" where
  "strip_from i args =
     (if i < length args then
        (if unsupported (args ! i) then strip_from i (take i args @ drop (Suc i) args)
         else strip_from (Suc i) args)
      else args)"
  by auto
termination
  by (relation "measure (\<lambda>(i, args). 2 * length args - i)") auto

definition stripUnsupportedArgs :: "string list \<Rightarrow> string list" where
  "stripUnsupportedArgs args = strip_from 0 args"

text \<open>The variables of the loop of \<open>Parse\<close>.\<close>

record parse_state =
  ps_mode :: RunMode
  ps_input_index :: int
  ps_output_index :: int
  ps_flags :: "(string \<times> nat) list"
  ps_skip :: bool
  ps_seenOptC :: bool
  ps_seenOptS :: bool
  ps_seenOptE :: bool
  ps_inputArg :: string
  ps_outputArg :: string

definition set_flag :: "string \<Rightarrow> nat \<Rightarrow> parse_state \<Rightarrow> parse_state" where
  "set_flag a i st = st\<lparr>ps_flags := AList.update a i (ps_flags st)\<rparr>"

text \<open>The case \<open>-o\<close>.\<close>

definition parse_output :: "string list \<Rightarrow> nat \<Rightarrow> parse_state \<Rightarrow> parse_state" where
  "parse_output args i st =
     (let st1 = set_flag ''-o'' i st
      in if Suc i = length args then st1\<lparr>ps_mode := RunLocal\<rparr>
         else let next = args ! Suc i;
                  ext = Ext next;
                  st2 = (if ext = ''.o'' then
                           (if ps_outputArg st1 \<noteq> '''' then st1\<lparr>ps_mode := RunLocal\<rparr> else st1)
                         else if ext = '''' then st1\<lparr>ps_mode := RunLocal\<rparr>
                         else st1)
              in st2\<lparr>ps_outputArg := next, ps_output_index := int (Suc i), ps_skip := True\<rparr>)"

text \<open>The case \<open>-x\<close>: the language prefixes that may be compiled remotely.\<close>

definition remote_langs :: "string list" where
  "remote_langs = [''c'', ''c++'', ''objective-c'', ''objective-c++'', ''go'']"

definition parse_lang :: "string list \<Rightarrow> nat \<Rightarrow> string \<Rightarrow> parse_state \<Rightarrow> parse_state" where
  "parse_lang args i a st =
     (let st1 = (if length args > Suc i \<and> list_all (\<lambda>l. \<not> HasPrefix (args ! Suc i) l) remote_langs
                 then st\<lparr>ps_mode := RunLocal\<rparr> else st)
      in if a = ''-x'' then st1\<lparr>ps_skip := True\<rparr> else st1)"

text \<open>The cases of the switch on an option; \<open>O_Local\<close> stands for those whose only effect is the
  mode \<open>RunLocal\<close>.\<close>

datatype opt_case =
    O_Preprocess | O_Dep | O_DepFile | O_DepOther | O_Local | O_PIC | O_Assembler | O_GenAssembly
  | O_Lang | O_Value | O_Compile | O_Output | O_Other

definition classify :: "string \<Rightarrow> opt_case" where
  "classify a =
     (if a = ''-E'' then O_Preprocess
      else if a = ''-MD'' \<or> a = ''-MMD'' then O_Dep
      else if a = ''-MG'' \<or> a = ''-MP'' then O_Dep
      else if HasPrefix a ''-MF'' \<or> HasPrefix a ''-MT'' \<or> HasPrefix a ''-MQ'' then O_DepFile
      else if HasPrefix a ''-M'' then O_DepOther
      else if a = ''-march=native'' then O_Local
      else if a = ''-mtune=native'' then O_Local
      else if a \<in> set PICArgs then O_PIC
      else if HasPrefix a ''-Wa,'' then O_Assembler
      else if HasPrefix a ''-specs='' then O_Local
      else if a = ''-S'' then O_GenAssembly
      else if a \<in> set ProfileArgs then O_Local
      else if list_ex (HasPrefix a) ProfilePrefixArgs then O_Local
      else if a = ''-frepo'' then O_Local
      else if HasPrefix a ''-x'' then O_Lang
      else if HasPrefix a ''-dr'' then O_Local
      else if a \<in> set LocalArgsWithValues then O_Value
      else if a = ''-c'' then O_Compile
      else if a = ''-o'' then O_Output
      else O_Other)"

definition parse_option :: "string list \<Rightarrow> nat \<Rightarrow> string \<Rightarrow> parse_state \<Rightarrow> parse_state" where
  "parse_option args i a st =
     (case classify a of
        O_Preprocess \<Rightarrow> (set_flag a i st)\<lparr>ps_mode := RunLocal, ps_seenOptE := True\<rparr>
      | O_Dep \<Rightarrow> set_flag a i st
      | O_DepFile \<Rightarrow> set_flag (take 3 a) i (if length a = 3 then st\<lparr>ps_skip := True\<rparr> else st)
      | O_DepOther \<Rightarrow> (set_flag a i st)\<lparr>ps_mode := RunLocal\<rparr>
      | O_Local \<Rightarrow> st\<lparr>ps_mode := RunLocal\<rparr>
      | O_PIC \<Rightarrow> set_flag a i st
      | O_Assembler \<Rightarrow>
          (let st1 = set_flag ''-Wa'' i st
           in if Contains a '',-a'' \<or> Contains a ''--MD'' then st1\<lparr>ps_mode := RunLocal\<rparr> else st1)
      | O_GenAssembly \<Rightarrow> (set_flag a i st)\<lparr>ps_seenOptS := True\<rparr>
      | O_Lang \<Rightarrow> parse_lang args i a st
      | O_Value \<Rightarrow> st\<lparr>ps_skip := True\<rparr>
      | O_Compile \<Rightarrow> (set_flag a i st)\<lparr>ps_seenOptC := True\<rparr>
      | O_Output \<Rightarrow> parse_output args i st
      | O_Other \<Rightarrow> st)"

definition parse_input :: "nat \<Rightarrow> string \<Rightarrow> parse_state \<Rightarrow> parse_state" where
  "parse_input i a st =
     (if IsSourceFile a \<or> a = ''-'' then
        (if ps_inputArg st \<noteq> '''' then st\<lparr>ps_mode := RunLocal\<rparr> else st)
          \<lparr>ps_inputArg := a, ps_input_index := int i\<rparr>
      else st)"

definition parse_arg :: "string list \<Rightarrow> nat \<Rightarrow> string \<Rightarrow> parse_state \<Rightarrow> parse_state option" where
  "parse_arg args i a st =
     (if ps_skip st then Some (st\<lparr>ps_skip := False\<rparr>)
      else if a = [] then None
      else if hd a = CHR ''-'' \<and> length a > 1 then Some (parse_option args i a st)
      else Some (parse_input i a st))"

fun parse_loop :: "string list \<Rightarrow> nat \<Rightarrow> string list \<Rightarrow> parse_state \<Rightarrow> parse_state option" where
  "parse_loop args i [] st = Some st"
| "parse_loop args i (a # as) st =
     (case parse_arg args i a st of None \<Rightarrow> None | Some st' \<Rightarrow> parse_loop args (Suc i) as st')"

text \<open>The part of \<open>Parse\<close> after the loop.\<close>

definition parse_local :: "parse_state \<Rightarrow> parse_state" where
  "parse_local st =
     (let st1 = (if \<not> ps_seenOptC st \<and> \<not> ps_seenOptS st \<and> ps_input_index st = -1
                 then st\<lparr>ps_mode := RunLocal\<rparr> else st);
          st2 = (if ps_input_index st1 = -1 then st1\<lparr>ps_mode := RunLocal\<rparr> else st1)
      in if ShouldRunLocal (ps_inputArg st2) then st2\<lparr>ps_mode := RunLocal\<rparr> else st2)"

text \<open>The output argument when none is given: the pair of the new arguments and the new state.\<close>

definition default_output :: "string list \<Rightarrow> parse_state \<Rightarrow> string list \<times> parse_state" where
  "default_output args st =
     (if ps_outputArg st \<noteq> '''' then (args, st)
      else if ps_seenOptC st \<or> ps_seenOptS st then
        (let out = ReplaceExtension (ps_inputArg st) (if ps_seenOptS st then ''.s'' else ''.o'')
         in if out \<noteq> '''' then (args @ [''-o'', out], st\<lparr>ps_output_index := int (length args) + 1\<rparr>)
            else (args, st))
      else if ps_inputArg st \<noteq> '''' \<and> \<not> ps_seenOptE st then
        (args @ [''-o'', ''a.out''], st\<lparr>ps_output_index := int (length args) + 1, ps_mode := RunLocal\<rparr>)
      else (args, st))"

definition init_state :: "RunMode \<Rightarrow> parse_state" where
  "init_state mode =
     \<lparr>ps_mode = mode, ps_input_index = -1, ps_output_index = -1, ps_flags = [], ps_skip = False,
      ps_seenOptC = False, ps_seenOptS = False, ps_seenOptE = False, ps_inputArg = '''', ps_outputArg = ''''\<rparr>"

definition Parse :: "ArgParser \<Rightarrow> ArgParser outcome" where
  "Parse ap =
     (let args = stripUnsupportedArgs (standardize (ap_Args ap))
      in case parse_loop args 0 args (init_state (ap_Mode ap)) of
           None \<Rightarrow> Panic
         | Some st \<Rightarrow>
             (let (args', st') = default_output args (parse_local st)
              in Return \<lparr>ap_Args = args',
                         ap_Mode = (if ps_mode st' = Unset then RunRemote else ps_mode st'),
                         ap_InputArgIndex = ps_input_index st', ap_OutputArgIndex = ps_output_index st',
                         ap_FlagIndexMap = ps_flags st'\<rparr>))"

section \<open>Rewriting operations\<close>

definition replace_action :: "ActionOpt \<Rightarrow> nat \<Rightarrow> ActionOpt \<Rightarrow> ArgParser \<Rightarrow> ArgParser outcome" where
  "replace_action opt i oldOpt ap =
     (if i < length (ap_Args ap)
      then Return (ap\<lparr>ap_Args := (ap_Args ap)[i := opt],
                      ap_FlagIndexMap := AList.update opt i (AList.delete oldOpt (ap_FlagIndexMap ap))\<rparr>)
      else Panic)"

definition SetActionOpt :: "ActionOpt \<Rightarrow> ArgParser \<Rightarrow> ArgParser outcome" where
  "SetActionOpt opt ap =
     (case map_of (ap_FlagIndexMap ap) Compile of
        Some i \<Rightarrow> replace_action opt i Compile ap
      | None \<Rightarrow>
          (case map_of (ap_FlagIndexMap ap) GenAssembly of
             Some i \<Rightarrow> replace_action opt i GenAssembly ap
           | None \<Rightarrow>
               (case map_of (ap_FlagIndexMap ap) Preprocess of
                  Some i \<Rightarrow> replace_action opt i Preprocess ap
                | None \<Rightarrow> Fail (Error ''No -c -S or -E args found''))))"

definition GetActionOpt :: "ArgParser \<Rightarrow> ActionOpt" where
  "GetActionOpt ap =
     (if map_of (ap_FlagIndexMap ap) Compile \<noteq> None then Compile
      else if map_of (ap_FlagIndexMap ap) GenAssembly \<noteq> None then GenAssembly
      else if map_of (ap_FlagIndexMap ap) Preprocess \<noteq> None then Preprocess
      else NoAction)"

definition ReplaceOutputPath :: "string \<Rightarrow> ArgParser \<Rightarrow> ArgParser outcome" where
  "ReplaceOutputPath newPath ap =
     (if ap_OutputArgIndex ap \<noteq> -1 then
        (case index (ap_Args ap) (ap_OutputArgIndex ap) of
           None \<Rightarrow> Panic
         | Some _ \<Rightarrow> Return (ap\<lparr>ap_Args := (ap_Args ap)[nat (ap_OutputArgIndex ap) := newPath]\<rparr>))
      else Fail (Error ''No -o arg found''))"

definition ReplaceInputPath :: "string \<Rightarrow> ArgParser \<Rightarrow> ArgParser outcome" where
  "ReplaceInputPath newPath ap =
     (if ap_InputArgIndex ap \<noteq> -1 then
        (case index (ap_Args ap) (ap_InputArgIndex ap) of
           None \<Rightarrow> Panic
         | Some old \<Rightarrow>
             if old = newPath then Return ap
             else if newPath = ''-'' then Panic
             else Return (ap\<lparr>ap_Args := (ap_Args ap)[nat (ap_InputArgIndex ap) := newPath] @
                    [''-ffile-prefix-map='' @ Dir newPath @ ''='' @ Dir old]\<rparr>))
      else Fail (Error ''No input arg found''))"

text \<open>The inner loop of \<open>ConfigurePreprocessorOptions\<close>, over the comma-separated parts.\<close>

fun expand_wp :: "string list \<Rightarrow> string list option" where
  "expand_wp [] = Some []"
| "expand_wp (str # rest) =
     (if str = ''-MD'' \<or> str = ''-MMD'' then
        (case rest of
           [] \<Rightarrow> Some [str]
         | path # _ \<Rightarrow>
             if path = [] then None
             else if hd path = CHR ''-'' then map_option ((#) str) (expand_wp rest)
             else map_option (\<lambda>r. str # ''-MF'' # r) (expand_wp rest))
      else map_option ((#) str) (expand_wp rest))"

fun expand_args :: "string list \<Rightarrow> string list option" where
  "expand_args [] = Some []"
| "expand_args (arg # args) =
     (if \<not> HasPrefix arg ''-Wp'' then map_option ((#) arg) (expand_args args)
      else case expand_wp (tl (Split (CHR '','') arg)) of
             None \<Rightarrow> None
           | Some split \<Rightarrow> map_option ((@) split) (expand_args args))"

definition ConfigurePreprocessorOptions :: "ArgParser \<Rightarrow> ArgParser outcome" where
  "ConfigurePreprocessorOptions ap =
     (case expand_args (ap_Args ap) of
        None \<Rightarrow> Panic
      | Some args \<Rightarrow> Parse (ap\<lparr>ap_Args := args\<rparr>))"

fun remove_local :: "string list \<Rightarrow> string list" where
  "remove_local [] = []"
| "remove_local (arg # args) =
     (if arg \<in> set LocalArgsWithValues then remove_local (drop 1 args)
      else if list_ex (HasPrefix arg) LocalPrefixArgs \<or> arg \<in> set LocalArgsNoValues then remove_local args
      else arg # remove_local args)"

definition RemoveLocalArgs :: "ArgParser \<Rightarrow> ArgParser outcome" where
  "RemoveLocalArgs ap = Parse (ap\<lparr>ap_Args := remove_local (ap_Args ap)\<rparr>)"

definition prepend_unless :: "bool \<Rightarrow> string list \<Rightarrow> string \<Rightarrow> ArgParser \<Rightarrow> ArgParser" where
  "prepend_unless dflt flags flag ap =
     (if dflt \<and> list_all (\<lambda>f. map_of (ap_FlagIndexMap ap) f = None) flags
      then ap\<lparr>ap_Args := flag # ap_Args ap\<rparr> else ap)"

definition PrependExplicitPICArgs :: "bool \<Rightarrow> bool \<Rightarrow> ArgParser \<Rightarrow> ArgParser outcome" where
  "PrependExplicitPICArgs picDefault pieDefault ap =
     Parse (prepend_unless pieDefault [''-fno-pie'', ''-fno-PIE'', ''-fPIE'', ''-fpie''] ''-fPIE''
       (prepend_unless picDefault [''-fno-pic'', ''-fno-PIC'', ''-fPIC'', ''-fpic''] ''-fPIC'' ap))"

definition PrependLanguageFlag :: "string \<Rightarrow> ArgParser \<Rightarrow> ArgParser outcome" where
  "PrependLanguageFlag input ap =
     (case SourceFileLanguage input of
        Return lang \<Rightarrow> Parse (ap\<lparr>ap_Args := [''-x'', lang] @ ap_Args ap\<rparr>)
      | Fail err \<Rightarrow> Fail err
      | Panic \<Rightarrow> Panic)"

definition DeepCopy :: "ArgParser \<Rightarrow> ArgParser" where
  "DeepCopy ap = ap"

declare strip_from.simps [simp del]

section \<open>The loops as filters\<close>

lemma strip_from_filter: "strip_from i args = take i args @ filter (\<lambda>a. \<not> unsupported a) (drop i args)"
proof (induction i args rule: strip_from.induct)
  case (1 i args)
  show ?case
  proof (cases "i < length args")
    case True
    then have d: "drop i args = args ! i # drop (Suc i) args" by (rule Cons_nth_drop_Suc [symmetric])
    show ?thesis
    proof (cases "unsupported (args ! i)")
      case unsup: True
      then show ?thesis using True 1(1) d by (subst strip_from.simps) simp
    next
      case False
      then show ?thesis using True 1(2) d by (subst strip_from.simps) (simp add: take_Suc_conv_app_nth)
    qed
  qed (subst strip_from.simps, simp)
qed

lemma stripUnsupportedArgs_filter: "stripUnsupportedArgs args = filter (\<lambda>a. \<not> unsupported a) args"
  by (simp add: stripUnsupportedArgs_def strip_from_filter)

section \<open>The loop of Parse\<close>

text \<open>The options that take the next argument as their value, the arguments that are not consumed
  as a value, the options that force a local compilation, and the input arguments.\<close>

definition takes_value :: "string \<Rightarrow> bool" where
  "takes_value a = (a \<in> set LocalArgsWithValues \<or> a = ''-x'' \<or> a = ''-o'')"

fun unskipped :: "string list \<Rightarrow> string list" where
  "unskipped [] = []"
| "unskipped (a # as) = a # unskipped (if takes_value a then drop 1 as else as)"

definition is_option :: "string \<Rightarrow> bool" where
  "is_option a = (HasPrefix a ''-'' \<and> a \<noteq> ''-'')"

definition dep_option :: "string \<Rightarrow> bool" where
  "dep_option a = (a \<in> {''-MD'', ''-MMD'', ''-MG'', ''-MP''} \<or>
     HasPrefix a ''-MF'' \<or> HasPrefix a ''-MT'' \<or> HasPrefix a ''-MQ'')"

definition forces_local :: "string \<Rightarrow> bool" where
  "forces_local a =
     (a \<in> {''-E'', ''-march=native'', ''-mtune=native'', ''-frepo''} \<or> a \<in> set ProfileArgs \<or>
      list_ex (HasPrefix a) ProfilePrefixArgs \<or> HasPrefix a ''-specs='' \<or> HasPrefix a ''-dr'' \<or>
      HasPrefix a ''-M'' \<and> \<not> dep_option a \<or>
      HasPrefix a ''-Wa,'' \<and> (Contains a '',-a'' \<or> Contains a ''--MD''))"

definition is_input :: "string \<Rightarrow> bool" where
  "is_input a = (\<not> is_option a \<and> (IsSourceFile a \<or> a = ''-''))"

lemma is_option_iff: "a \<noteq> [] \<Longrightarrow> is_option a \<longleftrightarrow> hd a = CHR ''-'' \<and> length a > 1"
  by (cases a) (auto simp: is_option_def HasPrefix_def)

lemmas option_sets = ProfileArgs_def ProfilePrefixArgs_def PICArgs_def LocalArgsWithValues_def

lemma HasPrefixE:
  assumes "HasPrefix a p"
  obtains r where "a = p @ r"
  using assms by (auto simp: HasPrefix_iff_prefix prefix_def)

lemma classify_action:
  "classify a = O_Preprocess \<Longrightarrow> a = ''-E''" "classify a = O_GenAssembly \<Longrightarrow> a = ''-S''"
  "classify a = O_Compile \<Longrightarrow> a = ''-c''" "classify a = O_Output \<Longrightarrow> a = ''-o''"
  "classify a = O_Value \<Longrightarrow> a \<in> set LocalArgsWithValues"
  "classify a = O_DepFile \<Longrightarrow> HasPrefix a ''-MF'' \<or> HasPrefix a ''-MT'' \<or> HasPrefix a ''-MQ''"
  "classify a = O_Assembler \<Longrightarrow> HasPrefix a ''-Wa,''"
  "classify a = O_Lang \<Longrightarrow> HasPrefix a ''-x''"
  by (simp_all add: classify_def split: if_splits)

lemma classify_other:
  "classify ''-E'' = O_Preprocess" "classify ''-S'' = O_GenAssembly" "classify ''-c'' = O_Compile"
  "classify ''-o'' = O_Output" "classify ''-x'' = O_Lang"
  by code_simp+

lemma classify_value: "a \<in> set LocalArgsWithValues \<Longrightarrow> classify a = O_Value \<or> classify a = O_DepFile \<and> length a = 3"
proof -
  have "list_all (\<lambda>a. classify a = O_Value \<or> classify a = O_DepFile \<and> length a = 3) LocalArgsWithValues"
    by code_simp
  then show "a \<in> set LocalArgsWithValues \<Longrightarrow> classify a = O_Value \<or> classify a = O_DepFile \<and> length a = 3"
    by (simp add: list_all_iff)
qed

lemma takes_value_iff:
  "takes_value a \<longleftrightarrow> (case classify a of O_Value \<Rightarrow> True | O_DepFile \<Rightarrow> length a = 3
     | O_Lang \<Rightarrow> a = ''-x'' | O_Output \<Rightarrow> True | _ \<Rightarrow> False)"
proof -
  have p: "HasPrefix a p \<Longrightarrow> length a = length p \<Longrightarrow> a = p" for p by (auto elim!: HasPrefixE)
  have "list_all (\<lambda>a. a \<in> set LocalArgsWithValues) [''-MF'', ''-MT'', ''-MQ'']" by code_simp
  with p [of "''-MF''"] p [of "''-MT''"] p [of "''-MQ''"]
  have "classify a = O_DepFile \<Longrightarrow> length a = 3 \<Longrightarrow> a \<in> set LocalArgsWithValues"
    using classify_action(6) [of a] by auto
  then show ?thesis
    using classify_value [of a] classify_action(4,5) [of a] classify_other(4,5)
    by (cases "classify a") (auto simp: takes_value_def)
qed

lemma classify_prefix:
  "HasPrefix a ''-specs='' \<Longrightarrow> classify a = O_Local" "HasPrefix a ''-dr'' \<Longrightarrow> classify a = O_Local"
  "HasPrefix a ''-fprofile-generate'' \<Longrightarrow> classify a = O_Local"
  "HasPrefix a ''-fprofile-use'' \<Longrightarrow> classify a = O_Local"
  "HasPrefix a ''-fauto-profile'' \<Longrightarrow> classify a = O_Local"
  "HasPrefix a ''-Wa,'' \<Longrightarrow> classify a = O_Assembler"
  by (elim HasPrefixE, simp add: classify_def option_sets)+

lemma classify_dep: "HasPrefix a ''-M'' \<Longrightarrow> \<not> dep_option a \<Longrightarrow> classify a = O_DepOther"
  unfolding classify_def dep_option_def by auto

lemma forces_local_classify:
  assumes "forces_local a"
  shows "classify a = O_Preprocess \<or> classify a = O_DepOther \<or> classify a = O_Local \<or>
         classify a = O_Assembler \<and> (Contains a '',-a'' \<or> Contains a ''--MD'')"
proof -
  have fixed: "list_all (\<lambda>a. classify a = O_Preprocess \<or> classify a = O_Local)
     ([''-E'', ''-march=native'', ''-mtune=native'', ''-frepo''] @ ProfileArgs)" by code_simp
  consider "a \<in> set ([''-E'', ''-march=native'', ''-mtune=native'', ''-frepo''] @ ProfileArgs)"
    | "list_ex (HasPrefix a) ProfilePrefixArgs" | "HasPrefix a ''-specs=''" | "HasPrefix a ''-dr''"
    | "HasPrefix a ''-M''" "\<not> dep_option a"
    | "HasPrefix a ''-Wa,''" "Contains a '',-a'' \<or> Contains a ''--MD''"
    using assms by (auto simp: forces_local_def)
  then show ?thesis
  proof cases
    case 1
    with fixed show ?thesis unfolding list_all_iff by blast
  next
    case 2
    then show ?thesis using classify_prefix(3-5) [of a] by (simp add: ProfilePrefixArgs_def) blast
  qed (simp_all add: classify_prefix classify_dep)
qed
end
