(* ===== verification/ArgsParse.thy ===== *)
theory ArgsParse
  imports Args
begin

text \<open>
  Invariants of the argument parser of \<open>src/pkg/cc/args.go\<close> and its properties: the recorded indexes
  point where they should, a command that is sent to an agent has nothing that asks for a local
  compilation, and the rewriting operations keep to their contracts.
\<close>

section \<open>One step of the loop\<close>

lemma parse_option_mode:
  assumes "ps_mode (parse_option args i a st) \<noteq> RunLocal"
  shows "ps_mode st \<noteq> RunLocal" and "\<not> forces_local a"
proof -
  show "ps_mode st \<noteq> RunLocal"
    using assms
    by (cases "classify a") (auto simp: parse_option_def parse_output_def parse_lang_def set_flag_def Let_def split: if_splits)
  show "\<not> forces_local a"
    using assms forces_local_classify [of a] by (auto simp: parse_option_def Let_def)
qed

text \<open>What one option does to the rest of the state.\<close>

lemma parse_option_skip:
  assumes "\<not> ps_skip st" and "Suc i < length args"
  shows "ps_skip (parse_option args i a st) = takes_value a"
  using assms
  by (cases "classify a") (auto simp: takes_value_iff parse_option_def parse_output_def parse_lang_def set_flag_def Let_def)

lemma parse_option_input [simp]:
  "ps_inputArg (parse_option args i a st) = ps_inputArg st"
  "ps_input_index (parse_option args i a st) = ps_input_index st"
  by (cases "classify a"; simp add: parse_option_def parse_output_def parse_lang_def set_flag_def Let_def)+

lemma parse_input_same [simp]:
  "ps_skip (parse_input i a st) = ps_skip st" "ps_flags (parse_input i a st) = ps_flags st"
  "ps_seenOptC (parse_input i a st) = ps_seenOptC st" "ps_seenOptS (parse_input i a st) = ps_seenOptS st"
  "ps_seenOptE (parse_input i a st) = ps_seenOptE st" "ps_outputArg (parse_input i a st) = ps_outputArg st"
  "ps_output_index (parse_input i a st) = ps_output_index st"
  by (simp_all add: parse_input_def)

text \<open>The arguments that are looked at: after a skip the first one is not.\<close>

definition pending :: "parse_state \<Rightarrow> string list \<Rightarrow> string list" where
  "pending st as = unskipped (if ps_skip st then drop 1 as else as)"

lemma pending_option:
  assumes "\<not> ps_skip st" and "length args = Suc i + length as"
  shows "pending (parse_option args i a st) as = unskipped (if takes_value a then drop 1 as else as)"
  using assms parse_option_skip [of st i args a] by (cases as) (auto simp: pending_def)

lemma not_option_takes_value: "\<not> is_option a \<Longrightarrow> \<not> takes_value a"
proof -
  have "list_all is_option (''-x'' # ''-o'' # LocalArgsWithValues)" by code_simp
  then show "\<not> is_option a \<Longrightarrow> \<not> takes_value a" by (auto simp: takes_value_def list_all_iff)
qed

lemma is_option_prefix: "HasPrefix a p \<Longrightarrow> is_option p \<Longrightarrow> is_option a"
  by (auto simp: is_option_def HasPrefix_iff_prefix prefix_def)

lemma forces_local_option: "forces_local a \<Longrightarrow> is_option a"
proof -
  have "list_all is_option ([''-E'', ''-march=native'', ''-mtune=native'', ''-frepo''] @ ProfileArgs)"
    and "list_all is_option (ProfilePrefixArgs @ [''-specs='', ''-dr'', ''-M'', ''-Wa,''])" by code_simp+
  then show "forces_local a \<Longrightarrow> is_option a"
    unfolding forces_local_def list_ex_iff list_all_iff by (auto intro: is_option_prefix)
qed

lemma parse_arg_cases:
  assumes "parse_arg args i a st = Some st'"
  obtains (skip) "ps_skip st" "st' = st\<lparr>ps_skip := False\<rparr>"
    | (opt) "\<not> ps_skip st" "is_option a" "st' = parse_option args i a st"
    | (inp) "\<not> ps_skip st" "\<not> is_option a" "a \<noteq> []" "st' = parse_input i a st"
  using assms is_option_iff [of a] by (auto simp: parse_arg_def split: if_splits)

text \<open>If the loop ends without having chosen a local compilation, none of the arguments it looked at
  forces one, and it found at most one input.\<close>

lemma parse_loop_remote:
  "parse_loop args i as st = Some st' \<Longrightarrow> length args = i + length as \<Longrightarrow> ps_mode st' \<noteq> RunLocal \<Longrightarrow>
   ps_mode st \<noteq> RunLocal \<and> (\<forall>a\<in>set (pending st as). \<not> forces_local a) \<and>
   (if ps_inputArg st \<noteq> [] then filter is_input (pending st as) = [] \<and> ps_inputArg st' = ps_inputArg st
    else filter is_input (pending st as) = (if ps_inputArg st' = [] then [] else [ps_inputArg st']))"
proof (induction args i as st rule: parse_loop.induct)
  case (1 args i st)
  then show ?case by (simp add: pending_def)
next
  case (2 args i a as st)
  from 2(2) obtain st1 where st1: "parse_arg args i a st = Some st1" and rest: "parse_loop args (Suc i) as st1 = Some st'"
    by (auto split: option.splits)
  have len: "length args = Suc i + length as" using 2(3) by simp
  note IH = 2(1) [OF st1 rest len 2(4)]
  from st1 show ?case
  proof (cases rule: parse_arg_cases)
    case skip
    then show ?thesis using IH by (auto simp: pending_def split: if_splits)
  next
    case opt
    have "pending st (a # as) = a # pending st1 as"
      using pending_option [OF opt(1) len] opt by (simp add: pending_def [of st])
    then show ?thesis
      using IH opt parse_option_mode [of args i a st] by (auto simp: is_input_def)
  next
    case inp
    have "pending st (a # as) = a # pending st1 as"
      using inp not_option_takes_value [of a] by (simp add: pending_def)
    moreover have "\<not> forces_local a" using inp forces_local_option by blast
    moreover have "is_input a \<longleftrightarrow> IsSourceFile a \<or> a = ''-''" using inp by (simp add: is_input_def)
    ultimately show ?thesis
      using IH inp source_not_Nil [of a] by (auto simp: parse_input_def split: if_splits)
  qed
qed

text \<open>The indexes the loop records, before argument \<open>i\<close> is looked at.\<close>

definition parse_inv :: "string list \<Rightarrow> nat \<Rightarrow> parse_state \<Rightarrow> bool" where
  "parse_inv args i st \<longleftrightarrow>
     (ps_input_index st = -1 \<and> ps_inputArg st = [] \<or>
      (\<exists>j<i. ps_input_index st = int j \<and> args ! j = ps_inputArg st \<and> is_input (args ! j))) \<and>
     (ps_output_index st = -1 \<and> ps_outputArg st = [] \<or>
      (\<exists>j. Suc j < length args \<and> ps_output_index st = int (Suc j) \<and> args ! j = ''-o'' \<and> args ! Suc j = ps_outputArg st)) \<and>
     (\<forall>f j. map_of (ps_flags st) f = Some j \<longrightarrow> j < i \<and> (IsActionOpt f \<longrightarrow> args ! j = f)) \<and>
     (ps_seenOptC st \<longleftrightarrow> map_of (ps_flags st) Compile \<noteq> None) \<and>
     (ps_seenOptS st \<longleftrightarrow> map_of (ps_flags st) GenAssembly \<noteq> None) \<and>
     (ps_seenOptE st \<longleftrightarrow> map_of (ps_flags st) Preprocess \<noteq> None) \<and>
     (ps_seenOptE st \<longrightarrow> ps_mode st = RunLocal)"

lemmas actions = IsActionOpt_def Compile_def Preprocess_def GenAssembly_def

lemma parse_inv_Suc: "parse_inv args i st \<Longrightarrow> parse_inv args (Suc i) st"
  unfolding parse_inv_def by (metis less_SucI)

lemma parse_inv_local: "parse_inv args i st \<Longrightarrow> parse_inv args i (st\<lparr>ps_mode := RunLocal\<rparr>)"
  by (simp add: parse_inv_def)

lemma parse_inv_skip: "parse_inv args i (st\<lparr>ps_skip := b\<rparr>) = parse_inv args i st"
  by (simp add: parse_inv_def)

lemma set_flag_skip: "set_flag f i (st\<lparr>ps_skip := b\<rparr>) = (set_flag f i st)\<lparr>ps_skip := b\<rparr>"
  by (simp add: set_flag_def)

lemma parse_inv_flag:
  "parse_inv args i st \<Longrightarrow> \<not> IsActionOpt f \<Longrightarrow> parse_inv args (Suc i) (set_flag f i st)"
  by (auto simp: parse_inv_def set_flag_def update_conv' actions less_Suc_eq split: if_splits)

lemma parse_inv_action:
  assumes "parse_inv args i st" and "args ! i = f"
  shows "f = ''-c'' \<Longrightarrow> parse_inv args (Suc i) ((set_flag f i st)\<lparr>ps_seenOptC := True\<rparr>)"
    and "f = ''-S'' \<Longrightarrow> parse_inv args (Suc i) ((set_flag f i st)\<lparr>ps_seenOptS := True\<rparr>)"
    and "f = ''-E'' \<Longrightarrow> parse_inv args (Suc i) ((set_flag f i st)\<lparr>ps_mode := RunLocal, ps_seenOptE := True\<rparr>)"
  using assms by (auto simp: parse_inv_def set_flag_def update_conv' actions less_Suc_eq split: if_splits)

lemma parse_inv_output:
  assumes "parse_inv args i st" and "args ! i = ''-o''" and "i < length args"
  shows "parse_inv args (Suc i) (parse_output args i st)"
proof -
  have "\<not> IsActionOpt ''-o''" by (simp add: actions)
  from parse_inv_flag [OF assms(1) this] have flag: "parse_inv args (Suc i) (set_flag ''-o'' i st)" .
  have out: "parse_inv args (Suc i) (st1\<lparr>ps_outputArg := args ! Suc i, ps_output_index := int (Suc i), ps_skip := True\<rparr>)"
    if "parse_inv args (Suc i) st1" "Suc i < length args" for st1
    using that assms(2) by (auto simp: parse_inv_def)
  show ?thesis
    using flag parse_inv_local [OF flag] out assms(3) by (auto simp: parse_output_def Let_def)
qed

lemma classify_flags:
  "classify a = O_Dep \<or> classify a = O_DepOther \<or> classify a = O_PIC \<Longrightarrow> \<not> IsActionOpt a"
  "classify a = O_DepFile \<Longrightarrow> \<not> IsActionOpt (take 3 a)"
  using classify_other(1-3) classify_action(6) [of a] by (auto simp: actions elim!: HasPrefixE)

lemma parse_inv_option:
  assumes "parse_inv args i st" and "i < length args"
  shows "parse_inv args (Suc i) (parse_option args i (args ! i) st)"
proof -
  have wa: "\<not> IsActionOpt ''-Wa''" by (simp add: actions)
  show ?thesis
    using assms parse_inv_Suc [OF assms(1)] parse_inv_flag [OF assms(1)] parse_inv_flag [OF _ wa]
      parse_inv_action [OF assms(1) refl] parse_inv_output [OF assms(1)]
      classify_flags [of "args ! i"] classify_action(1-4) [of "args ! i"]
    by (cases "classify (args ! i)")
      (auto simp: parse_option_def parse_lang_def Let_def parse_inv_local parse_inv_skip set_flag_skip)
qed

lemma parse_inv_input:
  assumes "parse_inv args i st" and "\<not> is_option (args ! i)" and "i < length args"
  shows "parse_inv args (Suc i) (parse_input i (args ! i) st)"
  using parse_inv_Suc [OF assms(1)] assms(2,3)
  by (auto simp: parse_input_def parse_inv_def is_input_def intro!: exI [of _ i])

lemma parse_loop_inv:
  "parse_loop args i as st = Some st' \<Longrightarrow> as = drop i args \<Longrightarrow> i \<le> length args \<Longrightarrow> parse_inv args i st \<Longrightarrow>
   parse_inv args (length args) st'"
proof (induction args i as st rule: parse_loop.induct)
  case (2 args i a as st)
  from 2(2) obtain st1 where st1: "parse_arg args i a st = Some st1" and rest: "parse_loop args (Suc i) as st1 = Some st'"
    by (auto split: option.splits)
  have "i < length args" using 2(3) by (metis drop_all list.distinct(1) not_le)
  with Cons_nth_drop_Suc [OF this] 2(3) have i: "i < length args" "args ! i = a" "as = drop (Suc i) args"
    by (metis list.inject)+
  have "parse_inv args (Suc i) st1"
    using st1
  proof (cases rule: parse_arg_cases)
    case skip
    then show ?thesis using parse_inv_Suc [OF 2(5)] by (simp add: parse_inv_skip)
  next
    case opt
    then show ?thesis using parse_inv_option [OF 2(5) i(1)] i(2) by simp
  next
    case inp
    then show ?thesis using parse_inv_input [OF 2(5)] i by simp
  qed
  then show ?case using 2(1) [OF st1 rest] i by simp
qed simp

lemma parse_inv_init: "parse_inv args 0 (init_state m)"
  by (simp add: parse_inv_def init_state_def)

section \<open>The result of Parse\<close>

definition clean_args :: "ArgParser \<Rightarrow> string list" where
  "clean_args ap = stripUnsupportedArgs (standardize (ap_Args ap))"

lemma parse_local_same [simp]:
  "ps_input_index (parse_local st) = ps_input_index st" "ps_output_index (parse_local st) = ps_output_index st"
  "ps_flags (parse_local st) = ps_flags st" "ps_inputArg (parse_local st) = ps_inputArg st"
  "ps_outputArg (parse_local st) = ps_outputArg st" "ps_seenOptC (parse_local st) = ps_seenOptC st"
  "ps_seenOptS (parse_local st) = ps_seenOptS st" "ps_seenOptE (parse_local st) = ps_seenOptE st"
  by (simp_all add: parse_local_def Let_def)

lemma parse_local_inv: "parse_inv args i st \<Longrightarrow> parse_inv args i (parse_local st)"
  by (simp add: parse_local_def Let_def parse_inv_local)

lemma parse_local_mode:
  "ps_mode (parse_local st) \<noteq> RunLocal \<Longrightarrow>
   ps_mode st \<noteq> RunLocal \<and> ps_input_index st \<noteq> -1 \<and> \<not> ShouldRunLocal (ps_inputArg st)"
  by (auto simp: parse_local_def Let_def split: if_splits)

lemma Parse_ReturnE:
  assumes "Parse ap = Return ap'"
  obtains st st' where "parse_loop (clean_args ap) 0 (clean_args ap) (init_state (ap_Mode ap)) = Some st"
    and "default_output (clean_args ap) (parse_local st) = (ap_Args ap', st')"
    and "parse_inv (clean_args ap) (length (clean_args ap)) (parse_local st)"
    and "ap_Mode ap' = (if ps_mode st' = Unset then RunRemote else ps_mode st')"
    and "ap_InputArgIndex ap' = ps_input_index st'" and "ap_OutputArgIndex ap' = ps_output_index st'"
    and "ap_FlagIndexMap ap' = ps_flags st'"
proof -
  from assms obtain st where loop: "parse_loop (clean_args ap) 0 (clean_args ap) (init_state (ap_Mode ap)) = Some st"
    by (auto simp: Parse_def clean_args_def Let_def split: option.splits)
  obtain args' st' where d: "default_output (clean_args ap) (parse_local st) = (args', st')" by force
  have "parse_inv (clean_args ap) (length (clean_args ap)) (parse_local st)"
    using parse_loop_inv [OF loop] parse_inv_init parse_local_inv by simp
  then show ?thesis
    using that [OF loop, of st'] assms loop d by (auto simp: Parse_def clean_args_def Let_def)
qed

text \<open>The output argument that is added stands after the others, so the indexes stay valid.\<close>

definition indexes_ok :: "ArgParser \<Rightarrow> bool" where
  "indexes_ok ap \<longleftrightarrow>
     (ap_InputArgIndex ap = -1 \<or>
      (\<exists>j<length (ap_Args ap). ap_InputArgIndex ap = int j \<and> is_input (ap_Args ap ! j))) \<and>
     (ap_OutputArgIndex ap = -1 \<or>
      (\<exists>j. Suc j < length (ap_Args ap) \<and> ap_OutputArgIndex ap = int (Suc j) \<and> ap_Args ap ! j = ''-o'')) \<and>
     (\<forall>f j. IsActionOpt f \<longrightarrow> map_of (ap_FlagIndexMap ap) f = Some j \<longrightarrow>
        j < length (ap_Args ap) \<and> ap_Args ap ! j = f)"

lemma default_output_cases:
  assumes "default_output args st = (args', st')"
  obtains "args' = args" "st' = st"
    | out where "args' = args @ [''-o'', out]" "ps_output_index st' = int (length args) + 1"
       "ps_input_index st' = ps_input_index st" "ps_flags st' = ps_flags st"
       "out = ''a.out'' \<or> (\<exists>e\<in>{''.s'', ''.o''}. out = ReplaceExtension (ps_inputArg st) e)"
  using assms by (auto simp: default_output_def Let_def split: if_splits)

lemma Parse_indexes_ok:
  assumes "Parse ap = Return ap'"
  shows "indexes_ok ap'"
proof -
  from assms obtain st st' where d: "default_output (clean_args ap) (parse_local st) = (ap_Args ap', st')"
    and inv: "parse_inv (clean_args ap) (length (clean_args ap)) (parse_local st)"
    and ap': "ap_InputArgIndex ap' = ps_input_index st'" "ap_OutputArgIndex ap' = ps_output_index st'"
      "ap_FlagIndexMap ap' = ps_flags st'" by (rule Parse_ReturnE)
  from d show ?thesis
  proof (cases rule: default_output_cases)
    case 1
    then show ?thesis using inv ap' by (auto simp: parse_inv_def indexes_ok_def)
  next
    case (2 out)
    have nth: "j < length (clean_args ap) \<Longrightarrow> ap_Args ap' ! j = clean_args ap ! j" for j
      using 2(1) by (simp add: nth_append)
    have len: "j < length (clean_args ap) \<Longrightarrow> j < length (ap_Args ap')" for j using 2(1) by simp
    have "ap_InputArgIndex ap' = -1 \<or>
        (\<exists>j<length (ap_Args ap'). ap_InputArgIndex ap' = int j \<and> is_input (ap_Args ap' ! j))"
      using inv unfolding parse_inv_def 2(3) [symmetric] ap'(1) [symmetric] by (metis nth len)
    moreover have "Suc (length (clean_args ap)) < length (ap_Args ap') \<and>
        ap_OutputArgIndex ap' = int (Suc (length (clean_args ap))) \<and> ap_Args ap' ! length (clean_args ap) = ''-o''"
      using 2(1,2) ap'(2) by simp
    moreover have "IsActionOpt f \<Longrightarrow> map_of (ap_FlagIndexMap ap') f = Some j \<Longrightarrow>
        j < length (ap_Args ap') \<and> ap_Args ap' ! j = f" for f j
      using inv unfolding parse_inv_def 2(4) [symmetric] ap'(3) [symmetric] by (metis nth len)
    ultimately show ?thesis unfolding indexes_ok_def by blast
  qed
qed

lemma standardize_nonempty: "[] \<notin> set args \<Longrightarrow> [] \<notin> set (standardize args)"
  by (induction args) (auto dest!: arg_cong [of _ _ length])

lemma standardize_set: "a \<in> set (standardize args) \<Longrightarrow> a \<in> set args \<or> a = ''-o'' \<or> (HasPrefix a ''/'')"
proof (induction args)
  case (Cons x xs)
  show ?case
  proof (cases "length x \<ge> 3 \<and> take 3 x = ''-o/''")
    case True
    then obtain y where "x = ''-o/'' @ y" by (metis append_take_drop_id)
    then have "HasPrefix (drop 2 x) ''/''" by simp
    with True Cons show ?thesis by auto
  qed (use Cons in auto)
qed simp

lemma parse_loop_total: "[] \<notin> set as \<Longrightarrow> parse_loop args i as st \<noteq> None"
proof (induction args i as st rule: parse_loop.induct)
  case (2 args i a as st)
  then have "a \<noteq> []" by auto
  then have "parse_arg args i a st \<noteq> None" by (simp add: parse_arg_def)
  with 2 show ?case by auto
qed simp

section \<open>Properties\<close>



text \<open>C12: only commands that can be compiled remotely are marked so. If a parsed command can run
  remotely, then it was not marked local before; no argument that is looked at (one that is not the
  value of the option before it) forces a local compilation; exactly one of them is an input, it
  is the one recorded, and it is not one of the configuration tests that must run locally; and
  \<open>-E\<close> is not among the recorded actions.\<close>

theorem remote_safe:
  assumes "Parse ap = Return ap'" and "CanRunRemote ap'"
  shows "ap_Mode ap \<noteq> RunLocal \<and>
         (\<forall>a\<in>set (unskipped (clean_args ap)). \<not> forces_local a) \<and>
         (\<exists>input. filter is_input (unskipped (clean_args ap)) = [input] \<and>
            index (ap_Args ap') (ap_InputArgIndex ap') = Some input \<and> \<not> ShouldRunLocal input) \<and>
         map_of (ap_FlagIndexMap ap') Preprocess = None"
proof -
  from assms(1) obtain st st' where loop: "parse_loop (clean_args ap) 0 (clean_args ap) (init_state (ap_Mode ap)) = Some st"
    and d: "default_output (clean_args ap) (parse_local st) = (ap_Args ap', st')"
    and inv: "parse_inv (clean_args ap) (length (clean_args ap)) (parse_local st)"
    and ap': "ap_Mode ap' = (if ps_mode st' = Unset then RunRemote else ps_mode st')"
      "ap_InputArgIndex ap' = ps_input_index st'" "ap_FlagIndexMap ap' = ps_flags st'"
    by (rule Parse_ReturnE)
  have st': "ps_mode (parse_local st) \<noteq> RunLocal" "ps_input_index st' = ps_input_index st" "ps_flags st' = ps_flags st"
    using d assms(2) ap'(1) by (auto simp: CanRunRemote_def default_output_def Let_def split: if_splits)
  note local = parse_local_mode [OF st'(1)]
  from inv local obtain j where j: "j < length (clean_args ap)" "ps_input_index st = int j"
    "clean_args ap ! j = ps_inputArg st" "is_input (ps_inputArg st)" by (auto simp: parse_inv_def)
  have ne: "ps_inputArg st \<noteq> []" using j(4) source_not_Nil by (auto simp: is_input_def)
  have "index (ap_Args ap') (ap_InputArgIndex ap') = Some (ps_inputArg st)"
    using d j ap'(2) st'(2) by (elim default_output_cases) (auto simp: nth_append)
  moreover have "map_of (ps_flags st) Preprocess = None" using inv st'(1) by (auto simp: parse_inv_def)
  ultimately show ?thesis
    using parse_loop_remote [OF loop] local ne ap'(3) st'(3) by (auto simp: init_state_def pending_def)
qed

theorem remote_safe_witness:
  "\<exists>ap'. Parse (NewArgParser [''-I'', ''-E'', ''-c'', ''a.c'', ''-march=x86-64'']) = Return ap' \<and> CanRunRemote ap' \<and>
     index (ap_Args ap') (ap_InputArgIndex ap') = Some ''a.c''"
proof -
  let ?ap = "NewArgParser [''-I'', ''-E'', ''-c'', ''a.c'', ''-march=x86-64'']"
  have "(case Parse ?ap of Return q \<Rightarrow> CanRunRemote q | _ \<Rightarrow> False)" by code_simp
  then obtain ap' where p: "Parse ?ap = Return ap'" "CanRunRemote ap'" by (auto split: outcome.splits)
  moreover have "filter is_input (unskipped (clean_args ?ap)) = [''a.c'']" by code_simp
  ultimately show ?thesis using remote_safe [OF p] by auto
qed

definition is_local_arg :: "string \<Rightarrow> bool" where
  "is_local_arg a = (a \<in> set LocalArgsWithValues \<or> list_ex (HasPrefix a) LocalPrefixArgs \<or> a \<in> set LocalArgsNoValues)"

fun dash_arg :: "string \<Rightarrow> bool" where
  "dash_arg (x # y # r) = (x = CHR ''-'' \<and> y \<noteq> CHR ''.'' \<and> y \<noteq> CHR ''o'')"
| "dash_arg _ = False"

lemma dash_arg_prefix: "dash_arg p \<Longrightarrow> dash_arg (p @ r)"
  by (cases p rule: dash_arg.cases) auto

lemma local_arg_dash: "is_local_arg a \<Longrightarrow> dash_arg a"
proof -
  have d: "list_all dash_arg LocalArgsWithValues" "list_all dash_arg LocalPrefixArgs" "list_all dash_arg LocalArgsNoValues"
    by code_simp+
  then show "is_local_arg a \<Longrightarrow> dash_arg a"
    unfolding is_local_arg_def list_all_iff list_ex_iff by (auto elim!: HasPrefixE intro: dash_arg_prefix)
qed

lemma remove_local_clean: "a \<in> set (remove_local args) \<Longrightarrow> a \<in> set args \<and> \<not> is_local_arg a"
  by (induction args rule: remove_local.induct)
    (auto simp: is_local_arg_def split: if_splits dest: in_set_dropD)

lemma remove_local_subseq: "subseq (remove_local args) args"
proof (induction args rule: remove_local.induct)
  case (2 arg args)
  have "subseq (remove_local (drop 1 args)) args" if "arg \<in> set LocalArgsWithValues"
    using 2(1) [OF that] suffix_drop [of 1 args] by (meson subseq_order.trans suffix_imp_subseq)
  then show ?case using 2(2,3) by (auto intro: list_emb.list_emb_Cons)
qed simp

lemma output_not_local:
  assumes "inp = [] \<or> is_input inp" and "e \<in> {''.s'', ''.o''}"
  shows "\<not> is_local_arg (ReplaceExtension inp e)"
proof
  assume "is_local_arg (ReplaceExtension inp e)"
  from local_arg_dash [OF this] obtain c r where
    out: "ReplaceExtension inp e = CHR ''-'' # c # r" "c \<noteq> CHR ''.''"
    by (cases "ReplaceExtension inp e" rule: dash_arg.cases) auto
  obtain stem where stem: "inp = stem @ Ext inp" "ReplaceExtension inp e = stem @ e"
    using ReplaceExtension_stem [of inp] by metis
  have "stem \<noteq> []" using out(1) stem(2) assms(2) by auto
  then have "hd inp = CHR ''-''" "inp \<noteq> []" using stem out(1) by (metis hd_append2 list.sel(1), auto)
  then have "\<not> is_option inp \<Longrightarrow> inp = ''-''" by (cases inp) (auto simp: is_option_def)
  with assms(1) \<open>inp \<noteq> []\<close> have "inp = ''-''" by (auto simp: is_input_def)
  moreover have "ReplaceExtension ''-'' e = ''-'' @ e"
    using assms(2) by (auto simp: ReplaceExtension_def Ext_def)
  ultimately show False using out assms(2) by auto
qed



end
