(* ===== verification/ArgsRewrite.thy ===== *)
theory ArgsRewrite
  imports ArgsParse Paths
begin

text \<open>
  Properties of the operations of \<open>src/pkg/cc/args.go\<close> that rewrite a parsed command: replacing the
  action, expanding the options for the preprocessor, and the output of a link command.
\<close>

section \<open>Replacing the action\<close>

lemma replace_action_ok:
  assumes "indexes_ok ap" and "map_of (ap_FlagIndexMap ap) old = Some i" and "IsActionOpt old" and "IsActionOpt opt"
    and "\<forall>f. IsActionOpt f \<longrightarrow> map_of (ap_FlagIndexMap ap) f \<noteq> None \<longrightarrow> f = old"
  shows "\<exists>ap'. replace_action opt i old ap = Return ap' \<and> i < length (ap_Args ap) \<and> ap_Args ap ! i = old \<and>
           ap_Args ap' = (ap_Args ap)[i := opt] \<and> indexes_ok ap' \<and>
           (\<forall>f. IsActionOpt f \<longrightarrow> (map_of (ap_FlagIndexMap ap') f \<noteq> None \<longleftrightarrow> f = opt))"
proof -
  from assms(1-3) have i: "i < length (ap_Args ap)" "ap_Args ap ! i = old" unfolding indexes_ok_def by blast+
  define ap' where "ap' = ap\<lparr>ap_Args := (ap_Args ap)[i := opt],
    ap_FlagIndexMap := AList.update opt i (AList.delete old (ap_FlagIndexMap ap))\<rparr>"
  have flags: "map_of (ap_FlagIndexMap ap') f = (if f = opt then Some i else None)" if "IsActionOpt f" for f
    using that assms(5) by (auto simp: ap'_def update_conv' delete_conv')
  have no: "\<not> is_input old" "old \<noteq> ''-o''" using assms(3) by (auto simp: actions is_input_def is_option_def)
  have nth: "j < length (ap_Args ap) \<Longrightarrow> ap_Args ap ! j \<noteq> old \<Longrightarrow> ap_Args ap' ! j = ap_Args ap ! j" for j
    using i by (cases "j = i") (auto simp: ap'_def)
  have same: "ap_InputArgIndex ap' = ap_InputArgIndex ap" "ap_OutputArgIndex ap' = ap_OutputArgIndex ap"
    "length (ap_Args ap') = length (ap_Args ap)" by (simp_all add: ap'_def)
  have "indexes_ok ap'"
    unfolding indexes_ok_def same
  proof (intro conjI)
    show "ap_InputArgIndex ap = -1 \<or>
        (\<exists>j<length (ap_Args ap). ap_InputArgIndex ap = int j \<and> is_input (ap_Args ap' ! j))"
      using assms(1) nth no(1) unfolding indexes_ok_def by metis
    show "ap_OutputArgIndex ap = -1 \<or>
        (\<exists>j. Suc j < length (ap_Args ap) \<and> ap_OutputArgIndex ap = int (Suc j) \<and> ap_Args ap' ! j = ''-o'')"
      using assms(1) nth no(2) unfolding indexes_ok_def by (metis Suc_lessD)
    show "\<forall>f j. IsActionOpt f \<longrightarrow> map_of (ap_FlagIndexMap ap') f = Some j \<longrightarrow>
        j < length (ap_Args ap) \<and> ap_Args ap' ! j = f"
      using flags i by (auto simp: ap'_def)
  qed
  moreover have "replace_action opt i old ap = Return ap'" using i(1) by (simp add: replace_action_def ap'_def)
  ultimately show ?thesis using flags i by (auto simp: ap'_def)
qed

lemma action_distinct:
  "Compile \<noteq> GenAssembly" "Compile \<noteq> Preprocess" "GenAssembly \<noteq> Preprocess"
  "GenAssembly \<noteq> Compile" "Preprocess \<noteq> Compile" "Preprocess \<noteq> GenAssembly"
  by (simp_all add: actions)

text \<open>On a parsed command with exactly one of the actions \<open>-c\<close>, \<open>-S\<close> and \<open>-E\<close>, \<open>SetActionOpt\<close>
  succeeds, replaces that one argument, the new action is then the one \<open>ActionOpt\<close> reports, and all
  recorded indexes stay valid.\<close>

theorem SetActionOpt_replaces:
  assumes "Parse ap0 = Return ap" and "IsActionOpt old" and "IsActionOpt opt"
    and "\<forall>f. IsActionOpt f \<longrightarrow> (map_of (ap_FlagIndexMap ap) f \<noteq> None \<longleftrightarrow> f = old)"
  shows "\<exists>ap' i. SetActionOpt opt ap = Return ap' \<and> i < length (ap_Args ap) \<and> ap_Args ap ! i = old \<and>
           ap_Args ap' = (ap_Args ap)[i := opt] \<and> GetActionOpt ap' = opt \<and> indexes_ok ap'"
proof -
  from assms(2,4) obtain i where i: "map_of (ap_FlagIndexMap ap) old = Some i" by blast
  have "\<forall>f. IsActionOpt f \<longrightarrow> map_of (ap_FlagIndexMap ap) f \<noteq> None \<longrightarrow> f = old" using assms(4) by blast
  from replace_action_ok [OF Parse_indexes_ok [OF assms(1)] i assms(2,3) this] obtain ap' where
    ap': "replace_action opt i old ap = Return ap'" "i < length (ap_Args ap)" "ap_Args ap ! i = old"
      "ap_Args ap' = (ap_Args ap)[i := opt]" "indexes_ok ap'"
      "\<forall>f. IsActionOpt f \<longrightarrow> (map_of (ap_FlagIndexMap ap') f \<noteq> None \<longleftrightarrow> f = opt)" by blast
  have act: "IsActionOpt Compile" "IsActionOpt GenAssembly" "IsActionOpt Preprocess" by (simp_all add: IsActionOpt_def)
  have "f \<noteq> old \<Longrightarrow> IsActionOpt f \<Longrightarrow> map_of (ap_FlagIndexMap ap) f = None" for f using assms(4) by auto
  note none = this [OF _ act(1)] this [OF _ act(2)] this [OF _ act(3)]
  have "SetActionOpt opt ap = replace_action opt i old ap"
    using assms(2) i none action_distinct unfolding IsActionOpt_def SetActionOpt_def by (elim disjE) simp_all
  moreover have "GetActionOpt ap' = opt"
    using assms(3) ap'(6) act action_distinct unfolding GetActionOpt_def by (auto simp: IsActionOpt_def [of opt])
  ultimately show ?thesis using ap' by auto
qed

theorem SetActionOpt_replaces_witness:
  "\<exists>ap ap'. Parse (NewArgParser [''-c'', ''a.c'']) = Return ap \<and> SetActionOpt Preprocess ap = Return ap' \<and>
     ap_Args ap' = [''-E'', ''a.c'', ''-o'', ''a.o''] \<and> GetActionOpt ap' = Preprocess"
proof -
  let ?p = "NewArgParser [''-c'', ''a.c'']"
  have r: "(case Parse ?p of Return q \<Rightarrow> ap_Args q = [''-c'', ''a.c'', ''-o'', ''a.o''] \<and> ap_FlagIndexMap q = [(''-c'', 0)]
     | _ \<Rightarrow> False)" by code_simp
  then obtain ap where ap: "Parse ?p = Return ap" by (auto split: outcome.splits)
  with r have args: "ap_Args ap = [''-c'', ''a.c'', ''-o'', ''a.o'']" "ap_FlagIndexMap ap = [(''-c'', 0)]" by auto
  have "IsActionOpt Compile" "IsActionOpt Preprocess" by (simp_all add: IsActionOpt_def)
  moreover have "\<forall>f. IsActionOpt f \<longrightarrow> (map_of (ap_FlagIndexMap ap) f \<noteq> None \<longleftrightarrow> f = Compile)"
    using args(2) by (auto simp: actions)
  ultimately obtain ap' i where s: "SetActionOpt Preprocess ap = Return ap'" "i < length (ap_Args ap)"
    "ap_Args ap ! i = Compile" "ap_Args ap' = (ap_Args ap)[i := Preprocess]" "GetActionOpt ap' = Preprocess"
    using SetActionOpt_replaces [OF ap, of Compile Preprocess] by blast
  have "i < 4" "[''-c'', ''a.c'', ''-o'', ''a.o''] ! i = ''-c''" using s(2,3) args(1) by (simp_all add: Compile_def)
  then have "i = 0" by (auto simp: less_Suc_eq numeral_eq_Suc)
  with s args ap show ?thesis by (auto simp: Preprocess_def)
qed

section \<open>Preprocessor options\<close>

lemma expand_wp_parts:
  "expand_wp parts = Some out \<Longrightarrow> a \<in> set out \<Longrightarrow> a \<in> set parts \<or> a = ''-MF''"
proof (induction parts arbitrary: out)
  case (Cons p ps)
  show ?case
  proof (cases "expand_wp ps")
    case None
    with Cons.prems show ?thesis by (auto split: if_splits list.splits)
  next
    case (Some out')
    with Cons.prems(1) have "out = p # out' \<or> out = p # ''-MF'' # out'"
      by (cases ps) (auto split: if_splits)
    with Cons Some show ?thesis by auto
  qed
qed simp

lemma expand_args_append:
  "expand_args (xs @ ys) =
     (case expand_args xs of None \<Rightarrow> None | Some xs' \<Rightarrow> map_option ((@) xs') (expand_args ys))"
  by (induction xs) (auto split: option.splits simp: map_option_case)

lemma expand_args_no_wp:
  "expand_args args = Some out \<Longrightarrow> a \<in> set out \<Longrightarrow> \<not> HasPrefix a ''-Wp,''"
proof (induction args arbitrary: out)
  case (Cons x xs)
  show ?case
  proof (cases "HasPrefix x ''-Wp''")
    case False
    then have "\<not> HasPrefix x ''-Wp,''" using HasPrefix_trans [of x "''-Wp,''" "''-Wp''"] by auto
    with False Cons show ?thesis by (auto simp: map_option_case split: option.splits)
  next
    case True
    from Cons.prems(1) True obtain w out' where w: "expand_wp (tl (Split (CHR '','') x)) = Some w"
      and out': "expand_args xs = Some out'" "out = w @ out'" by (auto split: option.splits)
    have "CHR '','' \<notin> set p" if "p \<in> set (tl (Split (CHR '','') x))" for p
      using that Split_components by (metis list.set_sel(2) Split_not_Nil)
    then have "CHR '','' \<notin> set b" if "b \<in> set w" for b using expand_wp_parts [OF w that] by auto
    then have "\<not> HasPrefix b ''-Wp,''" if "b \<in> set w" for b using that by (force simp: HasPrefix_iff_prefix prefix_def)
    with Cons out' show ?thesis by auto
  qed
qed simp

text \<open>\<open>ConfigurePreprocessorOptions\<close> expands \<open>-Wp\<close> options. Wherever it stands, an argument
  \<open>-Wp,-MD,path\<close> becomes the three arguments \<open>-MD -MF path\<close> in place, and no argument that starts
  with \<open>-Wp,\<close> is left.\<close>

theorem expand_args_dependency:
  assumes "CHR '','' \<notin> set path" and "path \<noteq> []" and "hd path \<noteq> CHR ''-''"
    and "expand_args xs = Some xs'" and "expand_args ys = Some ys'"
  shows "expand_args (xs @ (''-Wp,-MD,'' @ path) # ys) = Some (xs' @ [''-MD'', ''-MF'', path] @ ys') \<and>
         (\<forall>a\<in>set (xs' @ [''-MD'', ''-MF'', path] @ ys'). \<not> HasPrefix a ''-Wp,'')"
proof -
  have "tl (Split (CHR '','') (''-Wp,-MD,'' @ path)) = [''-MD'', path]"
    using assms(1) by (simp add: Split_no_sep)
  moreover have "expand_wp [''-MD'', path] = Some [''-MD'', ''-MF'', path]"
    using assms(2,3) by simp
  ultimately have "expand_args ((''-Wp,-MD,'' @ path) # ys) = Some ([''-MD'', ''-MF'', path] @ ys')"
    using assms(5) by (simp del: Split.simps expand_wp.simps)
  then have e: "expand_args (xs @ (''-Wp,-MD,'' @ path) # ys) = Some (xs' @ [''-MD'', ''-MF'', path] @ ys')"
    using assms(4) by (simp add: expand_args_append)
  from expand_args_no_wp [OF this] e show ?thesis by blast
qed

theorem expand_args_dependency_witness:
  "expand_args ([''-c''] @ (''-Wp,-MD,'' @ ''dep/a.d'') # [''a.c'']) = Some ([''-c''] @ [''-MD'', ''-MF'', ''dep/a.d''] @ [''a.c''])"
  using expand_args_dependency [of "''dep/a.d''" "[''-c'']" "[''-c'']" "[''a.c'']" "[''a.c'']"] by simp

section \<open>Link commands\<close>

text \<open>A command that links is sent to an agent when the name of its output has an extension other
  than \<open>.o\<close>: only an output without an extension is taken for an executable. The result of this
  command is a shared library, but it is marked as a remote compilation without \<open>-c\<close> or \<open>-S\<close>.\<close>

theorem link_marked_remote:
  "(case Parse (NewArgParser [''-shared'', ''foo.c'', ''-o'', ''libfoo.so'']) of
      Return ap \<Rightarrow> CanRunRemote ap \<and> GetActionOpt ap = NoAction \<and> SetActionOpt Preprocess ap = Fail (Error ''No -c -S or -E args found'')
    | _ \<Rightarrow> False)"
  by code_simp

end
