(* ===== verification/Types.thy ===== *)
theory Types
  imports Prelude
begin

text \<open>
  The shared message types and their helpers: \<open>src/pkg/types/functions.go\<close>, \<open>component.go\<close>,
  \<open>enum.go\<close>, \<open>loghelpers.go\<close> and the hash server of \<open>src/pkg/util/hash.go\<close>. What an object writes
  to a hasher is a byte string; the digest itself is a parameter.
\<close>

section \<open>Toolchains and keys\<close>

datatype ToolchainKind = Kind_Unknown | Gnu | Clang | TestToolchain | Sleep

datatype ToolchainLang = Lang_Unknown | Lang_C | Lang_CXX | Lang_Multi

record Toolchain =
  tc_Kind :: ToolchainKind
  tc_Lang :: ToolchainLang
  tc_Executable :: string
  tc_TargetArch :: string
  tc_Version :: string
  tc_PicDefault :: bool
  tc_PieDefault :: bool

fun ToolchainKind_name :: "ToolchainKind \<Rightarrow> string" where
  "ToolchainKind_name Kind_Unknown = ''ToolchainKind_Unknown''"
| "ToolchainKind_name Gnu = ''ToolchainKind_Gnu''"
| "ToolchainKind_name Clang = ''ToolchainKind_Clang''"
| "ToolchainKind_name TestToolchain = ''ToolchainKind_Test''"
| "ToolchainKind_name Sleep = ''ToolchainKind_Sleep''"

fun ToolchainLang_name :: "ToolchainLang \<Rightarrow> string" where
  "ToolchainLang_name Lang_Unknown = ''ToolchainLang_Unknown''"
| "ToolchainLang_name Lang_C = ''ToolchainLang_C''"
| "ToolchainLang_name Lang_CXX = ''ToolchainLang_CXX''"
| "ToolchainLang_name Lang_Multi = ''ToolchainLang_Multi''"

definition EquivalentTo :: "Toolchain \<Rightarrow> Toolchain \<Rightarrow> bool" where
  "EquivalentTo tc other =
     (tc_Kind tc = tc_Kind other \<and> tc_Lang tc = tc_Lang other \<and>
      tc_TargetArch tc = tc_TargetArch other \<and> tc_Version tc = tc_Version other)"

record Key =
  key_Bucket :: string
  key_Name :: string

definition Canonical :: "Key \<Rightarrow> string" where
  "Canonical k = key_Bucket k @ ''.'' @ key_Name k"

definition ErrInvalidFormat :: go_error where
  "ErrInvalidFormat = Error ''Invalid key format, should be of the form bucket.name''"

definition ParseKey :: "string \<Rightarrow> Key outcome" where
  "ParseKey canonical =
     (case SplitN2 (CHR ''.'') canonical of
        [b, n] \<Rightarrow> Return \<lparr>key_Bucket = b, key_Name = n\<rparr>
      | _ \<Rightarrow> Fail ErrInvalidFormat)"

fun CommonNames :: "Toolchain \<Rightarrow> string list" where
  "CommonNames tc =
     (case tc_Kind tc of
        Clang \<Rightarrow>
          (case tc_Lang tc of
             Lang_C \<Rightarrow> [''clang''] | Lang_CXX \<Rightarrow> [''clang++''] | Lang_Multi \<Rightarrow> [''clang'', ''clang++''] | _ \<Rightarrow> [])
      | Gnu \<Rightarrow>
          (case tc_Lang tc of
             Lang_C \<Rightarrow> [''gcc'', ''cc''] | Lang_CXX \<Rightarrow> [''g++'', ''c++'']
           | Lang_Multi \<Rightarrow> [''gcc'', ''cc'', ''g++'', ''c++''] | _ \<Rightarrow> [])
      | _ \<Rightarrow> [])"

section \<open>Hashes\<close>

definition Toolchain_Hash :: "Toolchain \<Rightarrow> bytes" where
  "Toolchain_Hash tc =
     tc_TargetArch tc @ ToolchainKind_name (tc_Kind tc) @ ToolchainLang_name (tc_Lang tc) @ tc_Version tc"

record CompileRequest =
  cr_RequestID :: string
  cr_Toolchain :: "Toolchain option"
  cr_Args :: "string list"
  cr_PreprocessedSource :: bytes
  cr_ManagedFields :: "string option"   \<comment> \<open>the computed hash, once set\<close>

text \<open>A request without a toolchain panics.\<close>

definition CompileRequest_Hash :: "CompileRequest \<Rightarrow> bytes outcome" where
  "CompileRequest_Hash req =
     (case cr_Toolchain req of
        None \<Rightarrow> Panic
      | Some tc \<Rightarrow> Return (Toolchain_Hash tc @ cr_PreprocessedSource req @ concat (cr_Args req)))"

definition hex_digit :: "nat \<Rightarrow> char" where
  "hex_digit n = (if n < 10 then char_of (48 + n) else char_of (87 + n))"

definition EncodeToString :: "bytes \<Rightarrow> string" where
  "EncodeToString bs = concat (map (\<lambda>c. [hex_digit (of_char c div 16), hex_digit (of_char c mod 16)]) bs)"

definition HashServer_Hash :: "(bytes \<Rightarrow> bytes) \<Rightarrow> bytes outcome \<Rightarrow> string outcome" where
  "HashServer_Hash md5 written = map_outcome (\<lambda>w. EncodeToString (md5 w)) written"

section \<open>Compile responses\<close>

datatype RetryAction = Retry_Unknown | Retry | DoNotRetry

datatype CompileResult = Res_Success | Res_Fail | Res_InternalError | Res_Defunct | Res_Retry

datatype CompileData = D_None | D_Error string | D_CompiledSource bytes | D_RetryAction RetryAction

record CompileResponse =
  cs_RequestID :: string
  cs_CompileResult :: CompileResult
  cs_CpuSecondsUsed :: int
  cs_Data :: CompileData

section \<open>Components\<close>

datatype Component =
    Comp_Unknown | Agent | Scheduler | Controller | Consumer | Consumerd | Make | TestComponent
  | Dashboard | CLI | Monitor | Cache

fun Component_Name :: "Component \<Rightarrow> string" where
  "Component_Name Agent = ''Agent''"
| "Component_Name Scheduler = ''Scheduler''"
| "Component_Name Controller = ''Controller''"
| "Component_Name Consumer = ''Consumer''"
| "Component_Name Consumerd = ''Consumerd''"
| "Component_Name Make = ''Make''"
| "Component_Name CLI = ''CLI''"
| "Component_Name Monitor = ''Monitor''"
| "Component_Name Dashboard = ''Dashboard''"
| "Component_Name Cache = ''Cache''"
| "Component_Name TestComponent = ''Test''"
| "Component_Name Comp_Unknown = ''Unknown''"

fun Component_ShortName :: "Component \<Rightarrow> string" where
  "Component_ShortName Agent = ''agent''"
| "Component_ShortName Scheduler = ''sched''"
| "Component_ShortName Controller = ''contr''"
| "Component_ShortName Consumer = ''consu''"
| "Component_ShortName Consumerd = ''consd''"
| "Component_ShortName Make = ''$make''"
| "Component_ShortName CLI = ''cli''"
| "Component_ShortName Monitor = ''monit''"
| "Component_ShortName Dashboard = ''dashb''"
| "Component_ShortName Cache = ''cache''"
| "Component_ShortName TestComponent = ''testc''"
| "Component_ShortName Comp_Unknown = ''<unk>''"

datatype Color = Magenta | Yellow | Red | Green | NoColor | Blue | Cyan | White

fun Component_Color :: "Component \<Rightarrow> Color" where
  "Component_Color Agent = Magenta"
| "Component_Color Scheduler = Yellow"
| "Component_Color Cache = Red"
| "Component_Color Consumerd = Green"
| "Component_Color Make = NoColor"
| "Component_Color CLI = Blue"
| "Component_Color Monitor = Cyan"
| "Component_Color TestComponent = White"
| "Component_Color Consumer = White"
| "Component_Color Dashboard = White"
| "Component_Color Controller = White"
| "Component_Color Comp_Unknown = NoColor"

datatype ElideLocation = ElideCenter | ElideLeft | ElideRight

text \<open>\<open>FormatShortID\<close>: whether a string parses as a UUID is decided by the \<open>uuid\<close> package, a
  parameter. A slice out of range panics.\<close>

definition FormatShortID :: "(string \<Rightarrow> bool) \<Rightarrow> string \<Rightarrow> nat \<Rightarrow> ElideLocation \<Rightarrow> string outcome" where
  "FormatShortID is_uuid i len elide =
     (if \<not> is_uuid i then Return i
      else case elide of
             ElideCenter \<Rightarrow>
               if len div 2 \<le> length i
               then Return (take (len div 2) i @ ''..'' @ drop (length i - len div 2) i) else Panic
           | ElideLeft \<Rightarrow>
               if len \<le> Suc (length i) \<and> 1 \<le> len
               then Return (''..'' @ drop (length i + 1 - len) i) else Panic
           | ElideRight \<Rightarrow> if len \<le> length i then Return (take len i @ ''..'') else Panic)"

definition Key_ShortID :: "(string \<Rightarrow> bool) \<Rightarrow> Key \<Rightarrow> string outcome" where
  "Key_ShortID is_uuid k =
     (case FormatShortID is_uuid (key_Bucket k) 6 ElideCenter of
        Return s \<Rightarrow> Return (s @ ''.'' @ key_Name k)
      | r \<Rightarrow> r)"

section \<open>Facts\<close>

lemma EquivalentTo_refl [simp]: "EquivalentTo tc tc"
  by (simp add: EquivalentTo_def)

lemma EquivalentTo_sym: "EquivalentTo tc tc' \<Longrightarrow> EquivalentTo tc' tc"
  by (simp add: EquivalentTo_def)

lemma EquivalentTo_trans: "EquivalentTo a b \<Longrightarrow> EquivalentTo b c \<Longrightarrow> EquivalentTo a c"
  by (simp add: EquivalentTo_def)

lemma Toolchain_Hash_equiv: "EquivalentTo tc tc' \<Longrightarrow> Toolchain_Hash tc = Toolchain_Hash tc'"
  by (simp add: EquivalentTo_def Toolchain_Hash_def)

section \<open>Properties\<close>

text \<open>The canonical form of a key parses back to the key exactly when its bucket has no dot, and
  every string that parses is the canonical form of the key it parses to.\<close>

theorem ParseKey_Canonical:
  "(ParseKey (Canonical k) = Return k \<longleftrightarrow> CHR ''.'' \<notin> set (key_Bucket k)) \<and>
   (ParseKey s = Return k' \<longrightarrow> Canonical k' = s)"
proof (intro conjI)
  have sound: "ParseKey s = Return k \<Longrightarrow> s = Canonical k \<and> CHR ''.'' \<notin> set (key_Bucket k)" for s k
    by (auto simp: ParseKey_def Canonical_def split: list.splits dest!: SplitN2_two)
  show "ParseKey (Canonical k) = Return k \<longleftrightarrow> CHR ''.'' \<notin> set (key_Bucket k)"
    using sound [of "Canonical k" k] by (auto simp: ParseKey_def Canonical_def SplitN2_append)
  show "ParseKey s = Return k' \<longrightarrow> Canonical k' = s" using sound by auto
qed

theorem ParseKey_Canonical_witness:
  "ParseKey ''bucket.name.x'' = Return \<lparr>key_Bucket = ''bucket'', key_Name = ''name.x''\<rparr> \<and>
   Canonical \<lparr>key_Bucket = ''bucket'', key_Name = ''name.x''\<rparr> = ''bucket.name.x''"
proof -
  have "ParseKey ''bucket.name.x'' = Return \<lparr>key_Bucket = ''bucket'', key_Name = ''name.x''\<rparr>" by code_simp
  with ParseKey_Canonical [of _ "''bucket.name.x''" "\<lparr>key_Bucket = ''bucket'', key_Name = ''name.x''\<rparr>"]
  show ?thesis by blast
qed

definition gcc :: "string \<Rightarrow> Toolchain" where
  "gcc exe = \<lparr>tc_Kind = Gnu, tc_Lang = Lang_C, tc_Executable = exe, tc_TargetArch = ''x86_64'', tc_Version = ''10'',
     tc_PicDefault = True, tc_PieDefault = False\<rparr>"

text \<open>The hash of a request depends on the toolchain only up to equivalence, so agents whose
  compilers live elsewhere share cache entries; but the parts are written without separators, so
  requests that differ in where one argument ends and the next begins have the same hash, whatever
  the digest, and share a cache entry too.\<close>

theorem request_hash:
  "(EquivalentTo tc tc' \<longrightarrow>
      HashServer_Hash md5 (CompileRequest_Hash (req\<lparr>cr_Toolchain := Some tc\<rparr>)) =
      HashServer_Hash md5 (CompileRequest_Hash (req\<lparr>cr_Toolchain := Some tc'\<rparr>))) \<and>
   HashServer_Hash md5 (CompileRequest_Hash (req\<lparr>cr_Args := [''-x'', ''c'', ''-O1'']\<rparr>)) =
   HashServer_Hash md5 (CompileRequest_Hash (req\<lparr>cr_Args := [''-xc-O1'']\<rparr>))"
  by (auto simp: CompileRequest_Hash_def HashServer_Hash_def Toolchain_Hash_equiv split: option.split)

theorem request_hash_witness:
  "EquivalentTo (gcc ''/usr/bin/gcc'') (gcc ''/opt/gcc'') \<and>
   HashServer_Hash id (CompileRequest_Hash (\<lparr>cr_RequestID = ''1'', cr_Toolchain = Some (gcc ''/usr/bin/gcc''), cr_Args = [''-c''], cr_PreprocessedSource = ''int x;'', cr_ManagedFields = None\<rparr>)) =
   HashServer_Hash id (CompileRequest_Hash (\<lparr>cr_RequestID = ''1'', cr_Toolchain = Some (gcc ''/opt/gcc''), cr_Args = [''-c''], cr_PreprocessedSource = ''int x;'', cr_ManagedFields = None\<rparr>))"
proof -
  let ?r = "\<lparr>cr_RequestID = ''1'', cr_Toolchain = Some (gcc ''/opt/gcc''), cr_Args = [''-c''], cr_PreprocessedSource = ''int x;'', cr_ManagedFields = None\<rparr>"
  have e: "EquivalentTo (gcc ''/usr/bin/gcc'') (gcc ''/opt/gcc'')" by (simp add: EquivalentTo_def gcc_def)
  with request_hash [of "gcc ''/usr/bin/gcc''" "gcc ''/opt/gcc''" id ?r] show ?thesis by simp
qed

end
