(* ===== verification/Router.thy ===== *)
theory Router
  imports Transitions Types "HOL-Library.AList"
begin

text \<open>
  \<open>src/pkg/scheduler/router.go\<close>: the routes from consumer daemons to agents, one per toolchain hash.
  Routes are objects that goroutines keep references to after they have left the map, so the state
  holds a list of route objects and the map holds indexes into it. The goroutines are part of the
  state: the watchers that \<open>attachSender\<close> starts and the loops that \<open>attachReceiver\<close> starts, each
  with the route it belongs to and, for a loop, the request it holds for its agent. Every function
  below is one atomic step of one goroutine. The digest is a parameter.
\<close>

section \<open>Model\<close>

definition ErrNoAgents :: go_error where
  "ErrNoAgents = Error ''No available agents can run this task''"

definition ErrStreamClosed :: go_error where
  "ErrStreamClosed = Error ''Task stream closed''"

definition ErrRequestRejected :: go_error where
  "ErrRequestRejected = Error ''The task has been rejected by the server''"

definition ErrInvalidToolchain :: go_error where
  "ErrInvalidToolchain = Error ''Invalid or nil toolchain''"

record route =
  rt_tc :: Toolchain
  rt_hash :: bytes
  rt_closed :: bool
  rt_rxRefCount :: int
  rt_txRefCount :: int
  rt_senders :: "string list"
  rt_receivers :: "string list"
  rt_canceled :: bool

record rx_loop =
  rl_route :: nat
  rl_agent :: string
  rl_tc :: Toolchain
  rl_item :: "CompileRequest option"

record tx_watch =
  tw_route :: nat
  tw_cd :: string

record Router =
  r_senders :: "(string \<times> Toolchain list) list"
  r_receivers :: "(string \<times> Toolchain list) list"
  r_routes :: "(bytes \<times> nat) list"
  r_objs :: "route list"
  r_rx :: "rx_loop list"
  r_tx :: "tx_watch list"
  r_blocked :: "(CompileRequest \<times> nat) list"

definition NewRouter :: Router where
  "NewRouter =
     \<lparr>r_senders = [], r_receivers = [], r_routes = [], r_objs = [], r_rx = [], r_tx = [], r_blocked = []\<rparr>"

definition CanSend :: "route \<Rightarrow> bool" where
  "CanSend rt = (rt_rxRefCount rt > 0)"

definition tcHash :: "(bytes \<Rightarrow> bytes) \<Rightarrow> Toolchain \<Rightarrow> bytes" where
  "tcHash md5 tc = md5 (Toolchain_Hash tc)"

definition upd_route :: "nat \<Rightarrow> (route \<Rightarrow> route) \<Rightarrow> Router \<Rightarrow> Router" where
  "upd_route i f r = r\<lparr>r_objs := (r_objs r)[i := f (r_objs r ! i)]\<rparr>"

definition cancel_route :: "nat \<Rightarrow> Router \<Rightarrow> Router" where
  "cancel_route i = upd_route i (\<lambda>rt. rt\<lparr>rt_canceled := True\<rparr>)"

definition incRxRefCount :: "route \<Rightarrow> route" where
  "incRxRefCount rt = rt\<lparr>rt_rxRefCount := rt_rxRefCount rt + 1\<rparr>"

definition decRxRefCount :: "route \<Rightarrow> route" where
  "decRxRefCount rt =
     (let rt1 = rt\<lparr>rt_rxRefCount := rt_rxRefCount rt - 1\<rparr>
      in if rt_rxRefCount rt1 \<le> 0 \<and> rt_txRefCount rt1 \<le> 0 then rt1\<lparr>rt_canceled := True\<rparr> else rt1)"

definition incTxRefCount :: "route \<Rightarrow> route" where
  "incTxRefCount rt = rt\<lparr>rt_txRefCount := rt_txRefCount rt + 1\<rparr>"

definition decTxRefCount :: "route \<Rightarrow> route" where
  "decTxRefCount rt =
     (let rt1 = rt\<lparr>rt_txRefCount := rt_txRefCount rt - 1\<rparr>
      in if rt_txRefCount rt1 \<le> 0 \<and> rt_rxRefCount rt1 \<le> 0 then rt1\<lparr>rt_canceled := True\<rparr> else rt1)"

definition newRoute :: "Toolchain \<Rightarrow> bytes \<Rightarrow> route" where
  "newRoute tc h =
     \<lparr>rt_tc = tc, rt_hash = h, rt_closed = False, rt_rxRefCount = 0, rt_txRefCount = 0,
      rt_senders = [], rt_receivers = [], rt_canceled = False\<rparr>"

definition routeForToolchain :: "(bytes \<Rightarrow> bytes) \<Rightarrow> Toolchain \<Rightarrow> Router \<Rightarrow> nat \<times> Router" where
  "routeForToolchain md5 tc r =
     (let h = tcHash md5 tc
      in case map_of (r_routes r) h of
           Some i \<Rightarrow> (i, r)
         | None \<Rightarrow>
             (length (r_objs r),
              r\<lparr>r_routes := AList.update h (length (r_objs r)) (r_routes r),
                r_objs := r_objs r @ [newRoute tc h]\<rparr>))"

definition attachSender :: "string \<Rightarrow> nat \<Rightarrow> Router \<Rightarrow> Router" where
  "attachSender uuid i r =
     (upd_route i (\<lambda>rt. incTxRefCount (rt\<lparr>rt_senders := List.insert uuid (rt_senders rt)\<rparr>)) r)
       \<lparr>r_tx := r_tx r @ [\<lparr>tw_route = i, tw_cd = uuid\<rparr>]\<rparr>"

definition attachReceiver :: "string \<Rightarrow> Toolchain \<Rightarrow> nat \<Rightarrow> Router \<Rightarrow> Router" where
  "attachReceiver uuid tc i r =
     (upd_route i (\<lambda>rt. incRxRefCount (rt\<lparr>rt_receivers := List.insert uuid (rt_receivers rt)\<rparr>)) r)
       \<lparr>r_rx := r_rx r @ [\<lparr>rl_route = i, rl_agent = uuid, rl_tc = tc, rl_item = None\<rparr>]\<rparr>"

text \<open>The watcher of a sender ends when the daemon's context is done; the loop of a receiver ends
  when the agent's context is done or its channel is closed, if it holds no request.\<close>

definition sender_done :: "nat \<Rightarrow> Router \<Rightarrow> Router" where
  "sender_done j r =
     (let w = r_tx r ! j
      in (upd_route (tw_route w)
            (\<lambda>rt. (decTxRefCount rt)\<lparr>rt_senders := removeAll (tw_cd w) (rt_senders rt)\<rparr>) r)
           \<lparr>r_tx := take j (r_tx r) @ drop (Suc j) (r_tx r)\<rparr>)"

definition receiver_done :: "nat \<Rightarrow> Router \<Rightarrow> Router" where
  "receiver_done j r =
     (let l = r_rx r ! j
      in (upd_route (rl_route l)
            (\<lambda>rt. (decRxRefCount rt)\<lparr>rt_receivers := removeAll (rl_agent l) (rt_receivers rt)\<rparr>) r)
           \<lparr>r_rx := take j (r_rx r) @ drop (Suc j) (r_rx r)\<rparr>)"

text \<open>The goroutine of \<open>newRoute\<close>, after the route was canceled.\<close>

definition route_cleanup :: "nat \<Rightarrow> Router \<Rightarrow> Router" where
  "route_cleanup i r =
     (upd_route i (\<lambda>rt. rt\<lparr>rt_closed := True\<rparr>) r)
       \<lparr>r_routes := AList.delete (rt_hash (r_objs r ! i)) (r_routes r)\<rparr>"

fun add_sender_routes :: "(bytes \<Rightarrow> bytes) \<Rightarrow> string \<Rightarrow> Toolchain list \<Rightarrow> Router \<Rightarrow> Router" where
  "add_sender_routes md5 uuid [] r = r"
| "add_sender_routes md5 uuid (tc # tcs) r =
     (let (i, r1) = routeForToolchain md5 tc r in add_sender_routes md5 uuid tcs (attachSender uuid i r1))"

definition AddSender :: "(bytes \<Rightarrow> bytes) \<Rightarrow> string \<Rightarrow> Toolchain list \<Rightarrow> Router \<Rightarrow> Router" where
  "AddSender md5 uuid tcs r =
     add_sender_routes md5 uuid tcs (r\<lparr>r_senders := AList.update uuid tcs (r_senders r)\<rparr>)"

fun add_receiver_routes :: "(bytes \<Rightarrow> bytes) \<Rightarrow> string \<Rightarrow> Toolchain list \<Rightarrow> Router \<Rightarrow> Router" where
  "add_receiver_routes md5 uuid [] r = r"
| "add_receiver_routes md5 uuid (tc # tcs) r =
     (let (i, r1) = routeForToolchain md5 tc r in add_receiver_routes md5 uuid tcs (attachReceiver uuid tc i r1))"

definition AddReceiver :: "(bytes \<Rightarrow> bytes) \<Rightarrow> string \<Rightarrow> Toolchain list \<Rightarrow> Router \<Rightarrow> Router" where
  "AddReceiver md5 uuid tcs r =
     add_receiver_routes md5 uuid tcs (r\<lparr>r_receivers := AList.update uuid tcs (r_receivers r)\<rparr>)"

text \<open>\<open>UpdateSenderToolchains\<close>. The routes of the toolchains that are gone are canceled. The
  attachments of the new ones are deferred to the end of the function, and the deferred closures
  share the loop variable, so each of them attaches to the route of the last toolchain of the new
  list.\<close>

fun cancel_gone :: "(bytes \<Rightarrow> bytes) \<Rightarrow> Toolchain list \<Rightarrow> Toolchain list \<Rightarrow> Router \<Rightarrow> Router" where
  "cancel_gone md5 [] newTcs r = r"
| "cancel_gone md5 (oldTc # olds) newTcs r =
     (if list_ex (EquivalentTo oldTc) newTcs then cancel_gone md5 olds newTcs r
      else let (i, r1) = routeForToolchain md5 oldTc r in cancel_gone md5 olds newTcs (cancel_route i r1))"

fun run_deferred :: "(bytes \<Rightarrow> bytes) \<Rightarrow> string \<Rightarrow> Toolchain \<Rightarrow> nat \<Rightarrow> Router \<Rightarrow> Router" where
  "run_deferred md5 uuid tc 0 r = r"
| "run_deferred md5 uuid tc (Suc n) r =
     (let (i, r1) = routeForToolchain md5 tc r in run_deferred md5 uuid tc n (attachSender uuid i r1))"

definition UpdateSenderToolchains ::
    "(bytes \<Rightarrow> bytes) \<Rightarrow> string \<Rightarrow> Toolchain list \<Rightarrow> Router \<Rightarrow> Router" where
  "UpdateSenderToolchains md5 uuid newTcs r =
     (case map_of (r_senders r) uuid of
        None \<Rightarrow> r
      | Some oldTcs \<Rightarrow>
          let r1 = cancel_gone md5 oldTcs newTcs r;
              isNew = (\<lambda>newTc. \<not> list_ex (EquivalentTo newTc) oldTcs);
              r2 = r1\<lparr>r_senders := AList.update uuid newTcs (r_senders r1)\<rparr>
          in run_deferred md5 uuid (last newTcs) (length (filter isNew newTcs)) r2)"

text \<open>\<open>Route\<close> up to its last select: an error, the verdict of a hook, or a call that waits to send on
  the channel of the route. The hooks return one of three actions.\<close>

datatype HookAction = ProcessRequestNormally | RejectRequest | RequestIntercepted

datatype route_result = Route_Blocked | Route_Err go_error | Route_Handled

definition Route :: "(bytes \<Rightarrow> bytes) \<Rightarrow> HookAction list \<Rightarrow> CompileRequest \<Rightarrow> Router \<Rightarrow> route_result \<times> Router" where
  "Route md5 verdicts req r =
     (case cr_Toolchain req of
        None \<Rightarrow> (Route_Err ErrInvalidToolchain, r)
      | Some tc \<Rightarrow>
          let (i, r1) = routeForToolchain md5 tc r
          in case dropWhile (\<lambda>v. v = ProcessRequestNormally) verdicts of
               RejectRequest # _ \<Rightarrow> (Route_Err ErrRequestRejected, r1)
             | RequestIntercepted # _ \<Rightarrow> (Route_Handled, r1)
             | _ \<Rightarrow> if rt_rxRefCount (r_objs r1 ! i) = 0 then (Route_Err ErrNoAgents, r1)
                    else (Route_Blocked, r1\<lparr>r_blocked := r_blocked r1 @ [(req, i)]\<rparr>))"

text \<open>The context of the \<open>k\<close>-th waiting call is done: the call leaves with an error.\<close>

definition route_give_up :: "nat \<Rightarrow> Router \<Rightarrow> Router" where
  "route_give_up k r = r\<lparr>r_blocked := take k (r_blocked r) @ drop (Suc k) (r_blocked r)\<rparr>"

text \<open>The loop \<open>j\<close> receives the request of the waiting call \<open>k\<close>, and later hands it to its agent.\<close>

definition rx_take :: "nat \<Rightarrow> nat \<Rightarrow> Router \<Rightarrow> Router" where
  "rx_take j k r =
     (route_give_up k r)\<lparr>r_rx := (r_rx r)[j := (r_rx r ! j)\<lparr>rl_item := Some (fst (r_blocked r ! k))\<rparr>]\<rparr>"

definition rx_hand_over :: "nat \<Rightarrow> Router \<Rightarrow> Router" where
  "rx_hand_over j r = r\<lparr>r_rx := (r_rx r)[j := (r_rx r ! j)\<lparr>rl_item := None\<rparr>]\<rparr>"

record RouteInfo =
  ri_Toolchain :: Toolchain
  ri_Consumerds :: "string list"
  ri_Agents :: "string list"

definition GetRoutes :: "Router \<Rightarrow> RouteInfo list" where
  "GetRoutes r =
     map (\<lambda>(h, i). let rt = r_objs r ! i in
       \<lparr>ri_Toolchain = rt_tc rt, ri_Consumerds = rt_senders rt, ri_Agents = rt_receivers rt\<rparr>) (r_routes r)"

section \<open>Runs\<close>

datatype router_event =
    R_AddSender string "Toolchain list"
  | R_AddReceiver string "Toolchain list"
  | R_Update string "Toolchain list"
  | R_SenderDone nat
  | R_ReceiverDone nat
  | R_Cleanup nat
  | R_Route "HookAction list" CompileRequest
  | R_GiveUp nat
  | R_Take nat nat
  | R_HandOver nat

fun router_step :: "(bytes \<Rightarrow> bytes) \<Rightarrow> router_event \<Rightarrow> Router \<Rightarrow> Router option" where
  "router_step md5 (R_AddSender uuid tcs) r = Some (AddSender md5 uuid tcs r)"
| "router_step md5 (R_AddReceiver uuid tcs) r = Some (AddReceiver md5 uuid tcs r)"
| "router_step md5 (R_Update uuid tcs) r = Some (UpdateSenderToolchains md5 uuid tcs r)"
| "router_step md5 (R_SenderDone j) r = (if j < length (r_tx r) then Some (sender_done j r) else None)"
| "router_step md5 (R_ReceiverDone j) r =
     (if j < length (r_rx r) \<and> rl_item (r_rx r ! j) = None then Some (receiver_done j r) else None)"
| "router_step md5 (R_Cleanup i) r =
     (if i < length (r_objs r) \<and> rt_canceled (r_objs r ! i) \<and> \<not> rt_closed (r_objs r ! i)
      then Some (route_cleanup i r) else None)"
| "router_step md5 (R_Route verdicts req) r = Some (snd (Route md5 verdicts req r))"
| "router_step md5 (R_GiveUp k) r = (if k < length (r_blocked r) then Some (route_give_up k r) else None)"
| "router_step md5 (R_Take j k) r =
     (if j < length (r_rx r) \<and> k < length (r_blocked r) \<and> snd (r_blocked r ! k) = rl_route (r_rx r ! j) \<and>
         rl_item (r_rx r ! j) = None \<and> \<not> rt_closed (r_objs r ! rl_route (r_rx r ! j))
      then Some (rx_take j k r) else None)"
| "router_step md5 (R_HandOver j) r =
     (if j < length (r_rx r) \<and> rl_item (r_rx r ! j) \<noteq> None then Some (rx_hand_over j r) else None)"

abbreviation router_run :: "(bytes \<Rightarrow> bytes) \<Rightarrow> router_event list \<Rightarrow> Router \<Rightarrow> Router option" where
  "router_run md5 \<equiv> run_events (router_step md5)"

inductive r_reachable :: "(bytes \<Rightarrow> bytes) \<Rightarrow> Router \<Rightarrow> bool" for md5 where
  r_init: "r_reachable md5 NewRouter"
| r_step: "r_reachable md5 r \<Longrightarrow> router_step md5 ev r = Some r' \<Longrightarrow> r_reachable md5 r'"

interpretation router_sys: transition_system "router_step md5" "\<lambda>r. r = NewRouter" "r_reachable md5" for md5
proof (unfold_locales, goal_cases)
  case (3 s P)
  then show ?case by (induction rule: r_reachable.induct) blast+
qed (auto intro: r_init r_step)

lemmas r_reachable_run = router_sys.run_reach

section \<open>Invariant\<close>

definition rx_count :: "Router \<Rightarrow> nat \<Rightarrow> int" where
  "rx_count r i = int (length (filter (\<lambda>l. rl_route l = i) (r_rx r)))"

definition tx_count :: "Router \<Rightarrow> nat \<Rightarrow> int" where
  "tx_count r i = int (length (filter (\<lambda>w. tw_route w = i) (r_tx r)))"

definition counts_ok :: "Router \<Rightarrow> bool" where
  "counts_ok r \<longleftrightarrow>
     (\<forall>i<length (r_objs r). rt_rxRefCount (r_objs r ! i) = rx_count r i \<and>
                            rt_txRefCount (r_objs r ! i) = tx_count r i) \<and>
     (\<forall>l\<in>set (r_rx r). rl_route l < length (r_objs r)) \<and>
     (\<forall>w\<in>set (r_tx r). tw_route w < length (r_objs r))"

definition routes_ok :: "Router \<Rightarrow> bool" where
  "routes_ok r \<longleftrightarrow>
     (\<forall>h i. map_of (r_routes r) h = Some i \<longrightarrow>
        i < length (r_objs r) \<and> rt_hash (r_objs r ! i) = h \<and> \<not> rt_closed (r_objs r ! i))"

definition hashes_ok :: "(bytes \<Rightarrow> bytes) \<Rightarrow> Router \<Rightarrow> bool" where
  "hashes_ok md5 r \<longleftrightarrow>
     (\<forall>l\<in>set (r_rx r). tcHash md5 (rl_tc l) = rt_hash (r_objs r ! rl_route l)) \<and>
     (\<forall>(req, i)\<in>set (r_blocked r). i < length (r_objs r) \<and>
        map_option (tcHash md5) (cr_Toolchain req) = Some (rt_hash (r_objs r ! i))) \<and>
     (\<forall>l\<in>set (r_rx r). \<forall>req. rl_item l = Some req \<longrightarrow>
        map_option (tcHash md5) (cr_Toolchain req) = Some (rt_hash (r_objs r ! rl_route l)))"

definition router_inv :: "(bytes \<Rightarrow> bytes) \<Rightarrow> Router \<Rightarrow> bool" where
  "router_inv md5 r \<longleftrightarrow> counts_ok r \<and> routes_ok r \<and> hashes_ok md5 r"

lemmas inv_defs = router_inv_def counts_ok_def routes_ok_def hashes_ok_def rx_count_def tx_count_def

lemma router_inv_init: "router_inv md5 NewRouter"
  by (simp add: inv_defs NewRouter_def)

text \<open>An update of a route that keeps its counters, its hash and whether it is closed keeps the
  invariant.\<close>

lemma length_upd_route [simp]: "length (r_objs (upd_route i f r)) = length (r_objs r)"
  by (simp add: upd_route_def)

lemma upd_route_nth: "i < length (r_objs r) \<Longrightarrow>
    r_objs (upd_route i f r) ! j = (if i = j then f (r_objs r ! i) else r_objs r ! j)"
  by (auto simp: upd_route_def)

lemma upd_route_same [simp]:
  "r_rx (upd_route i f r) = r_rx r" "r_tx (upd_route i f r) = r_tx r" "r_routes (upd_route i f r) = r_routes r"
  "r_blocked (upd_route i f r) = r_blocked r" "r_senders (upd_route i f r) = r_senders r"
  "r_receivers (upd_route i f r) = r_receivers r"
  by (simp_all add: upd_route_def)

lemma cancel_route_inv:
  assumes "router_inv md5 r" and "i < length (r_objs r)"
  shows "router_inv md5 (cancel_route i r)"
  using assms by (auto simp: inv_defs cancel_route_def upd_route_nth)

lemma routeForToolchain_inv:
  assumes "router_inv md5 r" and "routeForToolchain md5 tc r = (i, r')"
  shows "router_inv md5 r'" and "i < length (r_objs r')" and "rt_hash (r_objs r' ! i) = tcHash md5 tc"
    and "\<not> rt_closed (r_objs r' ! i)"
proof -
  show "i < length (r_objs r')" "rt_hash (r_objs r' ! i) = tcHash md5 tc" "\<not> rt_closed (r_objs r' ! i)"
    using assms by (auto simp: routeForToolchain_def Let_def inv_defs newRoute_def split: option.splits)
  show "router_inv md5 r'"
  proof (cases "map_of (r_routes r) (tcHash md5 tc)")
    case None

    have fresh: "filter (\<lambda>l. rl_route l = length (r_objs r)) (r_rx r) = []"
      "filter (\<lambda>w. tw_route w = length (r_objs r)) (r_tx r) = []"
      using assms(1) by (auto simp: inv_defs filter_empty_conv)
    have "r' = r\<lparr>r_routes := AList.update (tcHash md5 tc) (length (r_objs r)) (r_routes r),
        r_objs := r_objs r @ [newRoute tc (tcHash md5 tc)]\<rparr>"
      using assms(2) None by (auto simp: routeForToolchain_def Let_def)
    then show ?thesis
      using assms(1) fresh None unfolding inv_defs
      by (auto simp: update_conv' nth_append newRoute_def less_Suc_eq split: if_splits)
  qed (use assms in \<open>auto simp: routeForToolchain_def Let_def\<close>)
qed

lemma attachSender_inv:
  assumes "router_inv md5 r" and "i < length (r_objs r)"
  shows "router_inv md5 (attachSender uuid i r)"
  using assms by (auto simp: inv_defs attachSender_def upd_route_nth incTxRefCount_def split: if_splits)

lemma attachReceiver_inv:
  assumes "router_inv md5 r" and "i < length (r_objs r)" and "rt_hash (r_objs r ! i) = tcHash md5 tc"
  shows "router_inv md5 (attachReceiver uuid tc i r)"
  using assms by (auto simp: inv_defs attachReceiver_def upd_route_nth incRxRefCount_def split: if_splits)

lemma remove_nth_filter:
  assumes "j < length xs"
  shows "length (filter P xs) = length (filter P (take j xs @ drop (Suc j) xs)) + (if P (xs ! j) then 1 else 0)"
  by (subst id_take_nth_drop [OF assms]) simp

lemma remove_nth_set: "x \<in> set (take j xs @ drop (Suc j) xs) \<Longrightarrow> x \<in> set xs"
  by (auto dest: in_set_takeD in_set_dropD)

lemma sender_done_inv:
  assumes "router_inv md5 r" and "j < length (r_tx r)"
  shows "router_inv md5 (sender_done j r)"
proof -
  have i: "tw_route (r_tx r ! j) < length (r_objs r)" using assms by (auto simp: inv_defs)
  have cnt: "length (filter (\<lambda>w. tw_route w = k) (r_tx r)) =
      length (filter (\<lambda>w. tw_route w = k) (take j (r_tx r) @ drop (Suc j) (r_tx r))) +
      (if tw_route (r_tx r ! j) = k then 1 else 0)" for k by (rule remove_nth_filter [OF assms(2)])
  show ?thesis
    using assms(1) i unfolding inv_defs
    by (auto simp: sender_done_def Let_def upd_route_nth decTxRefCount_def cnt dest: remove_nth_set
        simp del: filter_append set_append)
qed

lemma receiver_done_inv:
  assumes "router_inv md5 r" and "j < length (r_rx r)"
  shows "router_inv md5 (receiver_done j r)"
proof -
  have i: "rl_route (r_rx r ! j) < length (r_objs r)" using assms by (auto simp: inv_defs)
  have cnt: "length (filter (\<lambda>l. rl_route l = k) (r_rx r)) =
      length (filter (\<lambda>l. rl_route l = k) (take j (r_rx r) @ drop (Suc j) (r_rx r))) +
      (if rl_route (r_rx r ! j) = k then 1 else 0)" for k by (rule remove_nth_filter [OF assms(2)])
  show ?thesis
    using assms(1) i unfolding inv_defs
    by (auto simp: receiver_done_def Let_def upd_route_nth decRxRefCount_def cnt dest!: remove_nth_set
        simp del: filter_append set_append)
qed

lemma route_cleanup_inv:
  assumes "router_inv md5 r" and "i < length (r_objs r)"
  shows "router_inv md5 (route_cleanup i r)"
  using assms unfolding inv_defs
  by (auto simp: route_cleanup_def upd_route_nth delete_conv' split: if_splits)

lemma add_sender_routes_inv:
  "router_inv md5 r \<Longrightarrow> router_inv md5 (add_sender_routes md5 uuid tcs r)"
proof (induction md5 uuid tcs r rule: add_sender_routes.induct)
  case (2 md5 uuid tc tcs r)
  obtain i r1 where r1: "routeForToolchain md5 tc r = (i, r1)" by force
  from routeForToolchain_inv [OF 2(2) r1] attachSender_inv 2(1) [OF r1 [symmetric] refl] r1
  show ?case by simp
qed simp

lemma add_receiver_routes_inv:
  "router_inv md5 r \<Longrightarrow> router_inv md5 (add_receiver_routes md5 uuid tcs r)"
proof (induction md5 uuid tcs r rule: add_receiver_routes.induct)
  case (2 md5 uuid tc tcs r)
  obtain i r1 where r1: "routeForToolchain md5 tc r = (i, r1)" by force
  from routeForToolchain_inv [OF 2(2) r1] attachReceiver_inv 2(1) [OF r1 [symmetric] refl] r1
  show ?case by simp
qed simp

lemma cancel_gone_inv: "router_inv md5 r \<Longrightarrow> router_inv md5 (cancel_gone md5 olds news r)"
proof (induction olds arbitrary: r)
  case (Cons tc tcs)
  obtain i r1 where r1: "routeForToolchain md5 tc r = (i, r1)" by force
  from routeForToolchain_inv [OF Cons.prems r1] cancel_route_inv Cons r1 show ?case by simp
qed simp

lemma run_deferred_inv: "router_inv md5 r \<Longrightarrow> router_inv md5 (run_deferred md5 uuid tc n r)"
proof (induction n arbitrary: r)
  case (Suc n)
  obtain i r1 where r1: "routeForToolchain md5 tc r = (i, r1)" by force
  from routeForToolchain_inv [OF Suc.prems r1] attachSender_inv Suc r1 show ?case by simp
qed simp

lemma router_inv_maps [simp]:
  "router_inv md5 (r\<lparr>r_senders := x\<rparr>) = router_inv md5 r"
  "router_inv md5 (r\<lparr>r_receivers := x\<rparr>) = router_inv md5 r"
  by (simp_all add: inv_defs)

lemma Route_inv:
  assumes "router_inv md5 r"
  shows "router_inv md5 (snd (Route md5 verdicts req r))"
proof (cases "cr_Toolchain req")
  case None
  then show ?thesis using assms by (simp add: Route_def)
next
  case (Some tc)
  obtain i r1 where r1: "routeForToolchain md5 tc r = (i, r1)" by force
  note i = routeForToolchain_inv [OF assms r1]
  have "router_inv md5 (r1\<lparr>r_blocked := r_blocked r1 @ [(req, i)]\<rparr>)"
    using i Some by (auto simp: inv_defs)
  then show ?thesis
    using Some r1 i(1) by (auto simp: Route_def Let_def split: list.splits HookAction.splits)
qed

lemma route_give_up_inv: "router_inv md5 r \<Longrightarrow> router_inv md5 (route_give_up k r)"
  unfolding inv_defs by (auto simp: route_give_up_def dest!: in_set_takeD in_set_dropD)

lemma filter_list_update:
  assumes "j < length xs" and "P y = P (xs ! j)"
  shows "length (filter P (xs[j := y])) = length (filter P xs)"
  using assms remove_nth_filter [OF assms(1), of P] by (simp add: upd_conv_take_nth_drop)

lemma rx_update_inv:
  assumes "router_inv md5 r" and "j < length (r_rx r)"
    and "\<forall>req. it = Some req \<longrightarrow> map_option (tcHash md5) (cr_Toolchain req) = Some (rt_hash (r_objs r ! rl_route (r_rx r ! j)))"
  shows "router_inv md5 (r\<lparr>r_rx := (r_rx r)[j := (r_rx r ! j)\<lparr>rl_item := it\<rparr>]\<rparr>)"
proof -
  have cnt: "length (filter (\<lambda>l. rl_route l = k) ((r_rx r)[j := (r_rx r ! j)\<lparr>rl_item := it\<rparr>])) =
      length (filter (\<lambda>l. rl_route l = k) (r_rx r))" for k
    by (rule filter_list_update [OF assms(2)]) simp
  show ?thesis
    using assms unfolding inv_defs
    by (auto simp: cnt dest!: set_update_subset_insert [THEN subsetD])
qed

lemma router_step_inv:
  assumes "router_step md5 ev r = Some r'" and "router_inv md5 r"
  shows "router_inv md5 r'"
proof (cases ev)
  case (R_Take j k)
  with assms(1) have g: "j < length (r_rx r)" "k < length (r_blocked r)" "snd (r_blocked r ! k) = rl_route (r_rx r ! j)"
    and r': "r' = rx_take j k r" by (auto split: if_splits)
  have "map_option (tcHash md5) (cr_Toolchain (fst (r_blocked r ! k))) = Some (rt_hash (r_objs r ! rl_route (r_rx r ! j)))"
    using assms(2) nth_mem [OF g(2)] g(3) by (cases "r_blocked r ! k") (auto simp: inv_defs)
  with rx_update_inv [OF route_give_up_inv [OF assms(2)]] g r' show ?thesis
    by (simp add: rx_take_def route_give_up_def)
next
  case (R_HandOver j)
  with assms show ?thesis using rx_update_inv [OF assms(2), of j None] by (auto simp: rx_hand_over_def split: if_splits)
next
  case (R_Update uuid tcs)
  with assms show ?thesis
    by (auto simp: UpdateSenderToolchains_def Let_def run_deferred_inv cancel_gone_inv split: option.splits)
qed (use assms in \<open>auto simp: AddSender_def AddReceiver_def add_sender_routes_inv add_receiver_routes_inv
      sender_done_inv receiver_done_inv route_cleanup_inv Route_inv route_give_up_inv split: if_splits\<close>)

lemma r_reachable_inv: "r_reachable md5 r \<Longrightarrow> router_inv md5 r"
  by (erule router_sys.invariant) (auto intro: router_inv_init router_step_inv)

section \<open>Properties\<close>

text \<open>C3: the reference counts are exact. In every reachable state, whatever the order of
  connections, disconnections, cancellations, requests and updates, the counters of every route
  object are the numbers of loops and of watchers attached to it, and the map leads from each hash
  to an open route of that hash.\<close>

theorem router_refcounts:
  assumes "r_reachable md5 r" and "i < length (r_objs r)"
  shows "rt_rxRefCount (r_objs r ! i) = rx_count r i \<and> rt_txRefCount (r_objs r ! i) = tx_count r i \<and>
         (\<forall>h. map_of (r_routes r) h = Some i \<longrightarrow> rt_hash (r_objs r ! i) = h \<and> \<not> rt_closed (r_objs r ! i))"
  using r_reachable_inv [OF assms(1)] assms(2) by (auto simp: router_inv_def counts_ok_def routes_ok_def)

definition other_request :: "string \<Rightarrow> CompileRequest" where
  "other_request i = \<lparr>cr_RequestID = i, cr_Toolchain = Some (gcc ''/opt/gcc''), cr_Args = [''-c''], cr_PreprocessedSource = ''x'', cr_ManagedFields = None\<rparr>"

definition connected :: "router_event list" where
  "connected = [R_AddReceiver ''agent'' [gcc ''/usr/bin/gcc''], R_AddSender ''cd1'' [gcc ''/usr/bin/gcc''],
     R_AddSender ''cd2'' [gcc ''/opt/gcc'']]"

theorem router_refcounts_witness:
  "\<exists>r. router_run id connected NewRouter = Some r \<and> rt_rxRefCount (r_objs r ! 0) = 1 \<and> rt_txRefCount (r_objs r ! 0) = 2"
proof -
  have c: "map_option (\<lambda>r. (length (r_objs r), rx_count r 0, tx_count r 0)) (router_run id connected NewRouter) = Some (1, 1, 2)"
    by code_simp
  then obtain r where r: "router_run id connected NewRouter = Some r" "length (r_objs r) = 1" "rx_count r 0 = 1" "tx_count r 0 = 2"
    by (auto simp: map_option_case split: option.splits)
  have "r_reachable id r" by (rule r_reachable_run [OF r_reachable.r_init r(1)])
  from router_refcounts [OF this, of 0] r show ?thesis by auto
qed

text \<open>C10: a request only reaches agents that have its toolchain. In every reachable state, a request
  that a loop holds for an agent has a toolchain with the hash of the toolchain the agent was
  attached for, and so does a request that waits on a route.\<close>

theorem router_delivers_to_matching:
  assumes "r_reachable md5 r" and "l \<in> set (r_rx r)" and "rl_item l = Some req"
  shows "\<exists>tc. cr_Toolchain req = Some tc \<and> tcHash md5 tc = tcHash md5 (rl_tc l)"
proof -
  have "hashes_ok md5 r" using r_reachable_inv [OF assms(1)] by (simp add: router_inv_def)
  with assms(2,3) have "tcHash md5 (rl_tc l) = rt_hash (r_objs r ! rl_route l)"
    and "map_option (tcHash md5) (cr_Toolchain req) = Some (rt_hash (r_objs r ! rl_route l))"
    by (auto simp: hashes_ok_def)
  then show ?thesis by auto
qed

definition delivering :: "router_event list" where
  "delivering = connected @ [R_Route [] (other_request ''q1''), R_Take 0 0]"

theorem router_delivers_to_matching_witness:
  "\<exists>r l. router_run id delivering NewRouter = Some r \<and> l \<in> set (r_rx r) \<and> rl_item l = Some (other_request ''q1'') \<and>
     tcHash id (gcc ''/opt/gcc'') = tcHash id (rl_tc l)"
proof -
  have "map_option (\<lambda>r. map rl_item (r_rx r)) (router_run id delivering NewRouter) = Some [Some (other_request ''q1'')]"
    by code_simp
  then obtain r l where r: "router_run id delivering NewRouter = Some r" "r_rx r = [l]" "rl_item l = Some (other_request ''q1'')"
    by (auto simp: map_option_case split: option.splits)
  then have l: "l \<in> set (r_rx r)" by simp
  have "r_reachable id r" by (rule r_reachable_run [OF r_reachable.r_init r(1)])
  from router_delivers_to_matching [OF this l r(3)] r l show ?thesis by (auto simp: other_request_def)
qed

text \<open>Dropping a toolchain cuts off other daemons. When a daemon stops advertising a toolchain, the
  route is canceled although other daemons and an agent are attached to it; its clean-up closes it
  for the agent, which is not attached anew. A request of another daemon that still has the
  toolchain then fails for lack of agents, with the agent connected.\<close>

theorem update_cuts_off_others:
  "(case router_run id (connected @ [R_Update ''cd1'' [], R_Cleanup 0, R_ReceiverDone 0]) NewRouter of
      Some r \<Rightarrow> map_of (r_receivers r) ''agent'' = Some [gcc ''/usr/bin/gcc''] \<and>
        map_of (r_senders r) ''cd2'' = Some [gcc ''/opt/gcc''] \<and>
        fst (Route id [] (other_request ''q2'') r) = Route_Err ErrNoAgents
    | None \<Rightarrow> False)"
  by code_simp

definition clang :: Toolchain where
  "clang = (gcc ''/usr/bin/clang'')\<lparr>tc_Kind := Clang, tc_Lang := Lang_Multi\<rparr>"

definition gxx :: Toolchain where
  "gxx = (gcc ''/usr/bin/g++'')\<lparr>tc_Lang := Lang_CXX\<rparr>"

text \<open>Of several new toolchains only the last one gets the sender. The deferred attachments of
  \<open>UpdateSenderToolchains\<close> share the loop variable: adding two toolchains attaches the sender twice
  to the route of the second and never to the first.\<close>

theorem update_attaches_last:
  "(case router_run id [R_AddSender ''cd1'' [], R_Update ''cd1'' [gxx, clang]] NewRouter of
      Some r \<Rightarrow> map_of (r_routes r) (tcHash id gxx) = None \<and>
        map_option (\<lambda>i. rt_txRefCount (r_objs r ! i)) (map_of (r_routes r) (tcHash id clang)) = Some 2
    | None \<Rightarrow> False)"
  by code_simp

end
