(* ===== verification/Broker.thy ===== *)
theory Broker
  imports Transitions Router
begin

text \<open>
  \<open>src/pkg/scheduler/broker.go\<close>: the broker between consumer daemons and agents, on top of the
  router. The maps of pending and inflight requests, the goroutines that wait to send on the
  unbuffered response queue, the requeueing goroutines and the calls that wait in \<open>Route\<close> are part of
  the state; \<open>broker_step\<close> is one step of one goroutine. Requests carry unique ids, and a name
  stands for one connection of an agent or a daemon. The reply of the cache server to a lookup
  and whether a send on a stream succeeds are parts of an event. Responses that were sent to a
  daemon and objects that were pushed to the cache are kept in lists, and so are the ids of the
  requests with the daemons that sent them.
\<close>

section \<open>Model\<close>

definition MaxTokens :: nat where
  "MaxTokens = 1000"

record pendingRequest =
  pr_request :: CompileRequest
  pr_requester :: string

record inflightRequest =
  ir_pending :: pendingRequest
  ir_agent :: "string option"

text \<open>The sending goroutine of an agent: at its select, waiting for a request with a token in hand, or
  ended. With more tokens to fill in than the channel holds it never starts.\<close>

datatype send_loop = Taking | Receiving | Ended | Stuck

record agent =
  ag_available :: nat
  ag_locked :: nat
  ag_completed :: int
  ag_limit :: nat
  ag_loop :: send_loop
  ag_sent :: nat
  ag_answered :: nat

record Broker =
  b_completedTasks :: int
  b_failedTasks :: int
  b_requestCount :: int
  b_responses :: "CompileResponse list"
  b_agents :: "(string \<times> agent) list"
  b_online :: "string list"
  b_consumerds :: "(string \<times> int) list"
  b_connected :: "string list"
  b_updated :: "string list"
  b_router :: Router
  b_calls :: "RetryAction list"
  b_pending :: "(string \<times> pendingRequest) list"
  b_inflight :: "(string \<times> inflightRequest) list"
  b_requeue :: "(string \<times> CompileRequest) list"
  b_sent :: "(string \<times> CompileResponse) list"
  b_pushed :: "(string \<times> bytes) list"
  b_submitted :: "(string \<times> string) list"
  b_hasCache :: bool
  b_cacheAvailable :: bool

definition NewBroker :: "bool \<Rightarrow> Broker" where
  "NewBroker hasCache =
     \<lparr>b_completedTasks = 0, b_failedTasks = 0, b_requestCount = 0, b_responses = [], b_agents = [], b_online = [],
      b_consumerds = [], b_connected = [], b_updated = [], b_router = NewRouter, b_calls = [], b_pending = [], b_inflight = [],
      b_requeue = [], b_sent = [], b_pushed = [], b_submitted = [], b_hasCache = hasCache, b_cacheAvailable = False\<rparr>"

definition respond :: "CompileResponse \<Rightarrow> Broker \<Rightarrow> Broker" where
  "respond resp b = b\<lparr>b_responses := b_responses b @ [resp]\<rparr>"

text \<open>\<open>pendingRequests.LoadAndDelete\<close> followed by \<open>inflightRequests.Store\<close>.\<close>

definition to_inflight :: "string \<Rightarrow> string option \<Rightarrow> Broker \<Rightarrow> Broker option" where
  "to_inflight i agent b =
     (case map_of (b_pending b) i of
        None \<Rightarrow> None
      | Some pending \<Rightarrow>
          Some (b\<lparr>b_pending := AList.delete i (b_pending b),
                  b_inflight := AList.update i \<lparr>ir_pending = pending, ir_agent = agent\<rparr> (b_inflight b)\<rparr>))"

datatype cache_reply = Cache_Hit bytes | Cache_NotFound | Cache_Error

text \<open>\<open>PreReceive\<close>: the action, the request with its managed fields, and the broker. The hash is
  computed by the hash server with the digest \<open>md5\<close>.\<close>

definition PreReceive ::
    "(bytes \<Rightarrow> bytes) \<Rightarrow> cache_reply \<Rightarrow> CompileRequest \<Rightarrow> Broker \<Rightarrow> HookAction \<times> CompileRequest \<times> Broker" where
  "PreReceive md5 reply req b =
     (if \<not> b_hasCache b \<or> \<not> b_cacheAvailable b then (ProcessRequestNormally, req, b)
      else case reply of
             Cache_Hit d \<Rightarrow>
               (case to_inflight (cr_RequestID req) None b of
                  None \<Rightarrow> (ProcessRequestNormally, req, b)
                | Some b' \<Rightarrow>
                    (RequestIntercepted, req,
                     respond \<lparr>cs_RequestID = cr_RequestID req, cs_CompileResult = Res_Success,
                              cs_CpuSecondsUsed = 0, cs_Data = D_CompiledSource d\<rparr> b'))
           | Cache_NotFound \<Rightarrow>
               (case HashServer_Hash md5 (CompileRequest_Hash req) of
                  Return h \<Rightarrow>
                    let req' = req\<lparr>cr_ManagedFields := Some h\<rparr>
                    in (ProcessRequestNormally, req',
                        b\<lparr>b_pending := map (\<lambda>(i, p). (i, if i = cr_RequestID req then p\<lparr>pr_request := req'\<rparr> else p)) (b_pending b)\<rparr>)
                | _ \<Rightarrow> (ProcessRequestNormally, req, b))
           | Cache_Error \<Rightarrow> (ProcessRequestNormally, req, b))"

text \<open>The error path of \<open>routeNewRequest\<close>.\<close>

definition route_failed :: "string \<Rightarrow> RetryAction \<Rightarrow> Broker \<Rightarrow> Broker" where
  "route_failed i ifRouteFails b =
     (case to_inflight i None b of
        None \<Rightarrow> b
      | Some b' \<Rightarrow>
          respond \<lparr>cs_RequestID = i, cs_CompileResult = Res_Retry, cs_CpuSecondsUsed = 0,
                   cs_Data = D_RetryAction ifRouteFails\<rparr>
            (b'\<lparr>b_requestCount := b_requestCount b' - 1\<rparr>))"

text \<open>\<open>routeNewRequest\<close> until it returns or waits in \<open>Route\<close>. The hooks run once the route is looked
  up, for a request with a toolchain.\<close>

definition routeNewRequest ::
    "(bytes \<Rightarrow> bytes) \<Rightarrow> cache_reply \<Rightarrow> string \<Rightarrow> CompileRequest \<Rightarrow> RetryAction \<Rightarrow> Broker \<Rightarrow> Broker" where
  "routeNewRequest md5 reply cd req ifRouteFails b =
     (let b1 = b\<lparr>b_requestCount := b_requestCount b + 1,
                 b_pending := AList.update (cr_RequestID req) \<lparr>pr_request = req, pr_requester = cd\<rparr> (b_pending b)\<rparr>;
          (action, req', b2) =
            (if b_hasCache b \<and> cr_Toolchain req \<noteq> None then PreReceive md5 reply req b1
             else (ProcessRequestNormally, req, b1));
          (res, r) = Route md5 [action] req' (b_router b2);
          b3 = b2\<lparr>b_router := r\<rparr>
      in case res of
           Route_Err _ \<Rightarrow> route_failed (cr_RequestID req) ifRouteFails b3
         | Route_Handled \<Rightarrow> b3
         | Route_Blocked \<Rightarrow> b3\<lparr>b_calls := b_calls b3 @ [ifRouteFails]\<rparr>)"

text \<open>The toolchains of a new connection come from the monitor, or do not come in time.\<close>

definition toolchains_timeout :: go_error where
  "toolchains_timeout = Status DeadlineExceeded ''Timed out waiting for toolchains''"

definition NewAgentTaskStream ::
    "(bytes \<Rightarrow> bytes) \<Rightarrow> string \<Rightarrow> Toolchain list option \<Rightarrow> nat \<Rightarrow> Broker \<Rightarrow> go_error option \<times> Broker" where
  "NewAgentTaskStream md5 uuid tcChan cpuThreads b =
     (case tcChan of
        None \<Rightarrow> (Some toolchains_timeout, b)
      | Some tcs \<Rightarrow>
          (None,
           b\<lparr>b_agents := (uuid,
                \<lparr>ag_available = min cpuThreads MaxTokens, ag_locked = 0, ag_completed = 0, ag_limit = cpuThreads,
                 ag_loop = (if cpuThreads \<le> MaxTokens then Taking else Stuck), ag_sent = 0, ag_answered = 0\<rparr>) # b_agents b,
             b_online := uuid # b_online b,
             b_router := AddReceiver md5 uuid tcs (b_router b)\<rparr>))"

definition NewConsumerdTaskStream ::
    "(bytes \<Rightarrow> bytes) \<Rightarrow> string \<Rightarrow> Toolchain list option \<Rightarrow> Broker \<Rightarrow> go_error option \<times> Broker" where
  "NewConsumerdTaskStream md5 uuid tcChan b =
     (case tcChan of
        None \<Rightarrow> (Some toolchains_timeout, b)
      | Some tcs \<Rightarrow>
          (None,
           b\<lparr>b_consumerds := (uuid, 0) # b_consumerds b, b_connected := uuid # b_connected b,
             b_router := AddSender md5 uuid tcs (b_router b)\<rparr>))"

text \<open>The goroutine that \<open>NewConsumerdTaskStream\<close> starts takes one update of the toolchains and ends.\<close>

definition consumerd_update :: "(bytes \<Rightarrow> bytes) \<Rightarrow> string \<Rightarrow> Toolchain list \<Rightarrow> Broker \<Rightarrow> Broker" where
  "consumerd_update md5 uuid tcs b =
     b\<lparr>b_router := UpdateSenderToolchains md5 uuid tcs (b_router b), b_updated := uuid # b_updated b\<rparr>"

text \<open>One request that the goroutine of \<open>handleConsumerdStream\<close> receives, and a change that
  \<open>watchCacheAvailability\<close> stores.\<close>

definition handleConsumerdStream ::
    "(bytes \<Rightarrow> bytes) \<Rightarrow> cache_reply \<Rightarrow> string \<Rightarrow> CompileRequest \<Rightarrow> Broker \<Rightarrow> Broker" where
  "handleConsumerdStream md5 reply cd req b = routeNewRequest md5 reply cd req DoNotRetry b"

definition watchCacheAvailability :: "bool \<Rightarrow> Broker \<Rightarrow> Broker" where
  "watchCacheAvailability available b = b\<lparr>b_cacheAvailable := available\<rparr>"

definition upd_agent :: "string \<Rightarrow> (agent \<Rightarrow> agent) \<Rightarrow> Broker \<Rightarrow> Broker" where
  "upd_agent a f b = b\<lparr>b_agents := map (\<lambda>(u, x). (u, if u = a then f x else x)) (b_agents b)\<rparr>"

text \<open>The steps of \<open>handleAgentStream\<close>: the sending goroutine takes a token, then a request; the
  receiving goroutine takes a response and gives a token back.\<close>

definition take_token :: "agent \<Rightarrow> agent" where
  "take_token x = x\<lparr>ag_available := ag_available x - 1, ag_locked := ag_locked x + 1, ag_loop := Receiving\<rparr>"

definition agent_receive :: "string \<Rightarrow> nat \<Rightarrow> bool \<Rightarrow> Broker \<Rightarrow> Broker" where
  "agent_receive a j sendOk b =
     (case rl_item (r_rx (b_router b) ! j) of
        None \<Rightarrow> b
      | Some req \<Rightarrow>
          let b1 = b\<lparr>b_router := rx_hand_over j (b_router b)\<rparr>
          in case to_inflight (cr_RequestID req) (Some a) b1 of
               None \<Rightarrow> upd_agent a (\<lambda>x. x\<lparr>ag_loop := Taking\<rparr>) b1
             | Some b2 \<Rightarrow>
                 upd_agent a (\<lambda>x. x\<lparr>ag_loop := (if sendOk then Taking else Ended), ag_sent := ag_sent x + 1\<rparr>) b2)"

definition return_token :: "agent \<Rightarrow> agent" where
  "return_token x =
     (if ag_locked x > 0
      then x\<lparr>ag_locked := ag_locked x - 1, ag_available := ag_available x + 1,
             ag_completed := ag_completed x + 1, ag_answered := ag_answered x + 1\<rparr>
      else x\<lparr>ag_completed := ag_completed x + 1, ag_answered := ag_answered x + 1\<rparr>)"

definition agent_respond :: "string \<Rightarrow> CompileResponse \<Rightarrow> Broker \<Rightarrow> Broker" where
  "agent_respond a resp b = respond resp (upd_agent a return_token b)"

text \<open>\<open>cacheTransaction\<close>.\<close>

definition cacheTransaction :: "string \<Rightarrow> CompileResponse \<Rightarrow> Broker \<Rightarrow> Broker" where
  "cacheTransaction requestHash resp b =
     (if requestHash = '''' then b
      else b\<lparr>b_pushed := b_pushed b @
        [(requestHash, case cs_Data resp of D_CompiledSource d \<Rightarrow> d | _ \<Rightarrow> [])]\<rparr>)"

definition send_response :: "string \<Rightarrow> CompileResponse \<Rightarrow> Broker \<Rightarrow> Broker" where
  "send_response cd resp b =
     b\<lparr>b_consumerds := map (\<lambda>(u, n). (u, if u = cd then n + 1 else n)) (b_consumerds b),
       b_sent := b_sent b @ [(cd, resp)]\<rparr>"

text \<open>One iteration of \<open>handleResponseQueue\<close>, on the \<open>k\<close>-th waiting response.\<close>

definition handle_response :: "nat \<Rightarrow> Broker \<Rightarrow> Broker" where
  "handle_response k b =
     (let resp = b_responses b ! k;
          b1 = b\<lparr>b_responses := take k (b_responses b) @ drop (Suc k) (b_responses b)\<rparr>
      in case map_of (b_inflight b1) (cs_RequestID resp) of
           None \<Rightarrow> b1
         | Some ir \<Rightarrow>
             let b2 = b1\<lparr>b_inflight := AList.delete (cs_RequestID resp) (b_inflight b1),
                        b_requestCount := b_requestCount b1 + 1\<rparr>;
                 cd = pr_requester (ir_pending ir);
                 req = pr_request (ir_pending ir)
             in case cs_CompileResult resp of
                  Res_Fail \<Rightarrow> send_response cd resp (b2\<lparr>b_failedTasks := b_failedTasks b2 + 1\<rparr>)
                | Res_InternalError \<Rightarrow> send_response cd resp (b2\<lparr>b_failedTasks := b_failedTasks b2 + 1\<rparr>)
                | Res_Success \<Rightarrow>
                    (let b3 = b2\<lparr>b_completedTasks := b_completedTasks b2 + 1\<rparr>;
                         b4 = (case cr_ManagedFields req of None \<Rightarrow> b3 | Some h \<Rightarrow> cacheTransaction h resp b3)
                     in send_response cd resp b4)
                | Res_Defunct \<Rightarrow> b2\<lparr>b_requeue := b_requeue b2 @ [(cd, req)]\<rparr>
                | Res_Retry \<Rightarrow> send_response cd resp b2)"

text \<open>\<open>cleanupAgent\<close>, when the stream of an agent is done.\<close>

definition defunct :: "string \<Rightarrow> CompileResponse" where
  "defunct i = \<lparr>cs_RequestID = i, cs_CompileResult = Res_Defunct, cs_CpuSecondsUsed = 0,
     cs_Data = D_Error ''The agent handling this task is no longer available.''\<rparr>"

definition cleanupAgent :: "string \<Rightarrow> Broker \<Rightarrow> Broker" where
  "cleanupAgent a b =
     b\<lparr>b_responses := b_responses b @
         map (\<lambda>x. defunct (fst x)) (filter (\<lambda>x. ir_agent (snd x) = Some a) (b_inflight b)),
       b_online := removeAll a (b_online b)\<rparr>"

record taskStats =
  ts_completedTotal :: int
  ts_failedTotal :: int
  ts_requestsTotal :: int

definition TaskStats :: "Broker \<Rightarrow> taskStats" where
  "TaskStats b = \<lparr>ts_completedTotal = b_completedTasks b, ts_failedTotal = b_failedTasks b, ts_requestsTotal = b_requestCount b\<rparr>"

definition CalcAgentStats :: "Broker \<Rightarrow> (string \<times> int) list" where
  "CalcAgentStats b = map (\<lambda>(u, x). (u, ag_completed x)) (filter (\<lambda>(u, x). u \<in> set (b_online b)) (b_agents b))"

definition CalcConsumerdStats :: "Broker \<Rightarrow> (string \<times> int) list" where
  "CalcConsumerdStats b = filter (\<lambda>(u, n). u \<in> set (b_connected b)) (b_consumerds b)"

definition calcPreferredUsageLimits :: "Broker \<Rightarrow> int" where
  "calcPreferredUsageLimits b =
     (\<Sum>(u, x)\<leftarrow>filter (\<lambda>(u, x). u \<in> set (b_online b)) (b_agents b). int (ag_limit x))"

definition GetAgent :: "string \<Rightarrow> Broker \<Rightarrow> agent option" where
  "GetAgent uuid b = (if uuid \<in> set (b_online b) then map_of (b_agents b) uuid else None)"

section \<open>Runs\<close>

datatype broker_event =
    B_NewAgent string "Toolchain list option" nat
  | B_NewConsumerd string "Toolchain list option"
  | B_Request cache_reply string CompileRequest     \<comment> \<open>a daemon sends a request\<close>
  | B_Requeue cache_reply nat                       \<comment> \<open>a requeueing goroutine runs\<close>
  | B_GiveUp nat                                    \<comment> \<open>the context of a waiting call is done\<close>
  | B_Take nat nat                                  \<comment> \<open>a loop takes a waiting request\<close>
  | B_TakeToken string
  | B_AgentReceive string nat bool
  | B_AgentRespond string CompileResponse
  | B_HandleResponse nat
  | B_AgentGone string
  | B_ReceiverDone nat
  | B_SenderDone nat
  | B_Cleanup nat
  | B_Update string "Toolchain list"
  | B_ConsumerdGone string
  | B_CacheAvailable bool

definition in_router :: "(bytes \<Rightarrow> bytes) \<Rightarrow> router_event \<Rightarrow> Broker \<Rightarrow> Broker option" where
  "in_router md5 ev b = map_option (\<lambda>r. b\<lparr>b_router := r\<rparr>) (router_step md5 ev (b_router b))"

text \<open>An agent answers at most the requests it was sent; a send to an agent that is gone fails.\<close>

fun broker_step :: "(bytes \<Rightarrow> bytes) \<Rightarrow> broker_event \<Rightarrow> Broker \<Rightarrow> Broker option" where
  "broker_step md5 (B_NewAgent uuid tcs n) b =
     (if uuid \<in> fst ` set (b_agents b) then None else Some (snd (NewAgentTaskStream md5 uuid tcs n b)))"
| "broker_step md5 (B_NewConsumerd uuid tcs) b =
     (if uuid \<in> fst ` set (b_consumerds b) then None else Some (snd (NewConsumerdTaskStream md5 uuid tcs b)))"
| "broker_step md5 (B_Request reply cd req) b =
     (if cd \<in> set (b_connected b) \<and> cr_RequestID req \<notin> fst ` set (b_submitted b)
      then Some (handleConsumerdStream md5 reply cd req (b\<lparr>b_submitted := (cr_RequestID req, cd) # b_submitted b\<rparr>))
      else None)"
| "broker_step md5 (B_Requeue reply k) b =
     (if k < length (b_requeue b)
      then Some (routeNewRequest md5 reply (fst (b_requeue b ! k)) (snd (b_requeue b ! k)) Retry
             (b\<lparr>b_requeue := take k (b_requeue b) @ drop (Suc k) (b_requeue b)\<rparr>))
      else None)"
| "broker_step md5 (B_GiveUp k) b =
     (if k < length (r_blocked (b_router b))
      then Some (route_failed (cr_RequestID (fst (r_blocked (b_router b) ! k))) (b_calls b ! k)
             (b\<lparr>b_router := route_give_up k (b_router b),
                b_calls := take k (b_calls b) @ drop (Suc k) (b_calls b)\<rparr>))
      else None)"
| "broker_step md5 (B_Take j k) b =
     map_option (\<lambda>b'. b'\<lparr>b_calls := take k (b_calls b) @ drop (Suc k) (b_calls b)\<rparr>) (in_router md5 (R_Take j k) b)"
| "broker_step md5 (B_TakeToken a) b =
     (case map_of (b_agents b) a of
        None \<Rightarrow> None
      | Some x \<Rightarrow> if ag_loop x = Taking \<and> ag_available x > 0 then Some (upd_agent a take_token b) else None)"
| "broker_step md5 (B_AgentReceive a j sendOk) b =
     (case map_of (b_agents b) a of
        None \<Rightarrow> None
      | Some x \<Rightarrow>
          if ag_loop x = Receiving \<and> j < length (r_rx (b_router b)) \<and> rl_agent (r_rx (b_router b) ! j) = a \<and>
             rl_item (r_rx (b_router b) ! j) \<noteq> None \<and> (sendOk \<longrightarrow> a \<in> set (b_online b))
          then Some (agent_receive a j sendOk b) else None)"
| "broker_step md5 (B_AgentRespond a resp) b =
     (case map_of (b_agents b) a of
        None \<Rightarrow> None
      | Some x \<Rightarrow>
          if a \<in> set (b_online b) \<and> ag_answered x < ag_sent x then Some (agent_respond a resp b) else None)"
| "broker_step md5 (B_HandleResponse k) b =
     (if k < length (b_responses b) then Some (handle_response k b) else None)"
| "broker_step md5 (B_AgentGone a) b = (if a \<in> set (b_online b) then Some (cleanupAgent a b) else None)"
| "broker_step md5 (B_ReceiverDone j) b =
     (let l = r_rx (b_router b) ! j
      in if j < length (r_rx (b_router b)) \<and>
            (rl_agent l \<notin> set (b_online b) \<or> rt_closed (r_objs (b_router b) ! rl_route l))
         then in_router md5 (R_ReceiverDone j) b else None)"
| "broker_step md5 (B_SenderDone j) b =
     (if j < length (r_tx (b_router b)) \<and> tw_cd (r_tx (b_router b) ! j) \<notin> set (b_connected b)
      then in_router md5 (R_SenderDone j) b else None)"
| "broker_step md5 (B_Cleanup i) b = in_router md5 (R_Cleanup i) b"
| "broker_step md5 (B_Update uuid tcs) b =
     (if uuid \<in> set (b_connected b) \<and> uuid \<notin> set (b_updated b) then Some (consumerd_update md5 uuid tcs b) else None)"
| "broker_step md5 (B_ConsumerdGone cd) b =
     (if cd \<in> set (b_connected b) then Some (b\<lparr>b_connected := removeAll cd (b_connected b)\<rparr>) else None)"
| "broker_step md5 (B_CacheAvailable v) b = Some (watchCacheAvailability v b)"

abbreviation broker_run :: "(bytes \<Rightarrow> bytes) \<Rightarrow> broker_event list \<Rightarrow> Broker \<Rightarrow> Broker option" where
  "broker_run md5 \<equiv> run_events (broker_step md5)"

inductive b_reachable :: "(bytes \<Rightarrow> bytes) \<Rightarrow> Broker \<Rightarrow> bool" for md5 where
  b_init: "b_reachable md5 (NewBroker hasCache)"
| b_step: "b_reachable md5 b \<Longrightarrow> broker_step md5 ev b = Some b' \<Longrightarrow> b_reachable md5 b'"

interpretation broker_sys: transition_system "broker_step md5" "\<lambda>b. \<exists>hasCache. b = NewBroker hasCache" "b_reachable md5" for md5
proof (unfold_locales, goal_cases)
  case (3 s P)
  then show ?case by (induction rule: b_reachable.induct) blast+
qed (auto intro: b_init b_step)

lemmas b_reachable_run = broker_sys.run_reach

end
