(* ===== verification/BrokerInv.thy ===== *)
theory BrokerInv
  imports Broker "HOL-Library.Multiset"
begin

text \<open>
  The invariant of the broker: every submitted request is in one place, a request that an agent may
  take is pending, and the tokens of an agent add up.
\<close>

declare handleConsumerdStream_def [simp] watchCacheAvailability_def [simp]

section \<open>Requests in the router\<close>

definition held :: "Router \<Rightarrow> string list" where
  "held r = map (\<lambda>l. cr_RequestID (the (rl_item l))) (filter (\<lambda>l. rl_item l \<noteq> None) (r_rx r))"

text \<open>The ids of the requests that wait in a call of \<open>Route\<close> or are held for an agent.\<close>

definition traffic :: "Router \<Rightarrow> string multiset" where
  "traffic r = mset (map (\<lambda>x. cr_RequestID (fst x)) (r_blocked r)) + mset (held r)"

lemma traffic_routeForToolchain: "routeForToolchain md5 tc r = (i, r') \<Longrightarrow>
    r_rx r' = r_rx r \<and> r_blocked r' = r_blocked r"
  by (auto simp: routeForToolchain_def Let_def split: option.splits)

lemma traffic_cong: "r_rx r' = r_rx r \<Longrightarrow> r_blocked r' = r_blocked r \<Longrightarrow> traffic r' = traffic r"
  by (simp add: traffic_def held_def)

lemma same_traffic:
  "r_blocked (attachSender uuid i r) = r_blocked r" "r_rx (attachSender uuid i r) = r_rx r"
  "r_blocked (cancel_route i r) = r_blocked r" "r_rx (cancel_route i r) = r_rx r"
  "r_blocked (sender_done j r) = r_blocked r" "r_rx (sender_done j r) = r_rx r"
  "r_blocked (route_cleanup i r) = r_blocked r" "r_rx (route_cleanup i r) = r_rx r"
  by (simp_all add: attachSender_def cancel_route_def sender_done_def route_cleanup_def Let_def)

lemma add_sender_routes_traffic:
  "r_rx (add_sender_routes md5 uuid tcs r) = r_rx r \<and> r_blocked (add_sender_routes md5 uuid tcs r) = r_blocked r"
proof (induction tcs arbitrary: r)
  case (Cons tc tcs)
  obtain i r1 where "routeForToolchain md5 tc r = (i, r1)" by force
  with traffic_routeForToolchain [OF this] Cons show ?case by (simp add: same_traffic)
qed simp

lemma run_deferred_traffic:
  "r_rx (run_deferred md5 uuid tc n r) = r_rx r \<and> r_blocked (run_deferred md5 uuid tc n r) = r_blocked r"
proof (induction n arbitrary: r)
  case (Suc n)
  obtain i r1 where "routeForToolchain md5 tc r = (i, r1)" by force
  with traffic_routeForToolchain [OF this] Suc show ?case by (simp add: same_traffic)
qed simp

lemma cancel_gone_traffic:
  "r_rx (cancel_gone md5 olds news r) = r_rx r \<and> r_blocked (cancel_gone md5 olds news r) = r_blocked r"
proof (induction olds arbitrary: r)
  case (Cons tc tcs)
  obtain i r1 where "routeForToolchain md5 tc r = (i, r1)" by force
  with traffic_routeForToolchain [OF this] Cons show ?case by (simp add: same_traffic)
qed simp

lemma add_receiver_routes_traffic:
  "traffic (add_receiver_routes md5 uuid tcs r) = traffic r \<and>
   r_blocked (add_receiver_routes md5 uuid tcs r) = r_blocked r"
proof (induction tcs arbitrary: r)
  case (Cons tc tcs)
  obtain i r1 where r1: "routeForToolchain md5 tc r = (i, r1)" by force
  have "traffic (attachReceiver uuid tc i r1) = traffic r1 \<and> r_blocked (attachReceiver uuid tc i r1) = r_blocked r1"
    by (simp add: traffic_def held_def attachReceiver_def)
  with traffic_routeForToolchain [OF r1] traffic_cong [of r1 r] r1 Cons show ?case by simp
qed simp

lemma UpdateSenderToolchains_traffic:
  "r_rx (UpdateSenderToolchains md5 uuid tcs r) = r_rx r \<and>
   r_blocked (UpdateSenderToolchains md5 uuid tcs r) = r_blocked r"
  by (simp add: UpdateSenderToolchains_def Let_def run_deferred_traffic cancel_gone_traffic split: option.split)

lemma held_remove:
  assumes "j < length (r_rx r)" and "rl_item (r_rx r ! j) = None"
  shows "traffic (receiver_done j r) = traffic r" and "r_blocked (receiver_done j r) = r_blocked r"
proof -
  have "filter (\<lambda>l. rl_item l \<noteq> None) (r_rx r) =
      filter (\<lambda>l. rl_item l \<noteq> None) (take j (r_rx r) @ drop (Suc j) (r_rx r))"
    using assms by (subst id_take_nth_drop [OF assms(1)]) simp
  then show "traffic (receiver_done j r) = traffic r"
    by (simp add: traffic_def held_def receiver_done_def Let_def)
  show "r_blocked (receiver_done j r) = r_blocked r" by (simp add: receiver_done_def Let_def)
qed

lemma held_update:
  assumes "j < length (r_rx r)"
  shows "mset (held (r\<lparr>r_rx := (r_rx r)[j := (r_rx r ! j)\<lparr>rl_item := it\<rparr>]\<rparr>)) +
           (case rl_item (r_rx r ! j) of None \<Rightarrow> {#} | Some req \<Rightarrow> {#cr_RequestID req#}) =
         mset (held r) + (case it of None \<Rightarrow> {#} | Some req \<Rightarrow> {#cr_RequestID req#})"
proof -
  have "r_rx r = take j (r_rx r) @ r_rx r ! j # drop (Suc j) (r_rx r)" by (rule id_take_nth_drop [OF assms])
  then have "held r = map (\<lambda>l. cr_RequestID (the (rl_item l))) (filter (\<lambda>l. rl_item l \<noteq> None)
      (take j (r_rx r) @ r_rx r ! j # drop (Suc j) (r_rx r)))" by (metis held_def)
  then show ?thesis
    by (auto simp: held_def upd_conv_take_nth_drop [OF assms] split: option.splits)
qed

lemma mset_remove_nth:
  "k < length xs \<Longrightarrow> mset (map f xs) = add_mset (f (xs ! k)) (mset (map f (take k xs @ drop (Suc k) xs)))"
  by (subst id_take_nth_drop [of k xs]) simp_all

lemma traffic_take:
  assumes "router_step md5 (R_Take j k) r = Some r'"
  shows "traffic r' = traffic r" and "length (r_blocked r') + 1 = length (r_blocked r)" and "k < length (r_blocked r)"
proof -
  from assms have g: "j < length (r_rx r)" "k < length (r_blocked r)" "rl_item (r_rx r ! j) = None"
    and r': "r' = rx_take j k r" by (auto split: if_splits)
  show "traffic r' = traffic r"
    using held_update [OF g(1), of "Some (fst (r_blocked r ! k))"] g(3) mset_remove_nth [OF g(2), of "\<lambda>x. cr_RequestID (fst x)"]
    by (simp add: r' rx_take_def traffic_def route_give_up_def held_def)
  show "length (r_blocked r') + 1 = length (r_blocked r)" "k < length (r_blocked r)"
    using g(2) by (auto simp: r' rx_take_def route_give_up_def)
qed

section \<open>Requests in the broker\<close>

definition ids :: "Broker \<Rightarrow> string list" where
  "ids b = map fst (b_pending b) @ map fst (b_inflight b) @
     map (\<lambda>x. cr_RequestID (snd x)) (b_requeue b) @ map (\<lambda>x. cs_RequestID (snd x)) (b_sent b)"

text \<open>The entries of the two maps have the ids of their requests.\<close>

definition keyed :: "Broker \<Rightarrow> bool" where
  "keyed b \<longleftrightarrow> (\<forall>x\<in>set (b_pending b). cr_RequestID (pr_request (snd x)) = fst x) \<and>
     (\<forall>x\<in>set (b_inflight b). cr_RequestID (pr_request (ir_pending (snd x))) = fst x)"

text \<open>The pending requests are the requests in the router, and every waiting call is one of the
  broker.\<close>

definition pending_routed :: "Broker \<Rightarrow> bool" where
  "pending_routed b \<longleftrightarrow> mset (map fst (b_pending b)) = traffic (b_router b) \<and>
     length (b_calls b) = length (r_blocked (b_router b))"

definition requests_inv :: "Broker \<Rightarrow> bool" where
  "requests_inv b \<longleftrightarrow> mset (ids b) = mset (map fst (b_submitted b)) \<and> distinct (map fst (b_submitted b)) \<and> keyed b \<and> pending_routed b"

lemma mset_update_new: "k \<notin> fst ` set xs \<Longrightarrow> mset (map fst (AList.update k v xs)) = add_mset k (mset (map fst xs))"
  by (induction xs) auto

lemma mset_delete: "distinct (map fst xs) \<Longrightarrow> k \<in> fst ` set xs \<Longrightarrow>
    mset (map fst xs) = add_mset k (mset (map fst (AList.delete k xs)))"
proof (induction xs)
  case (Cons x xs)
  show ?case
  proof (cases "fst x = k")
    case True
    with Cons.prems have "k \<notin> fst ` set xs" by simp
    then have "AList.delete k xs = xs" by (rule AList.delete_id)
    with True show ?thesis by (cases x) simp
  next
    case False
    with Cons show ?thesis by (cases x) auto
  qed
qed simp

lemma set_update_subset: "set (AList.update k v xs) \<subseteq> insert (k, v) (set xs)"
  by (induction xs) auto

lemma set_delete_subset: "set (AList.delete k xs) \<subseteq> set xs"
  by (auto simp: AList.delete_eq)

lemma ids_distinct:
  assumes "distinct (ids b)"
  shows "distinct (map fst (b_pending b))" and "distinct (map fst (b_inflight b))"
    and "i \<in> fst ` set (b_pending b) \<Longrightarrow> i \<notin> fst ` set (b_inflight b)"
  using assms by (auto simp: ids_def)

text \<open>What \<open>route_failed\<close> and \<open>PreReceive\<close> do to a broker with the pending request \<open>i\<close>.\<close>

definition moved :: "string \<Rightarrow> Broker \<Rightarrow> Broker \<Rightarrow> bool" where
  "moved i b b' \<longleftrightarrow> mset (ids b') = mset (ids b) \<and> keyed b' \<and>
     mset (map fst (b_pending b)) = add_mset i (mset (map fst (b_pending b'))) \<and>
     b_router b' = b_router b \<and> b_calls b' = b_calls b \<and> b_agents b' = b_agents b \<and> b_submitted b' = b_submitted b"

lemma to_inflight_moved:
  assumes "distinct (ids b)" and "i \<in> fst ` set (b_pending b)" and "keyed b"
  obtains b' where "to_inflight i a b = Some b'" and "moved i b b'"
proof -
  from assms(2) obtain p where p: "map_of (b_pending b) i = Some p" by (metis map_of_eq_None_iff not_None_eq)
  let ?b = "b\<lparr>b_pending := AList.delete i (b_pending b),
     b_inflight := AList.update i \<lparr>ir_pending = p, ir_agent = a\<rparr> (b_inflight b)\<rparr>"
  have eq: "to_inflight i a b = Some ?b" by (simp add: to_inflight_def p)
  have del: "mset (map fst (b_pending b)) = add_mset i (mset (map fst (AList.delete i (b_pending b))))"
    by (rule mset_delete [OF ids_distinct(1) [OF assms(1)] assms(2)])
  have upd: "mset (map fst (b_inflight ?b)) = add_mset i (mset (map fst (b_inflight b)))"
    using mset_update_new [OF ids_distinct(3) [OF assms(1,2)]] by simp
  have "mset (ids ?b) = mset (ids b)" using del upd by (simp add: ids_def)
  moreover have "keyed ?b"
    using assms(3) map_of_SomeD [OF p] unfolding keyed_def
    by (auto dest!: subsetD [OF set_update_subset] subsetD [OF set_delete_subset])
  ultimately have "moved i b ?b" using del by (simp add: moved_def)
  with eq show thesis by (rule that)
qed

lemma moved_respond: "moved i b b' \<Longrightarrow> moved i b (respond resp (b'\<lparr>b_requestCount := n\<rparr>))"
  by (simp add: moved_def respond_def ids_def keyed_def)

lemma route_failed_moved:
  assumes "distinct (ids b)" and "i \<in> fst ` set (b_pending b)" and "keyed b"
  shows "moved i b (route_failed i act b)"
proof -
  obtain b' where "to_inflight i None b = Some b'" and "moved i b b'" by (rule to_inflight_moved [OF assms])
  then show ?thesis by (simp add: route_failed_def moved_respond)
qed

lemma PreReceive_cases:
  assumes "distinct (ids b)" and "cr_RequestID req \<in> fst ` set (b_pending b)" and "keyed b"
    and "PreReceive md5 reply req b = (action, req', b')"
  shows "cr_RequestID req' = cr_RequestID req \<and> cr_Toolchain req' = cr_Toolchain req \<and>
    (action = RequestIntercepted \<and> moved (cr_RequestID req) b b' \<or>
     action = ProcessRequestNormally \<and> ids b' = ids b \<and> keyed b' \<and> map fst (b_pending b') = map fst (b_pending b) \<and>
       b_router b' = b_router b \<and> b_calls b' = b_calls b \<and> b_agents b' = b_agents b \<and> b_submitted b' = b_submitted b)"
proof -
  obtain b1 where b1: "to_inflight (cr_RequestID req) None b = Some b1" "moved (cr_RequestID req) b b1"
    by (rule to_inflight_moved [OF assms(1-3)])
  have "map fst (map (\<lambda>(i, p). (i, if i = x then f p else p)) ps) = map fst ps" for ps :: "(string \<times> pendingRequest) list" and x f
    by (induction ps) auto
  moreover have "\<forall>x\<in>set (b_pending b). cr_RequestID (pr_request (snd x)) = fst x"
    "\<forall>x\<in>set (b_inflight b). cr_RequestID (pr_request (ir_pending (snd x))) = fst x"
    using assms(3) by (auto simp: keyed_def)
  ultimately show ?thesis using b1 moved_respond [OF b1(2), of _ "b_requestCount b1"] assms(4)
    by (fastforce simp: PreReceive_def Let_def ids_def keyed_def split: if_splits cache_reply.splits outcome.splits)
qed

lemma Route_traffic:
  assumes "Route md5 verdicts req r = (res, r')"
  shows "res \<noteq> Route_Blocked \<Longrightarrow> traffic r' = traffic r \<and> r_blocked r' = r_blocked r"
    and "res = Route_Blocked \<Longrightarrow> traffic r' = add_mset (cr_RequestID req) (traffic r) \<and> length (r_blocked r') = Suc (length (r_blocked r))"
    and "verdicts = [RequestIntercepted] \<Longrightarrow> cr_Toolchain req \<noteq> None \<Longrightarrow> res = Route_Handled"
    and "verdicts = [ProcessRequestNormally] \<Longrightarrow> res \<noteq> Route_Handled"
proof -
  obtain i r1 where r1: "routeForToolchain md5 (the (cr_Toolchain req)) r = (i, r1)" by force
  then have t: "traffic r1 = traffic r" "r_blocked r1 = r_blocked r" "r_rx r1 = r_rx r"
    using traffic_routeForToolchain traffic_cong by metis+
  show "res \<noteq> Route_Blocked \<Longrightarrow> traffic r' = traffic r \<and> r_blocked r' = r_blocked r"
    "res = Route_Blocked \<Longrightarrow> traffic r' = add_mset (cr_RequestID req) (traffic r) \<and> length (r_blocked r') = Suc (length (r_blocked r))"
    using assms r1 t by (auto simp: Route_def traffic_def held_def split: option.splits list.splits HookAction.splits if_splits)
  show "verdicts = [RequestIntercepted] \<Longrightarrow> cr_Toolchain req \<noteq> None \<Longrightarrow> res = Route_Handled"
    "verdicts = [ProcessRequestNormally] \<Longrightarrow> res \<noteq> Route_Handled"
    using assms r1 by (auto simp: Route_def split: option.splits if_splits)
qed

text \<open>A new or requeued request ends up pending in the router, or inflight with a response.\<close>

definition routed :: "string \<Rightarrow> Broker \<Rightarrow> Broker \<Rightarrow> bool" where
  "routed i b b' \<longleftrightarrow> mset (ids b') = add_mset i (mset (ids b)) \<and> keyed b' \<and> pending_routed b' \<and>
     b_agents b' = b_agents b \<and> b_submitted b' = b_submitted b"

lemma routed_via:
  assumes "mset (ids b1) = add_mset i (mset (ids b))" and "b_agents b1 = b_agents b" and "b_submitted b1 = b_submitted b"
    and "mset (map fst (b_pending b1)) = add_mset i (traffic (b_router b1))"
    and "length (b_calls b1) = length (r_blocked (b_router b1))"
    and "distinct (ids b1)" and "keyed b1"
  shows "moved i b1 b2 \<Longrightarrow> Route md5 verdicts req (b_router b2) = (res, r) \<Longrightarrow> res \<noteq> Route_Blocked \<Longrightarrow>
      routed i b (b2\<lparr>b_router := r\<rparr>)"
    and "Route md5 verdicts req (b_router b1) = (res, r) \<Longrightarrow> res \<noteq> Route_Blocked \<Longrightarrow>
      routed i b (route_failed i act (b1\<lparr>b_router := r\<rparr>))"
    and "Route md5 verdicts req (b_router b1) = (Route_Blocked, r) \<Longrightarrow> cr_RequestID req = i \<Longrightarrow>
      routed i b (b1\<lparr>b_router := r, b_calls := b_calls b1 @ [act]\<rparr>)"
proof -
  show "routed i b (b2\<lparr>b_router := r\<rparr>)"
    if "moved i b1 b2" "Route md5 verdicts req (b_router b2) = (res, r)" "res \<noteq> Route_Blocked"
    using Route_traffic(1) [OF that(2,3)] that(1) assms
    by (auto simp: routed_def moved_def pending_routed_def ids_def keyed_def)
  show "routed i b (b1\<lparr>b_router := r, b_calls := b_calls b1 @ [act]\<rparr>)"
    if "Route md5 verdicts req (b_router b1) = (Route_Blocked, r)" "cr_RequestID req = i"
    using Route_traffic(2) [OF that(1)] that(2) assms
    by (auto simp: routed_def moved_def pending_routed_def ids_def keyed_def)
  show "routed i b (route_failed i act (b1\<lparr>b_router := r\<rparr>))"
    if "Route md5 verdicts req (b_router b1) = (res, r)" "res \<noteq> Route_Blocked"
  proof -
    have "set (map fst (b_pending b1)) = set_mset (mset (map fst (b_pending b1)))" by (rule set_mset_mset [symmetric])
    then have "i \<in> fst ` set (b_pending b1)" by (simp only: assms(4)) simp
    then have "moved i (b1\<lparr>b_router := r\<rparr>) (route_failed i act (b1\<lparr>b_router := r\<rparr>))"
      using assms(6,7) by (intro route_failed_moved) (simp_all add: ids_def keyed_def)
    then show ?thesis using Route_traffic(1) [OF that] assms(1-5)
      by (auto simp: routed_def moved_def pending_routed_def ids_def)
  qed
qed

lemma routeNewRequest_routed:
  assumes "distinct (cr_RequestID req # ids b)" and "keyed b" and "pending_routed b"
  shows "routed (cr_RequestID req) b (routeNewRequest md5 reply cd req act b)"
proof -
  let ?i = "cr_RequestID req"
  define b1 where "b1 = b\<lparr>b_requestCount := b_requestCount b + 1,
    b_pending := AList.update ?i \<lparr>pr_request = req, pr_requester = cd\<rparr> (b_pending b)\<rparr>"
  have "?i \<notin> fst ` set (b_pending b)" using assms(1) by (auto simp: ids_def)
  then have p1: "mset (map fst (b_pending b1)) = add_mset ?i (mset (map fst (b_pending b)))"
    using mset_update_new [of ?i "b_pending b"] by (simp add: b1_def)
  then have m1: "mset (ids b1) = add_mset ?i (mset (ids b))" by (simp add: ids_def b1_def)
  then have d1: "distinct (ids b1)" using assms(1) mset_eq_imp_distinct_iff [of "ids b1" "?i # ids b"] by simp
  have i1: "?i \<in> fst ` set (b_pending b1)" by (simp add: b1_def AList.dom_update)
  have k1: "keyed b1" using assms(2) unfolding keyed_def b1_def by (auto dest!: subsetD [OF set_update_subset])
  obtain action req' b2 where b2: "(if b_hasCache b \<and> cr_Toolchain req \<noteq> None then PreReceive md5 reply req b1
      else (ProcessRequestNormally, req, b1)) = (action, req', b2)" by (metis prod_cases3)
  obtain res r where r: "Route md5 [action] req' (b_router b2) = (res, r)" by force
  have eq: "routeNewRequest md5 reply cd req act b = (case res of
      Route_Err _ \<Rightarrow> route_failed ?i act (b2\<lparr>b_router := r\<rparr>) | Route_Handled \<Rightarrow> b2\<lparr>b_router := r\<rparr>
    | Route_Blocked \<Rightarrow> b2\<lparr>b_router := r, b_calls := b_calls b2 @ [act]\<rparr>)"
    using b2 r by (simp add: routeNewRequest_def Let_def flip: b1_def split: route_result.split)
  have pr: "mset (map fst (b_pending b1)) = add_mset ?i (traffic (b_router b1))"
    "length (b_calls b1) = length (r_blocked (b_router b1))"
    using p1 assms(3) by (simp_all add: pending_routed_def b1_def)
  have same: "b_agents b1 = b_agents b" "b_submitted b1 = b_submitted b" by (simp_all add: b1_def)
  consider (hit) "action = RequestIntercepted" "moved ?i b1 b2" "cr_Toolchain req' \<noteq> None"
    | (normal) "action = ProcessRequestNormally" "cr_RequestID req' = ?i" "ids b2 = ids b1" "keyed b2"
        "map fst (b_pending b2) = map fst (b_pending b1)" "b_router b2 = b_router b1" "b_calls b2 = b_calls b1"
        "b_agents b2 = b_agents b1" "b_submitted b2 = b_submitted b1"
    using b2 PreReceive_cases [OF d1 i1 k1, of md5 reply action req' b2] k1 by (auto split: if_splits)
  then show ?thesis
  proof cases
    case hit
    with Route_traffic(3) [OF r] have "res = Route_Handled" by simp
    with eq routed_via(1) [OF m1 same pr d1 k1 hit(2) r] show ?thesis by simp
  next
    case normal
    have via: "mset (ids b2) = add_mset ?i (mset (ids b))" "b_agents b2 = b_agents b" "b_submitted b2 = b_submitted b"
      "mset (map fst (b_pending b2)) = add_mset ?i (traffic (b_router b2))" "length (b_calls b2) = length (r_blocked (b_router b2))"
      "distinct (ids b2)" "keyed b2" using normal m1 same pr d1 by simp_all
    from normal Route_traffic(4) [OF r] have "res \<noteq> Route_Handled" by simp
    then show ?thesis using eq r routed_via(2,3) [OF via] normal(2) by (cases res) auto
  qed
qed

text \<open>Steps that leave the requests where they are.\<close>

lemma requests_inv_cong:
  assumes "requests_inv b" and "b_pending b' = b_pending b" and "b_inflight b' = b_inflight b"
    and "b_requeue b' = b_requeue b" and "b_sent b' = b_sent b" and "b_submitted b' = b_submitted b"
    and "traffic (b_router b') = traffic (b_router b)" and "length (b_calls b') = length (r_blocked (b_router b'))"
  shows "requests_inv b'"
proof -
  have "ids b' = ids b" "keyed b' = keyed b" using assms by (simp_all add: ids_def keyed_def)
  with assms show ?thesis by (simp add: requests_inv_def pending_routed_def)
qed

lemma requests_inv_calls: "requests_inv b \<Longrightarrow> length (b_calls b) = length (r_blocked (b_router b))"
  by (simp add: requests_inv_def pending_routed_def)

lemma requests_inv_distinct: "requests_inv b \<Longrightarrow> distinct (ids b)"
  using mset_eq_imp_distinct_iff [of "ids b" "map fst (b_submitted b)"] by (simp add: requests_inv_def)

lemma Request_requests:
  assumes "requests_inv b" and "cr_RequestID req \<notin> fst ` set (b_submitted b)"
  shows "requests_inv (routeNewRequest md5 reply cd req act (b\<lparr>b_submitted := (cr_RequestID req, cd) # b_submitted b\<rparr>))"
proof -
  let ?b = "b\<lparr>b_submitted := (cr_RequestID req, cd) # b_submitted b\<rparr>"
  have "set (ids b) = fst ` set (b_submitted b)" using assms(1) mset_eq_setD [of "ids b" "map fst (b_submitted b)"] by (simp add: requests_inv_def)
  with assms requests_inv_distinct [OF assms(1)] have "distinct (cr_RequestID req # ids ?b)" by (simp add: ids_def)
  moreover have "keyed ?b" "pending_routed ?b"
    using assms(1) by (simp_all add: requests_inv_def keyed_def pending_routed_def)
  ultimately have "routed (cr_RequestID req) ?b (routeNewRequest md5 reply cd req act ?b)" by (rule routeNewRequest_routed)
  with assms show ?thesis by (simp add: requests_inv_def routed_def ids_def)
qed

lemma Requeue_requests:
  assumes "requests_inv b" and "k < length (b_requeue b)"
  shows "requests_inv (routeNewRequest md5 reply cd (snd (b_requeue b ! k)) act
    (b\<lparr>b_requeue := take k (b_requeue b) @ drop (Suc k) (b_requeue b)\<rparr>))"
proof -
  let ?b = "b\<lparr>b_requeue := take k (b_requeue b) @ drop (Suc k) (b_requeue b)\<rparr>" and ?req = "snd (b_requeue b ! k)"
  have m: "mset (cr_RequestID ?req # ids ?b) = mset (ids b)"
    using mset_remove_nth [OF assms(2), of "\<lambda>x. cr_RequestID (snd x)"] by (simp add: ids_def)
  then have "distinct (cr_RequestID ?req # ids ?b)"
    using requests_inv_distinct [OF assms(1)] mset_eq_imp_distinct_iff by blast
  moreover have "keyed ?b" "pending_routed ?b"
    using assms(1) by (simp_all add: requests_inv_def keyed_def pending_routed_def)
  ultimately have "routed (cr_RequestID ?req) ?b (routeNewRequest md5 reply cd ?req act ?b)" by (rule routeNewRequest_routed)
  with assms m show ?thesis by (simp add: requests_inv_def routed_def)
qed

lemma traffic_pending: "requests_inv b \<Longrightarrow> i \<in># traffic (b_router b) \<Longrightarrow> i \<in> fst ` set (b_pending b)"
  by (metis list.set_map pending_routed_def requests_inv_def set_mset_mset)

lemma GiveUp_requests:
  assumes "requests_inv b" and "k < length (r_blocked (b_router b))"
  shows "requests_inv (route_failed (cr_RequestID (fst (r_blocked (b_router b) ! k))) act
     (b\<lparr>b_router := route_give_up k (b_router b), b_calls := take k (b_calls b) @ drop (Suc k) (b_calls b)\<rparr>))"
proof -
  let ?i = "cr_RequestID (fst (r_blocked (b_router b) ! k))"
    and ?b = "b\<lparr>b_router := route_give_up k (b_router b), b_calls := take k (b_calls b) @ drop (Suc k) (b_calls b)\<rparr>"
  have t: "traffic (b_router b) = add_mset ?i (traffic (b_router ?b))"
    using mset_remove_nth [OF assms(2), of "\<lambda>x. cr_RequestID (fst x)"] by (simp add: traffic_def held_def route_give_up_def)
  then have "?i \<in> fst ` set (b_pending ?b)" using traffic_pending [OF assms(1)] by simp
  then have "moved ?i ?b (route_failed ?i act ?b)"
    using requests_inv_distinct [OF assms(1)] assms(1)
    by (intro route_failed_moved) (simp_all add: requests_inv_def ids_def keyed_def)
  with t assms show ?thesis
    by (auto simp: requests_inv_def moved_def pending_routed_def ids_def route_give_up_def min_def)
qed

lemma upd_agent_requests: "requests_inv (upd_agent a f b) = requests_inv b"
  by (simp add: upd_agent_def requests_inv_def ids_def keyed_def pending_routed_def)

lemma agent_respond_requests: "requests_inv (agent_respond a resp b) = requests_inv b"
  by (simp add: agent_respond_def respond_def upd_agent_def requests_inv_def ids_def keyed_def pending_routed_def)

lemma AgentReceive_requests:
  assumes "requests_inv b" and "j < length (r_rx (b_router b))"
  shows "requests_inv (agent_receive a j sendOk b)"
proof (cases "rl_item (r_rx (b_router b) ! j)")
  case None
  with assms(1) show ?thesis by (simp add: agent_receive_def)
next
  case (Some req)
  let ?i = "cr_RequestID req" and ?b = "b\<lparr>b_router := rx_hand_over j (b_router b)\<rparr>"
  have t: "traffic (b_router b) = add_mset ?i (traffic (b_router ?b))"
    using held_update [OF assms(2), of None] Some by (simp add: traffic_def rx_hand_over_def held_def)
  then have "?i \<in> fst ` set (b_pending ?b)" using traffic_pending [OF assms(1)] by simp
  then obtain b' where b': "to_inflight ?i (Some a) ?b = Some b'" "moved ?i ?b b'"
    using requests_inv_distinct [OF assms(1)] assms(1) to_inflight_moved [of ?b ?i "Some a"]
    by (auto simp: requests_inv_def ids_def keyed_def)
  have "requests_inv b'" using b'(2) t assms
    by (auto simp: requests_inv_def moved_def pending_routed_def ids_def rx_hand_over_def)
  then show ?thesis using b'(1) by (simp add: agent_receive_def Some Let_def upd_agent_requests)
qed

lemma HandleResponse_requests:
  assumes "requests_inv b"
  shows "requests_inv (handle_response k b)"
proof (cases "map_of (b_inflight b) (cs_RequestID (b_responses b ! k))")
  case None
  then show ?thesis
    by (intro requests_inv_cong [OF assms]) (simp_all add: handle_response_def Let_def requests_inv_calls [OF assms])
next
  case (Some ir)
  let ?resp = "b_responses b ! k"
  let ?i = "cs_RequestID ?resp" and ?b = "handle_response k b"
  have i: "(?i, ir) \<in> set (b_inflight b)" using Some by (rule map_of_SomeD)
  then have del: "mset (map fst (b_inflight b)) = add_mset ?i (mset (map fst (AList.delete ?i (b_inflight b))))"
    by (intro mset_delete ids_distinct(2) requests_inv_distinct assms) force
  have req: "cr_RequestID (pr_request (ir_pending ir)) = ?i" using assms i by (force simp: requests_inv_def keyed_def)
  have "mset (ids ?b) = mset (ids b)"
    using del req by (auto simp: handle_response_def Let_def Some send_response_def cacheTransaction_def ids_def
        split: CompileResult.split option.split)
  moreover have "b_pending ?b = b_pending b \<and> b_router ?b = b_router b \<and> b_calls ?b = b_calls b \<and>
      b_submitted ?b = b_submitted b \<and> b_inflight ?b = AList.delete ?i (b_inflight b)"
    by (auto simp: handle_response_def Let_def Some send_response_def cacheTransaction_def split: CompileResult.split option.split)
  ultimately show ?thesis
    using assms set_delete_subset [of ?i "b_inflight b"] by (auto simp: requests_inv_def keyed_def pending_routed_def)
qed

lemma in_router_requests:
  assumes "requests_inv b" and "in_router md5 ev b = Some b'"
    and "\<And>r. router_step md5 ev (b_router b) = Some r \<Longrightarrow> traffic r = traffic (b_router b) \<and> r_blocked r = r_blocked (b_router b)"
  shows "requests_inv b'"
proof -
  from assms(2) obtain r where r: "router_step md5 ev (b_router b) = Some r" "b' = b\<lparr>b_router := r\<rparr>"
    by (auto simp: in_router_def)
  show ?thesis
    by (rule requests_inv_cong [OF assms(1)]) (use r assms(3) [OF r(1)] requests_inv_calls [OF assms(1)] in simp_all)
qed

lemma Take_requests:
  assumes "requests_inv b" and "broker_step md5 (B_Take j k) b = Some b'"
  shows "requests_inv b'"
proof -
  from assms(2) obtain r where r: "router_step md5 (R_Take j k) (b_router b) = Some r"
    and b': "b' = b\<lparr>b_router := r, b_calls := take k (b_calls b) @ drop (Suc k) (b_calls b)\<rparr>"
    by (auto simp: in_router_def simp del: router_step.simps)
  show ?thesis
    by (rule requests_inv_cong [OF assms(1)])
      (use b' traffic_take [OF r] requests_inv_calls [OF assms(1)] in simp_all)
qed

lemma requests_step:
  assumes "requests_inv b" and "broker_step md5 ev b = Some b'"
  shows "requests_inv b'"
proof -
  note c = requests_inv_calls [OF assms(1)]
  show ?thesis
  proof (cases ev)
    case (B_NewAgent uuid tcChan n)
    have "traffic (AddReceiver md5 uuid tcs (b_router b)) = traffic (b_router b)"
      "r_blocked (AddReceiver md5 uuid tcs (b_router b)) = r_blocked (b_router b)" for tcs
      by (simp_all add: AddReceiver_def add_receiver_routes_traffic) (simp add: traffic_def held_def)
    with assms B_NewAgent c show ?thesis
      by (intro requests_inv_cong [OF assms(1)]) (auto simp: NewAgentTaskStream_def split: if_splits option.splits)
  next
    case (B_NewConsumerd uuid tcChan)
    have "traffic (AddSender md5 uuid tcs (b_router b)) = traffic (b_router b)"
      "r_blocked (AddSender md5 uuid tcs (b_router b)) = r_blocked (b_router b)" for tcs
      by (simp_all add: AddSender_def add_sender_routes_traffic traffic_def held_def)
    with assms B_NewConsumerd c show ?thesis
      by (intro requests_inv_cong [OF assms(1)]) (auto simp: NewConsumerdTaskStream_def split: if_splits option.splits)
  next
    case (B_ReceiverDone j)
    with assms(2) have "in_router md5 (R_ReceiverDone j) b = Some b'" by (simp add: Let_def split: if_splits)
    with assms(1) show ?thesis by (rule in_router_requests) (auto simp: held_remove split: if_splits)
  next
    case (B_SenderDone j)
    with assms(2) have "in_router md5 (R_SenderDone j) b = Some b'" by (simp split: if_splits)
    with assms(1) show ?thesis by (rule in_router_requests) (auto simp: same_traffic intro: traffic_cong split: if_splits)
  next
    case (B_Cleanup i)
    with assms(2) have "in_router md5 (R_Cleanup i) b = Some b'" by simp
    with assms(1) show ?thesis by (rule in_router_requests) (auto simp: same_traffic intro: traffic_cong split: if_splits)
  next
    case (B_Update uuid tcs)
    have "traffic (UpdateSenderToolchains md5 uuid tcs (b_router b)) = traffic (b_router b)"
      by (rule traffic_cong) (simp_all add: UpdateSenderToolchains_traffic)
    with assms B_Update c show ?thesis
      by (intro requests_inv_cong [OF assms(1)]) (auto simp: consumerd_update_def UpdateSenderToolchains_traffic split: if_splits)
  qed (use assms c in \<open>auto simp: Request_requests Requeue_requests GiveUp_requests AgentReceive_requests HandleResponse_requests
      upd_agent_requests agent_respond_requests cleanupAgent_def
      simp del: broker_step.simps(6) dest: Take_requests intro: requests_inv_cong split: if_splits option.splits\<close>)
qed

lemma requests_reachable: "b_reachable md5 b \<Longrightarrow> requests_inv b"
proof (induction rule: b_reachable.induct)
  case (b_init hasCache)
  then show ?case
    by (simp add: NewBroker_def requests_inv_def ids_def keyed_def pending_routed_def traffic_def held_def NewRouter_def)
qed (rule requests_step)

end
