(* ===== verification/BrokerProps.thy ===== *)
theory BrokerProps
  imports BrokerInv
begin

text \<open>
  Properties of the broker: every request stays under the daemon that sent it, until one response is
  sent to that daemon; the tokens of an agent bound the requests it works on; the requests of an
  agent that is gone are requeued.
\<close>

section \<open>Owners of requests\<close>

definition owners :: "Broker \<Rightarrow> (string \<times> string) list" where
  "owners b = map (\<lambda>(i, p). (i, pr_requester p)) (b_pending b) @
     map (\<lambda>(i, x). (i, pr_requester (ir_pending x))) (b_inflight b) @
     map (\<lambda>(cd, req). (cr_RequestID req, cd)) (b_requeue b) @
     map (\<lambda>(cd, resp). (cs_RequestID resp, cd)) (b_sent b)"

definition owned :: "Broker \<Rightarrow> bool" where
  "owned b \<longleftrightarrow> set (owners b) \<subseteq> set (b_submitted b)"

lemma ids_owners: "ids b = map fst (owners b)"
  by (simp add: ids_def owners_def split_def comp_def)

lemma owned_cong: "owned b \<Longrightarrow> owners b' = owners b \<Longrightarrow> b_submitted b' = b_submitted b \<Longrightarrow> owned b'"
  by (simp add: owned_def)

lemma owned_iff: "owned b \<longleftrightarrow>
    (\<forall>i p. (i, p) \<in> set (b_pending b) \<longrightarrow> (i, pr_requester p) \<in> set (b_submitted b)) \<and>
    (\<forall>i x. (i, x) \<in> set (b_inflight b) \<longrightarrow> (i, pr_requester (ir_pending x)) \<in> set (b_submitted b)) \<and>
    (\<forall>cd req. (cd, req) \<in> set (b_requeue b) \<longrightarrow> (cr_RequestID req, cd) \<in> set (b_submitted b)) \<and>
    (\<forall>cd resp. (cd, resp) \<in> set (b_sent b) \<longrightarrow> (cs_RequestID resp, cd) \<in> set (b_submitted b))"
  by (auto simp: owned_def owners_def)

lemma to_inflight_owned: "owned b \<Longrightarrow> to_inflight i a b = Some b' \<Longrightarrow> owned b'"
  unfolding owned_iff to_inflight_def
  by (auto split: option.splits dest!: subsetD [OF set_update_subset] subsetD [OF set_delete_subset] map_of_SomeD)

lemma respond_owned: "owned (respond resp b) = owned b"
  by (simp add: respond_def owned_def owners_def)

lemma route_failed_owned:
  assumes "owned b"
  shows "owned (route_failed i act b)"
proof (cases "to_inflight i None b")
  case None
  with assms show ?thesis by (simp add: route_failed_def)
next
  case (Some b')
  with assms have "owned b'" by (rule to_inflight_owned)
  with Some show ?thesis by (simp add: route_failed_def respond_owned) (simp add: owned_iff)
qed

lemma PreReceive_owned:
  assumes "owned b" and "PreReceive md5 reply req b = (action, req', b')"
  shows "owned b'"
proof -
  have "owned (b\<lparr>b_pending := map (\<lambda>(i, p). (i, if i = x then p\<lparr>pr_request := q\<rparr> else p)) (b_pending b)\<rparr>)" for x q
    using assms(1) unfolding owned_iff by auto
  then show ?thesis using assms to_inflight_owned [OF assms(1)]
    by (auto simp: PreReceive_def Let_def respond_owned split: if_splits cache_reply.splits outcome.splits option.splits)
qed

lemma routeNewRequest_owned:
  assumes "owned b" and "(cr_RequestID req, cd) \<in> set (b_submitted b)"
  shows "owned (routeNewRequest md5 reply cd req act b)"
proof -
  let ?b1 = "b\<lparr>b_requestCount := b_requestCount b + 1,
    b_pending := AList.update (cr_RequestID req) \<lparr>pr_request = req, pr_requester = cd\<rparr> (b_pending b)\<rparr>"
  have b1: "owned ?b1" using assms unfolding owned_iff by (auto dest!: subsetD [OF set_update_subset])
  obtain action req' b2 where b2: "(if b_hasCache b \<and> cr_Toolchain req \<noteq> None then PreReceive md5 reply req ?b1
      else (ProcessRequestNormally, req, ?b1)) = (action, req', b2)" by (metis prod_cases3)
  then have o2: "owned b2" using b1 PreReceive_owned [OF b1] by (auto split: if_splits)
  obtain res r where r: "Route md5 [action] req' (b_router b2) = (res, r)" by force
  have "owned (b2\<lparr>b_router := r\<rparr>)" "owned (b2\<lparr>b_router := r, b_calls := cs\<rparr>)" for cs
    using o2 by (simp_all add: owned_iff)
  then show ?thesis using b2 r
    by (simp add: routeNewRequest_def Let_def route_failed_owned split: route_result.split)
qed

lemma handle_response_owned:
  assumes "owned b" and "keyed b"
  shows "owned (handle_response k b)"
proof (cases "map_of (b_inflight b) (cs_RequestID (b_responses b ! k))")
  case None
  with assms(1) show ?thesis by (simp add: handle_response_def Let_def owned_iff)
next
  case (Some ir)
  let ?i = "cs_RequestID (b_responses b ! k)"
  have "(?i, ir) \<in> set (b_inflight b)" using Some by (rule map_of_SomeD)
  then have i: "(?i, pr_requester (ir_pending ir)) \<in> set (b_submitted b)"
    "cr_RequestID (pr_request (ir_pending ir)) = ?i" using assms by (auto simp: owned_iff keyed_def)
  let ?b = "handle_response k b" and ?cd = "pr_requester (ir_pending ir)" and ?req = "pr_request (ir_pending ir)"
  have same: "b_pending ?b = b_pending b" "b_inflight ?b = AList.delete ?i (b_inflight b)" "b_submitted ?b = b_submitted b"
    by (auto simp: handle_response_def Let_def Some send_response_def cacheTransaction_def split: CompileResult.split option.split)
  have "b_requeue ?b = b_requeue b \<and> b_sent ?b = b_sent b @ [(?cd, b_responses b ! k)] \<or>
      b_requeue ?b = b_requeue b @ [(?cd, ?req)] \<and> b_sent ?b = b_sent b"
    by (auto simp: handle_response_def Let_def Some send_response_def cacheTransaction_def split: CompileResult.split option.split)
  with i assms(1) show ?thesis unfolding owned_iff same by (auto dest!: subsetD [OF set_delete_subset])
qed

lemma owned_step:
  assumes "owned b" and "requests_inv b" and "broker_step md5 ev b = Some b'"
  shows "owned b'"
proof (cases ev)
  case (B_Request reply cd req)
  let ?b = "b\<lparr>b_submitted := (cr_RequestID req, cd) # b_submitted b\<rparr>"
  have "owned ?b" using assms(1) by (auto simp: owned_iff)
  then have "owned (routeNewRequest md5 reply cd req DoNotRetry ?b)" by (rule routeNewRequest_owned) simp
  with B_Request assms(3) show ?thesis by (auto split: if_splits)
next
  case (B_Requeue reply k)
  let ?b = "b\<lparr>b_requeue := take k (b_requeue b) @ drop (Suc k) (b_requeue b)\<rparr>"
  from B_Requeue assms(3) have k: "b_requeue b ! k \<in> set (b_requeue b)" by (auto split: if_splits)
  have "owned ?b" using assms(1) unfolding owned_iff by (auto dest: in_set_takeD in_set_dropD)
  moreover have "(cr_RequestID (snd (b_requeue b ! k)), fst (b_requeue b ! k)) \<in> set (b_submitted ?b)"
    using assms(1) k by (cases "b_requeue b ! k") (auto simp: owned_iff)
  ultimately have "owned (routeNewRequest md5 reply (fst (b_requeue b ! k)) (snd (b_requeue b ! k)) Retry ?b)"
    by (rule routeNewRequest_owned)
  with B_Requeue assms(3) show ?thesis by (auto split: if_splits)
next
  case (B_GiveUp k)
  have "owned (b\<lparr>b_router := r, b_calls := c\<rparr>)" for r c using assms(1) by (simp add: owned_iff)
  from route_failed_owned [OF this] B_GiveUp assms(3) show ?thesis by (auto split: if_splits)
next
  case (B_AgentReceive a j sendOk)
  have "owned (upd_agent a f c) = owned c" for f c by (simp add: owned_iff upd_agent_def)
  moreover have "owned (b\<lparr>b_router := r\<rparr>)" for r using assms(1) by (simp add: owned_iff)
  ultimately have "owned (agent_receive a j sendOk b)"
    using assms(1) to_inflight_owned [of "b\<lparr>b_router := _\<rparr>"]
    by (auto simp: agent_receive_def Let_def split: option.split)
  with B_AgentReceive assms(3) show ?thesis by (auto split: if_splits option.splits)
next
  case (B_HandleResponse k)
  then show ?thesis using assms handle_response_owned by (auto simp: requests_inv_def split: if_splits)
qed (use assms in \<open>auto simp: owned_iff in_router_def NewAgentTaskStream_def NewConsumerdTaskStream_def upd_agent_def consumerd_update_def
    agent_respond_def respond_def cleanupAgent_def Let_def simp del: router_step.simps split: if_splits option.splits\<close>)

lemma owned_reachable: "b_reachable md5 b \<Longrightarrow> owned b"
proof (induction rule: b_reachable.induct)
  case (b_step b ev b')
  then show ?case using owned_step requests_reachable by blast
qed (simp add: owned_iff NewBroker_def)

section \<open>Tokens\<close>

definition tokens_ok :: "agent \<Rightarrow> bool" where
  "tokens_ok x \<longleftrightarrow> ag_available x + ag_locked x = min (ag_limit x) MaxTokens \<and> ag_answered x \<le> ag_sent x \<and>
     ag_locked x + ag_answered x = ag_sent x + (if ag_loop x = Receiving then 1 else 0)"

definition agents_inv :: "Broker \<Rightarrow> bool" where
  "agents_inv b \<longleftrightarrow> distinct (map fst (b_agents b)) \<and> (\<forall>u x. (u, x) \<in> set (b_agents b) \<longrightarrow> tokens_ok x)"

lemma upd_agent_inv:
  assumes "agents_inv b" and "map_of (b_agents b) a = Some x" and "tokens_ok (f x)"
  shows "agents_inv (upd_agent a f b)"
proof -
  let ?b = "upd_agent a f b"
  have "map fst (b_agents ?b) = map fst (b_agents b)" by (simp add: upd_agent_def split_def)
  moreover have "tokens_ok y" if "(u, y) \<in> set (b_agents ?b)" for u y
  proof -
    from that obtain z where z: "(u, z) \<in> set (b_agents b)" "y = (if u = a then f z else z)"
      by (auto simp: upd_agent_def)
    show ?thesis
    proof (cases "u = a")
      case True
      with z(1) assms(1,2) have "z = x" by (simp add: agents_inv_def)
      with True z(2) assms(3) show ?thesis by simp
    next
      case False
      with z assms(1) show ?thesis by (simp add: agents_inv_def)
    qed
  qed
  ultimately show ?thesis using assms(1) by (simp add: agents_inv_def)
qed

lemma agents_inv_cong: "b_agents b' = b_agents b \<Longrightarrow> agents_inv b' = agents_inv b"
  by (simp add: agents_inv_def)

lemma to_inflight_agents: "to_inflight i a b = Some b' \<Longrightarrow> b_agents b' = b_agents b"
  by (auto simp: to_inflight_def split: option.splits)

lemma route_failed_agents [simp]: "b_agents (route_failed i act b) = b_agents b"
  by (auto simp: route_failed_def respond_def split: option.split dest: to_inflight_agents)

lemma PreReceive_agents: "PreReceive md5 reply req b = (action, req', b') \<Longrightarrow> b_agents b' = b_agents b"
  by (auto simp: PreReceive_def respond_def Let_def
      split: if_splits option.splits cache_reply.splits outcome.splits dest: to_inflight_agents)

lemma routeNewRequest_agents [simp]: "b_agents (routeNewRequest md5 reply cd req act b) = b_agents b"
proof -
  let ?b1 = "b\<lparr>b_requestCount := b_requestCount b + 1,
    b_pending := AList.update (cr_RequestID req) \<lparr>pr_request = req, pr_requester = cd\<rparr> (b_pending b)\<rparr>"
  obtain action req' b2 where b2: "(if b_hasCache b \<and> cr_Toolchain req \<noteq> None then PreReceive md5 reply req ?b1
      else (ProcessRequestNormally, req, ?b1)) = (action, req', b2)" by (metis prod_cases3)
  then have "b_agents b2 = b_agents b" using PreReceive_agents [of md5 reply req ?b1] by (auto split: if_splits)
  then show ?thesis using b2
    by (cases "Route md5 [action] req' (b_router b2)") (simp add: routeNewRequest_def Let_def split: route_result.split)
qed

lemma handle_response_agents [simp]: "b_agents (handle_response k b) = b_agents b"
  by (auto simp: handle_response_def Let_def send_response_def cacheTransaction_def split: CompileResult.split option.split)

lemma AgentReceive_agents:
  assumes "agents_inv b" and "requests_inv b" and "broker_step md5 (B_AgentReceive a j sendOk) b = Some b'"
  shows "agents_inv b'"
proof -
  from assms(3) obtain x req where x: "map_of (b_agents b) a = Some x" "ag_loop x = Receiving"
    and j: "j < length (r_rx (b_router b))" "rl_item (r_rx (b_router b) ! j) = Some req"
    and b': "b' = agent_receive a j sendOk b" by (auto split: option.splits if_splits)
  let ?b = "b\<lparr>b_router := rx_hand_over j (b_router b)\<rparr>"
  have "cr_RequestID req \<in># traffic (b_router b)" using j by (force simp: traffic_def held_def in_set_conv_nth)
  then have "cr_RequestID req \<in> fst ` set (b_pending ?b)" using traffic_pending [OF assms(2)] by simp
  then obtain b2 where b2: "to_inflight (cr_RequestID req) (Some a) ?b = Some b2"
    by (auto simp: to_inflight_def split: option.split dest: weak_map_of_SomeI)
  then have ag: "b_agents b2 = b_agents b" using to_inflight_agents by fastforce
  have "tokens_ok x" using assms(1) x(1) by (auto simp: agents_inv_def dest: map_of_SomeD)
  then have "agents_inv (upd_agent a (\<lambda>x. x\<lparr>ag_loop := (if sendOk then Taking else Ended), ag_sent := ag_sent x + 1\<rparr>) b2)"
    using x ag assms(1) agents_inv_cong [OF ag] by (intro upd_agent_inv) (auto simp: tokens_ok_def)
  then show ?thesis using b' j b2 by (simp add: agent_receive_def Let_def)
qed

lemma agents_step:
  assumes "agents_inv b" and "requests_inv b" and "broker_step md5 ev b = Some b'"
  shows "agents_inv b'"
proof (cases ev)
  case (B_NewAgent uuid tcs n)
  have "tokens_ok \<lparr>ag_available = min n MaxTokens, ag_locked = 0, ag_completed = 0, ag_limit = n,
      ag_loop = (if n \<le> MaxTokens then Taking else Stuck), ag_sent = 0, ag_answered = 0\<rparr>"
    by (simp add: tokens_ok_def)
  with B_NewAgent assms(1,3) show ?thesis
    by (auto simp: agents_inv_def NewAgentTaskStream_def simp del: min_def split: if_splits option.splits)
next
  case (B_TakeToken a)
  with assms(3) obtain x where x: "map_of (b_agents b) a = Some x" "ag_loop x = Taking" "ag_available x > 0"
    and b': "b' = upd_agent a take_token b" by (auto split: option.splits if_splits)
  have "tokens_ok x" using assms(1) x(1) by (auto simp: agents_inv_def dest: map_of_SomeD)
  with x show ?thesis unfolding b' by (intro upd_agent_inv [OF assms(1)]) (auto simp: tokens_ok_def take_token_def)
next
  case (B_AgentRespond a resp)
  with assms(3) obtain x where x: "map_of (b_agents b) a = Some x" "ag_answered x < ag_sent x"
    and b': "b' = agent_respond a resp b" by (auto split: option.splits if_splits)
  have "tokens_ok x" using assms(1) x(1) by (auto simp: agents_inv_def dest: map_of_SomeD)
  with x have "agents_inv (upd_agent a return_token b)"
    by (intro upd_agent_inv [OF assms(1)]) (auto simp: tokens_ok_def return_token_def)
  then show ?thesis unfolding b' agent_respond_def respond_def by (simp add: agents_inv_def)
next
  case (B_AgentReceive a j sendOk)
  with assms show ?thesis using AgentReceive_agents by metis
qed (rule agents_inv_cong [THEN iffD2, OF _ assms(1)];
    use assms(3) in \<open>auto simp: in_router_def NewConsumerdTaskStream_def consumerd_update_def
      cleanupAgent_def Let_def simp del: router_step.simps split: if_splits option.splits\<close>)+

lemma agents_reachable: "b_reachable md5 b \<Longrightarrow> agents_inv b"
proof (induction rule: b_reachable.induct)
  case (b_step b ev b')
  then show ?case using agents_step requests_reachable by blast
qed (simp add: agents_inv_def NewBroker_def)

section \<open>The router inside the broker\<close>

lemma to_inflight_router: "to_inflight i a b = Some b' \<Longrightarrow> b_router b' = b_router b"
  by (auto simp: to_inflight_def split: option.splits)

lemma route_failed_router [simp]: "b_router (route_failed i act b) = b_router b"
  by (auto simp: route_failed_def respond_def split: option.split dest: to_inflight_router)

lemma PreReceive_router: "PreReceive md5 reply req b = (action, req', b') \<Longrightarrow> b_router b' = b_router b"
  by (auto simp: PreReceive_def respond_def Let_def
      split: if_splits option.splits cache_reply.splits outcome.splits dest: to_inflight_router)

lemma routeNewRequest_router:
  "\<exists>verdicts req'. b_router (routeNewRequest md5 reply cd req act b) = snd (Route md5 verdicts req' (b_router b))"
proof -
  let ?b1 = "b\<lparr>b_requestCount := b_requestCount b + 1,
    b_pending := AList.update (cr_RequestID req) \<lparr>pr_request = req, pr_requester = cd\<rparr> (b_pending b)\<rparr>"
  obtain action req' b2 where b2: "(if b_hasCache b \<and> cr_Toolchain req \<noteq> None then PreReceive md5 reply req ?b1
      else (ProcessRequestNormally, req, ?b1)) = (action, req', b2)" by (metis prod_cases3)
  then have "b_router b2 = b_router b" using PreReceive_router [of md5 reply req ?b1] by (auto split: if_splits)
  then have "b_router (routeNewRequest md5 reply cd req act b) = snd (Route md5 [action] req' (b_router b))" using b2
    by (cases "Route md5 [action] req' (b_router b2)") (simp add: routeNewRequest_def Let_def split: route_result.split)
  then show ?thesis by blast
qed

lemma handle_response_router [simp]: "b_router (handle_response k b) = b_router b"
  by (auto simp: handle_response_def Let_def send_response_def cacheTransaction_def split: CompileResult.split option.split)

lemma agent_receive_router:
  "rl_item (r_rx (b_router b) ! j) \<noteq> None \<Longrightarrow> b_router (agent_receive a j sendOk b) = rx_hand_over j (b_router b)"
  by (auto simp: agent_receive_def upd_agent_def Let_def split: option.split dest: to_inflight_router)

text \<open>A step of the broker is a step of its router or leaves it alone.\<close>

lemma broker_step_router:
  assumes "broker_step md5 ev b = Some b'"
  shows "b_router b' = b_router b \<or> (\<exists>rev. router_step md5 rev (b_router b) = Some (b_router b'))"
proof -
  have route: "\<exists>rev. router_step md5 rev r = Some (snd (Route md5 verdicts req r))" for verdicts req r
    by (metis router_step.simps(7))
  show ?thesis
  proof (cases ev)
    case (B_NewAgent uuid tcChan n)
    then have "b_router b' = b_router b \<or> (\<exists>tcs. router_step md5 (R_AddReceiver uuid tcs) (b_router b) = Some (b_router b'))"
      using assms by (auto simp: NewAgentTaskStream_def split: if_splits option.splits)
    then show ?thesis by blast
  next
    case (B_NewConsumerd uuid tcChan)
    then have "b_router b' = b_router b \<or> (\<exists>tcs. router_step md5 (R_AddSender uuid tcs) (b_router b) = Some (b_router b'))"
      using assms by (auto simp: NewConsumerdTaskStream_def split: if_splits option.splits)
    then show ?thesis by blast
  next
    case (B_Update uuid tcs)
    then have "router_step md5 (R_Update uuid tcs) (b_router b) = Some (b_router b')"
      using assms by (auto simp: consumerd_update_def split: if_splits)
    then show ?thesis by blast
  next
    case (B_Request reply cd req)
    then show ?thesis using assms route
        routeNewRequest_router [of md5 reply cd req DoNotRetry "b\<lparr>b_submitted := (cr_RequestID req, cd) # b_submitted b\<rparr>"]
      by (auto split: if_splits)
  next
    case (B_Requeue reply k)
    then show ?thesis using assms route routeNewRequest_router [of md5 reply "fst (b_requeue b ! k)" "snd (b_requeue b ! k)" Retry
          "b\<lparr>b_requeue := take k (b_requeue b) @ drop (Suc k) (b_requeue b)\<rparr>"]
      by (auto split: if_splits)
  next
    case (B_GiveUp k)
    then have "router_step md5 (R_GiveUp k) (b_router b) = Some (b_router b')" using assms by (auto split: if_splits)
    then show ?thesis by blast
  next
    case (B_AgentReceive a j sendOk)
    then have "router_step md5 (R_HandOver j) (b_router b) = Some (b_router b')"
      using assms by (auto simp: agent_receive_router split: option.splits if_splits)
    then show ?thesis by blast
  qed (use assms in \<open>auto simp: in_router_def upd_agent_def agent_respond_def respond_def cleanupAgent_def Let_def
      simp del: router_step.simps split: option.splits if_splits\<close>)
qed

lemma broker_run_router:
  "broker_run md5 evs b = Some b' \<Longrightarrow> \<exists>revs. router_run md5 revs (b_router b) = Some (b_router b')"
proof (induction evs arbitrary: b)
  case Nil
  then show ?case by (intro exI [of _ "[]"]) simp
next
  case (Cons ev evs)
  then obtain c where c: "broker_step md5 ev b = Some c" "broker_run md5 evs c = Some b'" by (auto split: option.splits)
  from Cons.IH [OF c(2)] obtain revs where revs: "router_run md5 revs (b_router c) = Some (b_router b')" by blast
  from broker_step_router [OF c(1)] show ?case
  proof
    assume "\<exists>rev. router_step md5 rev (b_router b) = Some (b_router c)"
    then obtain rev where "router_step md5 rev (b_router b) = Some (b_router c)" by blast
    with revs show ?thesis by (intro exI [of _ "rev # revs"]) simp
  qed (use revs in auto)
qed

section \<open>Responses in the queue\<close>

lemma handle_first:
  assumes "b_responses b = resp # rest"
  shows "b_responses (handle_response 0 b) = rest"
    and "set (b_inflight (handle_response 0 b)) \<subseteq> {x \<in> set (b_inflight b). fst x \<noteq> cs_RequestID resp}"
proof -
  show "b_responses (handle_response 0 b) = rest"
    using assms by (auto simp: handle_response_def Let_def send_response_def cacheTransaction_def split: option.split CompileResult.split)
  have "b_inflight (handle_response 0 b) = AList.delete (cs_RequestID resp) (b_inflight b)"
    using assms by (auto simp: handle_response_def Let_def send_response_def cacheTransaction_def AList.delete_id map_of_eq_None_iff
        split: option.split CompileResult.split)
  then show "set (b_inflight (handle_response 0 b)) \<subseteq> {x \<in> set (b_inflight b). fst x \<noteq> cs_RequestID resp}"
    by (auto simp: AList.delete_eq)
qed

lemma drain_responses:
  "\<exists>b'. broker_run md5 (replicate (length (b_responses b)) (B_HandleResponse 0)) b = Some b' \<and> b_responses b' = [] \<and>
     set (b_inflight b') \<subseteq> {x \<in> set (b_inflight b). fst x \<notin> cs_RequestID ` set (b_responses b)}"
proof (induction "b_responses b" arbitrary: b)
  case Nil
  then show ?case by (intro exI [of _ b]) auto
next
  case (Cons resp rest)
  have resp: "b_responses b = resp # rest" using Cons.hyps(2) by simp
  from Cons.hyps(1) [of "handle_response 0 b"] handle_first [OF resp] resp show ?case by auto
qed

section \<open>Properties\<close>

definition serving :: "broker_event list" where
  "serving = [B_NewAgent ''agent'' (Some [gcc ''/usr/bin/gcc'']) 2, B_NewConsumerd ''cd1'' (Some [gcc ''/opt/gcc'']),
     B_Request Cache_Error ''cd1'' (other_request ''q1''), B_Request Cache_Error ''cd1'' (other_request ''q2''),
     B_Take 0 0, B_TakeToken ''agent'', B_AgentReceive ''agent'' 0 True]"

lemma serving_run:
  assumes "map_option f (broker_run id (serving @ evs) (NewBroker False)) = Some v"
  obtains b where "b_reachable id b" and "f b = v"
proof -
  from assms obtain b where "broker_run id (serving @ evs) (NewBroker False) = Some b" "f b = v" by auto
  with that b_reachable_run [OF b_reachable.b_init] show thesis by blast
qed

text \<open>C1: no request is lost or answered twice. In every reachable state of the broker, the requests
  that are pending, inflight, waiting to be requeued or answered are, together with the daemon each
  of them is kept for, exactly the requests the daemons sent, each once: a response goes to the
  daemon that sent the request, and at most one does.\<close>

theorem broker_requests_conserved:
  assumes "b_reachable md5 b"
  shows "mset (owners b) = mset (b_submitted b) \<and> distinct (map fst (b_submitted b))"
proof -
  have inv: "requests_inv b" "owned b" using requests_reachable owned_reachable assms by blast+
  then have m: "mset (map fst (owners b)) = mset (map fst (b_submitted b))" and d: "distinct (map fst (b_submitted b))"
    by (simp_all add: requests_inv_def ids_owners)
  from m d have "distinct (map fst (owners b))" using mset_eq_imp_distinct_iff by blast
  then have od: "distinct (owners b)" "distinct (b_submitted b)" using d by (simp_all add: distinct_map)
  have "length (owners b) = length (b_submitted b)" using mset_eq_length [OF m] by simp
  then have "card (set (owners b)) = card (set (b_submitted b))" using od by (simp add: distinct_card)
  with inv(2) have "set (owners b) = set (b_submitted b)" by (simp add: owned_def card_subset_eq)
  with od d show ?thesis by (simp add: set_eq_iff_mset_eq_distinct)
qed

theorem broker_requests_conserved_witness:
  "\<exists>b. b_reachable id b \<and> owners b = [(''q2'', ''cd1''), (''q1'', ''cd1'')] \<and> mset (owners b) = mset (b_submitted b)"
proof -
  have "map_option owners (broker_run id (serving @ []) (NewBroker False)) = Some [(''q2'', ''cd1''), (''q1'', ''cd1'')]"
    by code_simp
  then obtain b where "b_reachable id b" "owners b = [(''q2'', ''cd1''), (''q1'', ''cd1'')]" by (rule serving_run)
  with broker_requests_conserved show ?thesis by blast
qed

text \<open>C7: a pending request can still be served. In every reachable state the pending requests are
  those that wait in a call of \<open>Route\<close> or that a loop holds for an agent, so a request that an agent
  takes is always found in the map of pending requests.\<close>

theorem broker_pending_routed:
  assumes "b_reachable md5 b"
  shows "mset (map fst (b_pending b)) =
    mset (map (\<lambda>x. cr_RequestID (fst x)) (r_blocked (b_router b))) + mset (held (b_router b))"
  using requests_reachable [OF assms] by (simp add: requests_inv_def pending_routed_def traffic_def)

theorem broker_pending_routed_witness:
  "\<exists>b. b_reachable id b \<and> map fst (b_pending b) = [''q2''] \<and>
     {#''q2''#} = mset (map (\<lambda>x. cr_RequestID (fst x)) (r_blocked (b_router b))) + mset (held (b_router b))"
proof -
  have "map_option (\<lambda>b. map fst (b_pending b)) (broker_run id (serving @ []) (NewBroker False)) = Some [''q2'']"
    by code_simp
  then obtain b where b: "b_reachable id b" "map fst (b_pending b) = [''q2'']" by (rule serving_run)
  from broker_pending_routed [OF b(1)] b show ?thesis by auto
qed

text \<open>C8: the tokens of an agent bound its work. In every reachable state, available and locked tokens
  add up to the usage limit of the agent (capped at the capacity of the channels), and the requests
  it was sent and has not answered are at most that many.\<close>

theorem broker_agent_tokens:
  assumes "b_reachable md5 b" and "(a, x) \<in> set (b_agents b)"
  shows "ag_available x + ag_locked x = min (ag_limit x) MaxTokens \<and> ag_sent x - ag_answered x \<le> min (ag_limit x) MaxTokens"
  using agents_reachable [OF assms(1)] assms(2) by (fastforce simp: agents_inv_def tokens_ok_def split: if_splits)

theorem broker_agent_tokens_witness:
  "\<exists>b x. b_reachable id b \<and> (''agent'', x) \<in> set (b_agents b) \<and> ag_sent x = 1 \<and> ag_limit x = 2 \<and>
     ag_available x + ag_locked x = min (ag_limit x) MaxTokens"
proof -
  have "map_option (\<lambda>b. map (\<lambda>(a, x). (a, ag_sent x, ag_limit x)) (b_agents b)) (broker_run id (serving @ []) (NewBroker False)) =
      Some [(''agent'', 1, 2)]" by code_simp
  then obtain b where b: "b_reachable id b" "map (\<lambda>(a, x). (a, ag_sent x, ag_limit x)) (b_agents b) = [(''agent'', 1, 2)]"
    by (rule serving_run)
  then obtain x where x: "(''agent'', x) \<in> set (b_agents b)" "ag_sent x = 1" "ag_limit x = 2" by auto
  from broker_agent_tokens [OF b(1) x(1)] b(1) x show ?thesis by blast
qed

text \<open>C9: the requests of an agent that is gone are recovered. From every reachable state in which an
  agent goes away, the broker can handle all responses in its queue, and once it has, no request is
  inflight at that agent.\<close>

theorem gone_agent_recovered:
  assumes "b_reachable md5 b" and "a \<in> set (b_online b)"
  shows "\<exists>n b'. broker_run md5 (B_AgentGone a # replicate n (B_HandleResponse 0)) b = Some b' \<and> b_responses b' = [] \<and>
    (\<forall>i ir. (i, ir) \<in> set (b_inflight b') \<longrightarrow> ir_agent ir \<noteq> Some a)"
proof -
  let ?b = "cleanupAgent a b"
  have "fst x \<in> cs_RequestID ` set (b_responses ?b)" if "x \<in> set (b_inflight b)" "ir_agent (snd x) = Some a" for x
    using that by (force simp: cleanupAgent_def defunct_def)
  moreover have "b_inflight ?b = b_inflight b" by (simp add: cleanupAgent_def)
  moreover obtain b' where "broker_run md5 (replicate (length (b_responses ?b)) (B_HandleResponse 0)) ?b = Some b'"
    "b_responses b' = []" "set (b_inflight b') \<subseteq> {x \<in> set (b_inflight ?b). fst x \<notin> cs_RequestID ` set (b_responses ?b)}"
    using drain_responses by blast
  ultimately show ?thesis using assms(2)
    by (intro exI [of _ "length (b_responses ?b)"] exI [of _ b']) force
qed

theorem gone_agent_recovered_witness:
  "\<exists>b n b'. map fst (b_inflight b) = [''q1''] \<and>
     broker_run id (B_AgentGone ''agent'' # replicate n (B_HandleResponse 0)) b = Some b' \<and> b_responses b' = []"
proof -
  have "map_option (\<lambda>b. (b_online b, map fst (b_inflight b))) (broker_run id (serving @ []) (NewBroker False)) =
      Some ([''agent''], [''q1''])" by code_simp
  then obtain b where b: "b_reachable id b" "(b_online b, map fst (b_inflight b)) = ([''agent''], [''q1''])"
    by (rule serving_run)
  then have on: "''agent'' \<in> set (b_online b)" and q: "map fst (b_inflight b) = [''q1'']" by simp_all
  from gone_agent_recovered [OF b(1) on] obtain n b' where
    "broker_run id (B_AgentGone ''agent'' # replicate n (B_HandleResponse 0)) b = Some b'" "b_responses b' = []" by metis
  with q show ?thesis by metis
qed



end
