(* ===== verification/RingBuffer.thy ===== *)
theory RingBuffer
  imports Prelude
begin

text \<open>
  \<open>src/pkg/stream/ringlinebuffer.go\<close>: a buffer that keeps the last lines written to it, on a ring of
  cells (\<open>container/ring\<close>) with a pointer to the oldest line and one to the next cell. The ring is the
  list of its cells and the pointers are indexes. \<open>Write\<close> keeps slices of the buffer of a
  \<open>bufio.Scanner\<close>, which the scanner reuses; the model has the lines themselves and stands for writes
  of at most \<open>2048\<close> bytes, half of the buffer, which the scanner reads without moving anything.
\<close>

section \<open>Model\<close>

record RingLineBuffer =
  maxLines :: int
  curLines :: nat
  cells :: "bytes list"
  first_cell :: nat
  last_cell :: nat

definition NewRingLineBuffer :: "int \<Rightarrow> RingLineBuffer" where
  "NewRingLineBuffer m =
     \<lparr>maxLines = m, curLines = 0, cells = replicate (nat m) [], first_cell = 0, last_cell = 0\<rparr>"

definition ring_Next :: "RingLineBuffer \<Rightarrow> nat \<Rightarrow> nat" where
  "ring_Next wb i = (i + 1) mod length (cells wb)"

text \<open>With no cells the ring is nil, and the assignment to its value panics.\<close>

definition writeLine :: "bytes \<Rightarrow> RingLineBuffer \<Rightarrow> (nat \<times> RingLineBuffer) outcome" where
  "writeLine data wb =
     (if cells wb = [] then Panic
      else let wb1 = wb\<lparr>cells := (cells wb)[last_cell wb := data]\<rparr>;
               wb2 = wb1\<lparr>last_cell := ring_Next wb1 (last_cell wb1)\<rparr>
           in Return (length data,
                if int (curLines wb2) < maxLines wb2 then wb2\<lparr>curLines := curLines wb2 + 1\<rparr>
                else wb2\<lparr>first_cell := last_cell wb2\<rparr>))"

text \<open>The tokens of \<open>bufio.ScanLines\<close>: the lines without their end-of-line marker and without one
  carriage return before it; no token for an empty rest.\<close>

definition dropCR :: "bytes \<Rightarrow> bytes" where
  "dropCR l = (if l \<noteq> [] \<and> last l = CHR 0x0D then butlast l else l)"

definition ScanLines :: "bytes \<Rightarrow> bytes list" where
  "ScanLines data =
     (let parts = Split (CHR 0x0A) data
      in map dropCR (if last parts = [] then butlast parts else parts))"

fun write_lines :: "bytes list \<Rightarrow> nat \<Rightarrow> RingLineBuffer \<Rightarrow> (nat \<times> RingLineBuffer) outcome" where
  "write_lines [] n wb = Return (n, wb)"
| "write_lines (l # ls) n wb =
     (case writeLine l wb of Return (k, wb') \<Rightarrow> write_lines ls (n + k) wb' | Fail e \<Rightarrow> Fail e | Panic \<Rightarrow> Panic)"

definition ring_Write :: "bytes \<Rightarrow> RingLineBuffer \<Rightarrow> (nat \<times> RingLineBuffer) outcome" where
  "ring_Write data wb = write_lines (ScanLines data) 0 wb"

definition LineCount :: "RingLineBuffer \<Rightarrow> nat" where
  "LineCount wb = curLines wb"

definition MaxLines :: "RingLineBuffer \<Rightarrow> int" where
  "MaxLines wb = maxLines wb"

text \<open>The lines that \<open>Foreach\<close> passes to its argument, in order.\<close>

fun foreach_from :: "RingLineBuffer \<Rightarrow> nat \<Rightarrow> nat \<Rightarrow> bytes list" where
  "foreach_from wb cur 0 = []"
| "foreach_from wb cur (Suc n) = cells wb ! cur # foreach_from wb (ring_Next wb cur) n"

definition Foreach :: "RingLineBuffer \<Rightarrow> bytes list" where
  "Foreach wb = foreach_from wb (first_cell wb) (LineCount wb)"

fun write_all :: "bytes list \<Rightarrow> RingLineBuffer \<Rightarrow> RingLineBuffer outcome" where
  "write_all [] wb = Return wb"
| "write_all (d # ds) wb =
     (case ring_Write d wb of Return (_, wb') \<Rightarrow> write_all ds wb' | Fail e \<Rightarrow> Fail e | Panic \<Rightarrow> Panic)"

section \<open>The last lines\<close>

definition lastn :: "nat \<Rightarrow> 'a list \<Rightarrow> 'a list" where
  "lastn n xs = drop (length xs - n) xs"

lemma lastn_short: "length xs \<le> n \<Longrightarrow> lastn n xs = xs"
  by (simp add: lastn_def)

lemma lastn_append: "lastn n (lastn n xs @ ys) = lastn n (xs @ ys)"
  by (cases "length xs \<le> n") (auto simp: lastn_def add.commute)

definition ring_ok :: "nat \<Rightarrow> RingLineBuffer \<Rightarrow> bool" where
  "ring_ok n wb \<longleftrightarrow> n > 0 \<and> maxLines wb = int n \<and> length (cells wb) = n \<and> curLines wb \<le> n \<and> first_cell wb < n \<and>
     last_cell wb = (first_cell wb + curLines wb) mod n \<and> (curLines wb < n \<longrightarrow> first_cell wb = 0)"

lemma foreach_from_nth:
  "cur < length (cells wb) \<Longrightarrow> foreach_from wb cur k = map (\<lambda>i. cells wb ! ((cur + i) mod length (cells wb))) [0..<k]"
proof (induction k arbitrary: cur)
  case (Suc k)
  have "cells wb \<noteq> []" using Suc.prems by auto
  then have "ring_Next wb cur < length (cells wb)" by (simp add: ring_Next_def)
  from Suc.IH [OF this] have "foreach_from wb cur (Suc k) =
      cells wb ! cur # map (\<lambda>i. cells wb ! ((cur + Suc i) mod length (cells wb))) [0..<k]"
    by (simp add: ring_Next_def mod_simps)
  then show ?case using Suc.prems by (simp add: map_upt_Suc del: upt_Suc)
qed simp

lemma Foreach_nth: "ring_ok n wb \<Longrightarrow> Foreach wb = map (\<lambda>i. cells wb ! ((first_cell wb + i) mod n)) [0..<curLines wb]"
  by (simp add: Foreach_def LineCount_def foreach_from_nth ring_ok_def)

lemma writeLine_filling:
  fixes d :: bytes
  assumes "ring_ok n wb" and "curLines wb < n"
  defines "wb' \<equiv> wb\<lparr>cells := (cells wb)[curLines wb := d], last_cell := (curLines wb + 1) mod n, curLines := curLines wb + 1\<rparr>"
  shows "writeLine d wb = Return (length d, wb')" and "ring_ok n wb'" and "Foreach wb' = lastn n (Foreach wb @ [d])"
proof -
  have ok: "n > 0" "maxLines wb = int n" "length (cells wb) = n" "first_cell wb = 0" "last_cell wb = curLines wb"
    using assms(1,2) by (auto simp: ring_ok_def)
  show "writeLine d wb = Return (length d, wb')"
    using ok assms(2) by (auto simp: writeLine_def ring_Next_def wb'_def Let_def)
  show ok': "ring_ok n wb'" using ok assms(2) by (simp add: ring_ok_def wb'_def)
  have "Foreach wb' = Foreach wb @ [d]"
    unfolding Foreach_nth [OF ok'] Foreach_nth [OF assms(1)] using ok assms(2) by (auto simp: wb'_def)
  then show "Foreach wb' = lastn n (Foreach wb @ [d])"
    using assms(2) by (simp add: lastn_short Foreach_nth [OF assms(1)])
qed

lemma writeLine_full:
  fixes d :: bytes
  assumes "ring_ok n wb" and "curLines wb = n"
  defines "wb' \<equiv> wb\<lparr>cells := (cells wb)[first_cell wb := d], last_cell := (first_cell wb + 1) mod n,
    first_cell := (first_cell wb + 1) mod n\<rparr>"
  shows "writeLine d wb = Return (length d, wb')" and "ring_ok n wb'" and "Foreach wb' = lastn n (Foreach wb @ [d])"
proof -
  have ok: "n > 0" "maxLines wb = int n" "length (cells wb) = n" "first_cell wb < n" "last_cell wb = first_cell wb"
    using assms(1,2) by (auto simp: ring_ok_def)
  show "writeLine d wb = Return (length d, wb')"
    using ok assms(2) by (auto simp: writeLine_def ring_Next_def wb'_def Let_def)
  show ok': "ring_ok n wb'" using ok assms(2) by (simp add: ring_ok_def wb'_def)
  have cell: "cells wb' ! ((first_cell wb' + i) mod n) = (Foreach wb @ [d]) ! Suc i" if "i < n" for i
  proof (cases "Suc i = n")
    case True
    then have "(first_cell wb' + i) mod n = first_cell wb"
      using ok by (simp add: wb'_def mod_simps) (metis add_Suc_right mod_add_self2 mod_less)
    then show ?thesis using ok True assms(2) by (simp add: wb'_def nth_append Foreach_nth [OF assms(1)])
  next
    case False
    then have i: "Suc i < n" using that by simp
    have "(first_cell wb + Suc i) mod n = (if first_cell wb + Suc i < n then first_cell wb + Suc i else first_cell wb + Suc i - n)"
      using ok i by (simp add: le_mod_geq)
    then have "(first_cell wb + Suc i) mod n \<noteq> first_cell wb" using i by auto
    then show ?thesis using ok i assms(2)
      by (simp add: wb'_def nth_append Foreach_nth [OF assms(1)] mod_simps)
  qed
  have len: "length (Foreach wb) = n" by (simp add: Foreach_nth [OF assms(1)] assms(2))
  then have "lastn n (Foreach wb @ [d]) = drop 1 (Foreach wb @ [d])" by (simp add: lastn_def)
  moreover have "Foreach wb' = drop 1 (Foreach wb @ [d])"
  proof (rule nth_equalityI)
    have "curLines wb' = n" using assms(2) by (simp add: wb'_def)
    then have eq: "Foreach wb' = map (\<lambda>i. cells wb' ! ((first_cell wb' + i) mod n)) [0..<n]" by (simp add: Foreach_nth [OF ok'])
    then show "length (Foreach wb') = length (drop 1 (Foreach wb @ [d]))" using len by simp
    fix i assume "i < length (Foreach wb')"
    then have "i < n" using eq by simp
    then show "Foreach wb' ! i = drop 1 (Foreach wb @ [d]) ! i" unfolding eq using cell len by (auto simp: nth_append)
  qed
  ultimately show "Foreach wb' = lastn n (Foreach wb @ [d])" by simp
qed

lemma writeLine_ok:
  assumes "ring_ok n wb"
  obtains wb' where "writeLine d wb = Return (length d, wb')" "ring_ok n wb'" "Foreach wb' = lastn n (Foreach wb @ [d])"
proof (cases "curLines wb < n")
  case True
  from that [OF writeLine_filling [OF assms True]] show thesis .
next
  case False
  with assms have "curLines wb = n" by (simp add: ring_ok_def)
  from that [OF writeLine_full [OF assms this]] show thesis .
qed

lemma write_lines_ok:
  "ring_ok n wb \<Longrightarrow> \<exists>wb'. write_lines ls k wb = Return (k + length (concat ls), wb') \<and> ring_ok n wb' \<and>
     Foreach wb' = lastn n (Foreach wb @ ls)"
proof (induction ls arbitrary: k wb)
  case Nil
  then have "length (Foreach wb) \<le> n" by (simp add: Foreach_nth) (simp add: ring_ok_def)
  with Nil show ?case by (simp add: lastn_short)
next
  case (Cons l ls)
  obtain wb1 where wb1: "writeLine l wb = Return (length l, wb1)" "ring_ok n wb1" "Foreach wb1 = lastn n (Foreach wb @ [l])"
    by (rule writeLine_ok [OF Cons.prems])
  from Cons.IH [OF wb1(2), of "k + length l"] wb1 lastn_append [of n "Foreach wb @ [l]" ls]
  show ?case by (auto simp: add.assoc)
qed

lemma write_all_ok:
  "ring_ok n wb \<Longrightarrow> \<exists>wb'. write_all ds wb = Return wb' \<and> ring_ok n wb' \<and>
     Foreach wb' = lastn n (Foreach wb @ concat (map ScanLines ds))"
proof (induction ds arbitrary: wb)
  case Nil
  then have "length (Foreach wb) \<le> n" by (simp add: Foreach_nth) (simp add: ring_ok_def)
  with Nil show ?case by (simp add: lastn_short)
next
  case (Cons d ds)
  from write_lines_ok [OF Cons.prems, of "ScanLines d" 0] obtain wb1 where
    wb1: "ring_Write d wb = Return (length (concat (ScanLines d)), wb1)" "ring_ok n wb1" "Foreach wb1 = lastn n (Foreach wb @ ScanLines d)"
    by (auto simp: ring_Write_def)
  from Cons.IH [OF wb1(2)] wb1 lastn_append [of n "Foreach wb @ ScanLines d" "concat (map ScanLines ds)"]
  show ?case by auto
qed

section \<open>Properties\<close>

text \<open>The ring buffer keeps the last lines. After any sequence of writes, none of which is longer
  than half the buffer of the scanner, \<open>Foreach\<close> visits the last \<open>max\<close> lines that were written, in
  the order in which they were written, and no write panics.\<close>

theorem ring_keeps_last_lines:
  assumes "m > 0" and "\<forall>d\<in>set ds. length d \<le> 2048"
  shows "\<exists>wb. write_all ds (NewRingLineBuffer m) = Return wb \<and>
    Foreach wb = lastn (nat m) (concat (map ScanLines ds)) \<and> LineCount wb = min (nat m) (length (concat (map ScanLines ds)))"
proof -
  have "ring_ok (nat m) (NewRingLineBuffer m)" and "Foreach (NewRingLineBuffer m) = []"
    using assms(1) by (simp_all add: ring_ok_def NewRingLineBuffer_def Foreach_def LineCount_def)
  with write_all_ok [of "nat m" "NewRingLineBuffer m" ds] obtain wb where
    wb: "write_all ds (NewRingLineBuffer m) = Return wb" "ring_ok (nat m) wb" "Foreach wb = lastn (nat m) (concat (map ScanLines ds))"
    by auto
  have "LineCount wb = length (Foreach wb)" by (simp add: Foreach_nth [OF wb(2)] LineCount_def)
  then have "LineCount wb = min (nat m) (length (concat (map ScanLines ds)))" unfolding wb(3) by (simp add: lastn_def min_def)
  with wb show ?thesis by blast
qed

definition sample_writes :: "bytes list" where
  "sample_writes = [''one'' @ [CHR 0x0A] @ ''two'' @ [CHR 0x0D, CHR 0x0A], ''three'', [CHR 0x0A] @ ''five'']"

theorem ring_keeps_last_lines_witness:
  "\<exists>wb. write_all sample_writes (NewRingLineBuffer 3) = Return wb \<and> Foreach wb = [''three'', [], ''five'']"
proof -
  have "\<forall>d\<in>set sample_writes. length d \<le> 2048" by (simp add: sample_writes_def)
  moreover have "lastn (nat 3) (concat (map ScanLines sample_writes)) = [''three'', [], ''five'']" by code_simp
  ultimately show ?thesis using ring_keeps_last_lines [of 3 sample_writes] by auto
qed

end
