(* ===== verification/WorkerPool.thy ===== *)
theory WorkerPool
  imports Prelude
begin

text \<open>
  \<open>src/pkg/util/pause.go\<close> and \<open>src/pkg/run/workerpool.go\<close>: a pool of workers on a shared queue. The
  goroutines are part of the state: the manager of the queue, each worker, and a call of \<open>Resize\<close> that
  still has stop signals to send. A future task is a channel between the manager and one worker; it
  is the slot of the worker that waits on it, or nobody's once that worker has stopped. The upstream
  queue is the argument of the step in which the manager takes a task; the queues the sources use are
  never closed.
\<close>

section \<open>PauseController\<close>

record PauseController =
  pc_paused :: bool

definition NewPauseController :: "bool \<Rightarrow> PauseController" where
  "NewPauseController defaultPaused = \<lparr>pc_paused = defaultPaused\<rparr>"

definition Pause :: "'a PauseController_scheme \<Rightarrow> 'a PauseController_scheme" where
  "Pause p = p\<lparr>pc_paused := True\<rparr>"

definition Resume :: "'a PauseController_scheme \<Rightarrow> 'a PauseController_scheme" where
  "Resume p = p\<lparr>pc_paused := False\<rparr>"

text \<open>Whether a call of \<open>CheckPaused\<close> returns in this state; otherwise it waits.\<close>

definition CheckPaused :: "'a PauseController_scheme \<Rightarrow> bool" where
  "CheckPaused p = (\<not> pc_paused p)"

section \<open>WorkerPool\<close>

datatype 't worker =
    Idle                     \<comment> \<open>at the outer select\<close>
  | Waiting "'t option"      \<comment> \<open>at the inner select, with what the channel of its future task holds\<close>
  | Running 't

text \<open>The manager checks for a pause, offers a future task, or waits for a task of the upstream queue
  after a worker with the given number has accepted.\<close>

datatype manager = Checking | Offering | Selecting nat

record 't WorkerPool = PauseController +
  wp_manager :: manager
  wp_workers :: "(nat \<times> 't worker) list"
  wp_next :: nat
  wp_stops :: nat
  wp_lost :: "'t list"       \<comment> \<open>tasks in the channels of workers that have stopped\<close>

definition NewWorkerPool :: "bool \<Rightarrow> 't WorkerPool" where
  "NewWorkerPool paused =
     \<lparr>pc_paused = paused, wp_manager = Checking, wp_workers = [], wp_next = 0, wp_stops = 0, wp_lost = []\<rparr>"

definition pool_Size :: "'t WorkerPool \<Rightarrow> nat" where
  "pool_Size wp = length (wp_workers wp)"

text \<open>\<open>Resize\<close>, up to the stop signals it waits to send.\<close>

definition Resize :: "int \<Rightarrow> 't WorkerPool \<Rightarrow> 't WorkerPool" where
  "Resize cnt wp =
     (let numWorkers = pool_Size wp
      in if cnt > int numWorkers
         then wp\<lparr>wp_workers := wp_workers wp @ map (\<lambda>i. (i, Idle)) [wp_next wp..<wp_next wp + (nat cnt - numWorkers)],
                 wp_next := wp_next wp + (nat cnt - numWorkers)\<rparr>
         else if cnt < int numWorkers \<and> cnt \<ge> 0
         then wp\<lparr>wp_stops := numWorkers - nat cnt\<rparr>
         else wp)"

text \<open>The steps of \<open>manageQueue\<close>. The task it takes goes to the channel of the future task, whether or
  not the worker is still there.\<close>

definition manager_check :: "'t WorkerPool \<Rightarrow> 't WorkerPool option" where
  "manager_check wp =
     (if wp_manager wp = Checking \<and> CheckPaused wp then Some (wp\<lparr>wp_manager := Offering\<rparr>) else None)"

definition set_worker :: "nat \<Rightarrow> 't worker \<Rightarrow> 't WorkerPool \<Rightarrow> 't WorkerPool" where
  "set_worker i w wp = wp\<lparr>wp_workers := map (\<lambda>(j, v). (j, if j = i then w else v)) (wp_workers wp)\<rparr>"

definition worker_accept :: "nat \<Rightarrow> 't WorkerPool \<Rightarrow> 't WorkerPool option" where
  "worker_accept i wp =
     (if wp_manager wp = Offering \<and> map_of (wp_workers wp) i = Some Idle
      then Some ((set_worker i (Waiting None) wp)\<lparr>wp_manager := Selecting i\<rparr>) else None)"

definition manager_select :: "'t \<Rightarrow> 't WorkerPool \<Rightarrow> 't WorkerPool option" where
  "manager_select t wp =
     (case wp_manager wp of
        Selecting i \<Rightarrow>
          (if i \<in> fst ` set (wp_workers wp)
           then Some ((set_worker i (Waiting (Some t)) wp)\<lparr>wp_manager := Checking\<rparr>)
           else Some (wp\<lparr>wp_lost := wp_lost wp @ [t], wp_manager := Checking\<rparr>))
      | _ \<Rightarrow> None)"

text \<open>The steps of \<open>worker.Run\<close>: it takes the task out of its channel, finishes it, or takes a stop
  signal at one of its two selects. A task in the channel of a stopped worker stays there.\<close>

definition worker_start :: "nat \<Rightarrow> 't WorkerPool \<Rightarrow> ('t \<times> 't WorkerPool) option" where
  "worker_start i wp =
     (case map_of (wp_workers wp) i of
        Some (Waiting (Some t)) \<Rightarrow> Some (t, set_worker i (Running t) wp)
      | _ \<Rightarrow> None)"

definition worker_finish :: "nat \<Rightarrow> 't WorkerPool \<Rightarrow> ('t \<times> 't WorkerPool) option" where
  "worker_finish i wp =
     (case map_of (wp_workers wp) i of
        Some (Running t) \<Rightarrow> Some (t, set_worker i Idle wp)
      | _ \<Rightarrow> None)"

definition worker_stop :: "nat \<Rightarrow> 't WorkerPool \<Rightarrow> 't WorkerPool option" where
  "worker_stop i wp =
     (if wp_stops wp = 0 then None
      else let wp' = wp\<lparr>wp_stops := wp_stops wp - 1, wp_workers := filter (\<lambda>(j, w). j \<noteq> i) (wp_workers wp)\<rparr>
           in case map_of (wp_workers wp) i of
                Some Idle \<Rightarrow> Some wp'
              | Some (Waiting None) \<Rightarrow> Some wp'
              | Some (Waiting (Some t)) \<Rightarrow> Some (wp'\<lparr>wp_lost := wp_lost wp @ [t]\<rparr>)
              | _ \<Rightarrow> None)"

section \<open>Invariant\<close>

text \<open>Worker numbers are distinct and old; the worker the manager has an open future task with is still
  waiting for it, and a worker waits with an empty channel only then.\<close>

definition pool_inv :: "'t WorkerPool \<Rightarrow> bool" where
  "pool_inv wp \<longleftrightarrow> distinct (map fst (wp_workers wp)) \<and>
     (\<forall>i w. (i, w) \<in> set (wp_workers wp) \<longrightarrow> i < wp_next wp \<and> (w = Waiting None \<longleftrightarrow> wp_manager wp = Selecting i)) \<and>
     (\<forall>i. wp_manager wp = Selecting i \<longrightarrow> i < wp_next wp)"

lemma pool_invI:
  assumes "distinct (map fst (wp_workers wp))"
    and "\<And>i w. (i, w) \<in> set (wp_workers wp) \<Longrightarrow> i < wp_next wp \<and> (w = Waiting None \<longleftrightarrow> wp_manager wp = Selecting i)"
    and "\<And>i. wp_manager wp = Selecting i \<Longrightarrow> i < wp_next wp"
  shows "pool_inv wp"
  using assms by (simp add: pool_inv_def)

lemma pool_invD:
  assumes "pool_inv wp"
  shows "distinct (map fst (wp_workers wp))"
    and "(i, w) \<in> set (wp_workers wp) \<Longrightarrow> i < wp_next wp"
    and "(i, w) \<in> set (wp_workers wp) \<Longrightarrow> w = Waiting None \<longleftrightarrow> wp_manager wp = Selecting i"
    and "wp_manager wp = Selecting i \<Longrightarrow> i < wp_next wp"
  using assms by (auto simp: pool_inv_def)

fun started :: "'t worker \<Rightarrow> 't list" where
  "started (Running t) = [t]"
| "started _ = []"

fun handed :: "'t worker \<Rightarrow> 't list" where
  "handed (Waiting (Some t)) = [t]"
| "handed _ = []"

definition pool_handed :: "'t WorkerPool \<Rightarrow> 't list" where
  "pool_handed wp = concat (map (\<lambda>(i, w). handed w) (wp_workers wp))"

definition pool_running :: "'t WorkerPool \<Rightarrow> 't list" where
  "pool_running wp = concat (map (\<lambda>(i, w). started w) (wp_workers wp))"

lemma concat_update:
  assumes "distinct (map fst ws)" and "map_of ws i = Some w"
  shows "mset (concat (map (\<lambda>(j, v). f v) (map (\<lambda>(j, v). (j, if j = i then w' else v)) ws))) + mset (f w) =
    mset (concat (map (\<lambda>(j, v). f v) ws)) + mset (f w')"
  using assms
proof (induction ws)
  case (Cons a ws)
  obtain j v where a: "a = (j, v)" by force
  show ?case
  proof (cases "j = i")
    case True
    with Cons.prems a have "map (\<lambda>(j, v). (j, if j = i then w' else v)) ws = ws"
      by (intro map_idI) (auto simp: image_iff)
    with True Cons.prems a show ?thesis by (simp add: ac_simps)
  next
    case False
    with Cons a show ?thesis by (simp add: ac_simps)
  qed
qed simp

lemma concat_remove:
  assumes "distinct (map fst ws)" and "map_of ws i = Some w"
  shows "mset (concat (map (\<lambda>(j, v). f v) ws)) = mset (f w) + mset (concat (map (\<lambda>(j, v). f v) (filter (\<lambda>(j, v). j \<noteq> i) ws)))"
  using assms
proof (induction ws)
  case (Cons a ws)
  obtain j v where a: "a = (j, v)" by force
  show ?case
  proof (cases "j = i")
    case True
    with Cons.prems a have "filter (\<lambda>(j, v). j \<noteq> i) ws = ws" by (auto simp: filter_id_conv image_iff)
    with True Cons.prems a show ?thesis by simp
  next
    case False
    with Cons a show ?thesis by (simp add: ac_simps)
  qed
qed simp

lemma set_worker_keys [simp]: "map fst (wp_workers (set_worker i w wp)) = map fst (wp_workers wp)"
  by (simp add: set_worker_def split_def comp_def)

lemma set_worker_same [simp]:
  "wp_lost (set_worker i w wp) = wp_lost wp" "wp_manager (set_worker i w wp) = wp_manager wp"
  "wp_next (set_worker i w wp) = wp_next wp" "wp_stops (set_worker i w wp) = wp_stops wp"
  by (simp_all add: set_worker_def)

lemma set_worker_mem: "(j, v) \<in> set (wp_workers (set_worker i w wp)) \<longleftrightarrow>
    (if j = i then v = w \<and> i \<in> fst ` set (wp_workers wp) else (j, v) \<in> set (wp_workers wp))"
  by (force simp: set_worker_def image_iff)

lemma set_worker_handed:
  assumes "pool_inv wp" and "map_of (wp_workers wp) i = Some w"
  shows "mset (pool_handed (set_worker i w' wp)) + mset (handed w) = mset (pool_handed wp) + mset (handed w')"
    and "mset (pool_running (set_worker i w' wp)) + mset (started w) = mset (pool_running wp) + mset (started w')"
  using concat_update [of "wp_workers wp" i w _ w'] assms
  by (simp_all add: pool_handed_def pool_running_def set_worker_def pool_inv_def)

lemma pool_set_worker_inv:
  assumes "pool_inv wp" and "map_of (wp_workers wp) i = Some w" and "w' = Waiting None \<longleftrightarrow> m = Selecting i"
    and "\<And>j. j \<noteq> i \<Longrightarrow> m = Selecting j \<longleftrightarrow> wp_manager wp = Selecting j"
  shows "pool_inv ((set_worker i w' wp)\<lparr>wp_manager := m\<rparr>)"
proof (rule pool_invI)
  show "distinct (map fst (wp_workers ((set_worker i w' wp)\<lparr>wp_manager := m\<rparr>)))"
    using pool_invD(1) [OF assms(1)] by simp
next
  fix j v assume jv: "(j, v) \<in> set (wp_workers ((set_worker i w' wp)\<lparr>wp_manager := m\<rparr>))"
  have "(i, w) \<in> set (wp_workers wp)" using assms(2) by (rule map_of_SomeD)
  with jv show "j < wp_next ((set_worker i w' wp)\<lparr>wp_manager := m\<rparr>) \<and>
      (v = Waiting None \<longleftrightarrow> wp_manager ((set_worker i w' wp)\<lparr>wp_manager := m\<rparr>) = Selecting j)"
    using pool_invD(2,3) [OF assms(1)] assms(3,4) by (auto simp: set_worker_mem split: if_splits)
next
  fix j assume j: "wp_manager ((set_worker i w' wp)\<lparr>wp_manager := m\<rparr>) = Selecting j"
  show "j < wp_next ((set_worker i w' wp)\<lparr>wp_manager := m\<rparr>)"
    using j pool_invD(2) [OF assms(1) map_of_SomeD [OF assms(2)]] pool_invD(4) [OF assms(1), of j] assms(4) by (cases "j = i") auto
qed

text \<open>What each step does to the tasks in the pool.\<close>

lemma manager_check_pool:
  "manager_check wp = Some wp' \<Longrightarrow> pool_inv wp \<Longrightarrow> pool_inv wp' \<and> pool_handed wp' = pool_handed wp \<and>
     pool_running wp' = pool_running wp \<and> wp_lost wp' = wp_lost wp"
  by (clarsimp simp: manager_check_def pool_inv_def pool_handed_def pool_running_def split: if_splits)

lemma worker_accept_pool:
  assumes "worker_accept i wp = Some wp'" and "pool_inv wp"
  shows "pool_inv wp' \<and> mset (pool_handed wp') = mset (pool_handed wp) \<and> mset (pool_running wp') = mset (pool_running wp) \<and>
    wp_lost wp' = wp_lost wp"
proof -
  from assms(1) have g: "wp_manager wp = Offering" "map_of (wp_workers wp) i = Some Idle"
    and wp': "wp' = (set_worker i (Waiting None) wp)\<lparr>wp_manager := Selecting i\<rparr>"
    by (auto simp: worker_accept_def split: if_splits)
  have "pool_inv wp'" unfolding wp' using assms(2) g by (intro pool_set_worker_inv) auto
  with set_worker_handed [OF assms(2) g(2), of "Waiting None"] show ?thesis
    unfolding wp' by (simp add: pool_handed_def pool_running_def)
qed

lemma manager_select_pool:
  assumes "manager_select t wp = Some wp'" and "pool_inv wp"
  shows "pool_inv wp' \<and> mset (pool_handed wp' @ wp_lost wp') = add_mset t (mset (pool_handed wp @ wp_lost wp)) \<and>
    mset (pool_running wp') = mset (pool_running wp)"
proof -
  from assms(1) obtain i where i: "wp_manager wp = Selecting i" by (auto simp: manager_select_def split: manager.splits)
  show ?thesis
  proof (cases "i \<in> fst ` set (wp_workers wp)")
    case True
    then obtain v where v: "(i, v) \<in> set (wp_workers wp)" by auto
    then have w: "map_of (wp_workers wp) i = Some (Waiting None)"
      using pool_invD(3) [OF assms(2) v] pool_invD(1) [OF assms(2)] i by simp
    have wp': "wp' = (set_worker i (Waiting (Some t)) wp)\<lparr>wp_manager := Checking\<rparr>"
      using assms(1) i True by (simp add: manager_select_def)
    have "pool_inv wp'" unfolding wp' using assms(2) w i by (intro pool_set_worker_inv) auto
    with set_worker_handed [OF assms(2) w, of "Waiting (Some t)"] show ?thesis
      unfolding wp' by (simp add: pool_handed_def pool_running_def)
  next
    case False
    then have "wp' = wp\<lparr>wp_lost := wp_lost wp @ [t], wp_manager := Checking\<rparr>" using assms(1) i by (simp add: manager_select_def)
    moreover have "wp_manager wp \<noteq> Selecting j" if "(j, w) \<in> set (wp_workers wp)" for j w
      using that i False by force
    ultimately show ?thesis using assms(2) by (auto simp: pool_inv_def pool_handed_def pool_running_def)
  qed
qed

lemma worker_start_pool:
  assumes "worker_start i wp = Some (t, wp')" and "pool_inv wp"
  shows "pool_inv wp' \<and> mset (pool_handed wp) = add_mset t (mset (pool_handed wp')) \<and>
    mset (pool_running wp') = add_mset t (mset (pool_running wp)) \<and> wp_lost wp' = wp_lost wp"
proof -
  from assms(1) have w: "map_of (wp_workers wp) i = Some (Waiting (Some t))" and wp': "wp' = set_worker i (Running t) wp"
    by (auto simp: worker_start_def split: option.splits worker.splits)
  have "wp_manager wp \<noteq> Selecting i" using pool_invD(3) [OF assms(2) map_of_SomeD [OF w]] by simp
  with pool_set_worker_inv [OF assms(2) w, of "Running t" "wp_manager wp"] have "pool_inv wp'"
    by (simp add: wp' set_worker_def)
  with set_worker_handed [OF assms(2) w, of "Running t"] show ?thesis unfolding wp' by simp
qed

lemma worker_finish_pool:
  assumes "worker_finish i wp = Some (t, wp')" and "pool_inv wp"
  shows "pool_inv wp' \<and> mset (pool_handed wp') = mset (pool_handed wp) \<and>
    mset (pool_running wp) = add_mset t (mset (pool_running wp')) \<and> wp_lost wp' = wp_lost wp"
proof -
  from assms(1) have w: "map_of (wp_workers wp) i = Some (Running t)" and wp': "wp' = set_worker i Idle wp"
    by (auto simp: worker_finish_def split: option.splits worker.splits)
  have "wp_manager wp \<noteq> Selecting i" using pool_invD(3) [OF assms(2) map_of_SomeD [OF w]] by simp
  with pool_set_worker_inv [OF assms(2) w, of Idle "wp_manager wp"] have "pool_inv wp'"
    by (simp add: wp' set_worker_def)
  with set_worker_handed [OF assms(2) w, of Idle] show ?thesis unfolding wp' by simp
qed

lemma worker_stop_pool:
  assumes "worker_stop i wp = Some wp'" and "pool_inv wp"
  shows "pool_inv wp' \<and> mset (pool_handed wp' @ wp_lost wp') = mset (pool_handed wp @ wp_lost wp) \<and>
    mset (pool_running wp') = mset (pool_running wp)"
proof -
  let ?ws = "filter (\<lambda>(j, w). j \<noteq> i) (wp_workers wp)"
  from assms(1) obtain w where w: "map_of (wp_workers wp) i = Some w" "started w = []"
    and wp': "wp' = wp\<lparr>wp_stops := wp_stops wp - 1, wp_workers := ?ws, wp_lost := wp_lost wp @ handed w\<rparr>"
    by (auto simp: worker_stop_def Let_def split: if_splits option.splits worker.splits)
  have "pool_inv wp'" using assms(2) unfolding wp' by (auto simp: pool_inv_def distinct_map_filter)
  then show ?thesis using concat_remove [OF pool_invD(1) [OF assms(2)] w(1), of handed]
      concat_remove [OF pool_invD(1) [OF assms(2)] w(1), of started] w(2)
    by (simp add: wp' pool_handed_def pool_running_def)
qed

lemma Resize_pool:
  assumes "pool_inv wp"
  shows "pool_inv (Resize n wp) \<and> pool_handed (Resize n wp) = pool_handed wp \<and>
    pool_running (Resize n wp) = pool_running wp \<and> wp_lost (Resize n wp) = wp_lost wp"
proof -
  let ?grown = "\<lambda>k. wp\<lparr>wp_workers := wp_workers wp @ map (\<lambda>i. (i, Idle)) [wp_next wp..<wp_next wp + k], wp_next := wp_next wp + k\<rparr>"
  have g: "pool_handed (?grown k) = pool_handed wp" "pool_running (?grown k) = pool_running wp" for k
    by (auto simp: pool_handed_def pool_running_def)
  have "pool_inv (?grown k)" for k
  proof (rule pool_invI)
    show "distinct (map fst (wp_workers (?grown k)))"
      using pool_invD(1,2) [OF assms] by (force simp: comp_def)
  next
    fix i w assume "(i, w) \<in> set (wp_workers (?grown k))"
    then show "i < wp_next (?grown k) \<and> (w = Waiting None \<longleftrightarrow> wp_manager (?grown k) = Selecting i)"
      using pool_invD(2,3) [OF assms, of i w] pool_invD(4) [OF assms, of i] by auto
  next
    fix i assume "wp_manager (?grown k) = Selecting i"
    then show "i < wp_next (?grown k)" using pool_invD(4) [OF assms, of i] by simp
  qed
  moreover have "pool_inv (wp\<lparr>wp_stops := k\<rparr>)" for k using assms by (simp add: pool_inv_def)
  ultimately show ?thesis using assms g
    by (simp add: Resize_def Let_def del: Nat.add_diff_assoc) (simp add: pool_handed_def pool_running_def)
qed

lemmas pool_steps = manager_check_pool worker_accept_pool manager_select_pool worker_start_pool worker_finish_pool
  worker_stop_pool Resize_pool

end
