(* ===== verification/Floats.thy ===== *)
theory Floats
  imports Prelude
begin

text \<open>
  Arithmetic on the values of \<open>float64\<close> as the sources use it: rationals without rounding, the two
  infinities and NaN. A zero has no sign, so a finite value divided by a zero is taken with a
  positive zero.
\<close>

fun fadd :: "go_float \<Rightarrow> go_float \<Rightarrow> go_float" where
  "fadd (Fin a) (Fin b) = Fin (a + b)"
| "fadd NaN _ = NaN"
| "fadd _ NaN = NaN"
| "fadd PosInf NegInf = NaN"
| "fadd NegInf PosInf = NaN"
| "fadd PosInf _ = PosInf"
| "fadd NegInf _ = NegInf"
| "fadd (Fin _) y = y"

fun fneg :: "go_float \<Rightarrow> go_float" where
  "fneg (Fin a) = Fin (- a)"
| "fneg PosInf = NegInf"
| "fneg NegInf = PosInf"
| "fneg NaN = NaN"

definition fsub :: "go_float \<Rightarrow> go_float \<Rightarrow> go_float" where
  "fsub x y = fadd x (fneg y)"

fun fmul :: "go_float \<Rightarrow> go_float \<Rightarrow> go_float" where
  "fmul (Fin a) (Fin b) = Fin (a * b)"
| "fmul NaN _ = NaN"
| "fmul _ NaN = NaN"
| "fmul PosInf (Fin b) = (if b = 0 then NaN else if b > 0 then PosInf else NegInf)"
| "fmul NegInf (Fin b) = (if b = 0 then NaN else if b > 0 then NegInf else PosInf)"
| "fmul (Fin a) PosInf = (if a = 0 then NaN else if a > 0 then PosInf else NegInf)"
| "fmul (Fin a) NegInf = (if a = 0 then NaN else if a > 0 then NegInf else PosInf)"
| "fmul PosInf y = y"
| "fmul NegInf y = fneg y"

fun fquot :: "go_float \<Rightarrow> go_float \<Rightarrow> go_float" where
  "fquot (Fin a) (Fin b) = (if b \<noteq> 0 then Fin (a / b) else if a = 0 then NaN else if a > 0 then PosInf else NegInf)"
| "fquot NaN _ = NaN"
| "fquot _ NaN = NaN"
| "fquot (Fin _) _ = Fin 0"
| "fquot PosInf (Fin b) = (if b < 0 then NegInf else PosInf)"
| "fquot NegInf (Fin b) = (if b < 0 then PosInf else NegInf)"
| "fquot _ _ = NaN"

text \<open>\<open>math.Round\<close>: to the nearest integer, halves away from zero.\<close>

definition round_half :: "rat \<Rightarrow> int" where
  "round_half r = (if r \<ge> 0 then \<lfloor>r + 1 / 2\<rfloor> else - \<lfloor>1 / 2 - r\<rfloor>)"

fun math_Round :: "go_float \<Rightarrow> go_float" where
  "math_Round (Fin r) = Fin (of_int (round_half r))"
| "math_Round x = x"

text \<open>The conversion \<open>int64(x)\<close> of a value that has one; the language leaves the others open.\<close>

definition to_int64 :: "go_float \<Rightarrow> int option" where
  "to_int64 x =
     (case x of
        Fin r \<Rightarrow> (let i = (if r \<ge> 0 then \<lfloor>r\<rfloor> else \<lceil>r\<rceil>) in if - (2 ^ 63) \<le> i \<and> i < 2 ^ 63 then Some i else None)
      | _ \<Rightarrow> None)"

lemma to_int64_of_int [simp]: "to_int64 (Fin (of_int i)) = (if - (2 ^ 63) \<le> i \<and> i < 2 ^ 63 then Some i else None)"
  by (simp add: to_int64_def)

lemma round_half_int [simp]: "round_half (of_int i) = i"
proof -
  have "\<lfloor>of_int i + 1 / 2 :: rat\<rfloor> = i" by (rule floor_unique) auto
  moreover have "\<lfloor>1 / 2 - of_int i :: rat\<rfloor> = - i" by (rule floor_unique) auto
  ultimately show ?thesis by (simp add: round_half_def)
qed

lemma round_half_mono:
  assumes "r \<le> s"
  shows "round_half r \<le> round_half s"
proof (cases "r \<ge> 0")
  case True
  with assms show ?thesis by (auto simp: round_half_def intro: floor_mono)
next
  case False
  show ?thesis
  proof (cases "s \<ge> 0")
    case True
    have "0 \<le> \<lfloor>1 / 2 - r\<rfloor>" "0 \<le> \<lfloor>s + 1 / 2\<rfloor>" using False True by auto
    then have "- \<lfloor>1 / 2 - r\<rfloor> \<le> \<lfloor>s + 1 / 2\<rfloor>" by linarith
    with False True show ?thesis unfolding round_half_def by simp
  next
    case s: False
    have "\<lfloor>1 / 2 - s\<rfloor> \<le> \<lfloor>1 / 2 - r\<rfloor>" using assms by (intro floor_mono) auto
    then show ?thesis using False s by (simp add: round_half_def)
  qed
qed

end
