(* ===== verification/Telemetry.thy ===== *)
theory Telemetry
  imports Floats
begin

text \<open>
  \<open>src/pkg/consumerd/telemetry.go\<close>: the counters of the split queue and their recorded history, with
  the operations on recorded entries. Times are nanoseconds of Unix time; the zero value of
  \<open>time.Time\<close> lies before them. The moving average and the linear regression come from libraries and
  are parameters.
\<close>

section \<open>Model\<close>

definition zeroTime :: int where
  "zeroTime = - 62135596800 * 10 ^ 9"

datatype EntryKind = Invalid | CompletedTasksLocal | CompletedTasksRemote | RunningTasks | QueuedTasks | DelegatedTasks

record Entry =
  e_X :: int
  e_Y :: go_float
  e_Kind :: EntryKind

record Telemetry =
  t_recording :: bool
  t_history :: "Entry list"
  t_startTime :: int
  t_numRunning :: int
  t_numQueued :: int
  t_numDelegated :: int
  t_numCompletedLocal :: int
  t_numCompletedRemote :: int
  t_queueCapacity :: int
  t_ticker :: "bool option"     \<comment> \<open>the ticker of the last recording and whether it runs\<close>

definition telemetry_init :: "int \<Rightarrow> Telemetry" where
  "telemetry_init capacity =
     \<lparr>t_recording = False, t_history = [], t_startTime = zeroTime, t_numRunning = 0, t_numQueued = 0, t_numDelegated = 0,
      t_numCompletedLocal = 0, t_numCompletedRemote = 0, t_queueCapacity = capacity, t_ticker = None\<rparr>"

definition RecordEntry :: "int \<Rightarrow> Entry \<Rightarrow> Telemetry \<Rightarrow> Telemetry" where
  "RecordEntry now i t = (if \<not> t_recording t then t else t\<lparr>t_history := t_history t @ [i\<lparr>e_X := now\<rparr>]\<rparr>)"

definition StartRecording :: "int \<Rightarrow> Telemetry \<Rightarrow> Telemetry" where
  "StartRecording now t = t\<lparr>t_startTime := now, t_recording := True, t_ticker := Some True\<rparr>"

text \<open>Stopping what was never started calls a nil function.\<close>

definition StopRecording :: "Telemetry \<Rightarrow> Telemetry outcome" where
  "StopRecording t =
     (let t1 = t\<lparr>t_recording := False\<rparr>
      in case t_ticker t1 of None \<Rightarrow> Panic | Some _ \<Rightarrow> Return (t1\<lparr>t_ticker := Some False\<rparr>))"

definition telemetry_Clear :: "Telemetry \<Rightarrow> Telemetry" where
  "telemetry_Clear t = t\<lparr>t_history := []\<rparr>"

definition new_entry :: "EntryKind \<Rightarrow> go_float \<Rightarrow> Entry" where
  "new_entry k y = \<lparr>e_X = zeroTime, e_Y = y, e_Kind = k\<rparr>"

text \<open>\<open>now i\<close> is the time the \<open>i\<close>-th entry is stamped with.\<close>

definition recordValues :: "(nat \<Rightarrow> int) \<Rightarrow> Telemetry \<Rightarrow> Telemetry" where
  "recordValues now t =
     (let t1 = RecordEntry (now 0) (new_entry CompletedTasksLocal (Fin (of_int (t_numCompletedLocal t)))) t;
          t2 = RecordEntry (now 1) (new_entry CompletedTasksRemote (Fin (of_int (t_numCompletedRemote t1)))) t1;
          t3 = RecordEntry (now 2) (new_entry DelegatedTasks (Fin (of_int (t_numDelegated t2)))) t2;
          t4 = RecordEntry (now 3) (new_entry RunningTasks (Fin (of_int (t_numRunning t3)))) t3
      in RecordEntry (now 4) (new_entry QueuedTasks (fmul (fdiv (t_numQueued t4) (t_queueCapacity t4)) (Fin 10))) t4)"

definition incQueued :: "Telemetry \<Rightarrow> Telemetry" where
  "incQueued t = t\<lparr>t_numQueued := t_numQueued t + 1\<rparr>"

definition decQueued :: "Telemetry \<Rightarrow> Telemetry" where
  "decQueued t = t\<lparr>t_numQueued := t_numQueued t - 1\<rparr>"

definition incRunning :: "Telemetry \<Rightarrow> Telemetry" where
  "incRunning t = t\<lparr>t_numRunning := t_numRunning t + 1\<rparr>"

definition decRunning :: "Telemetry \<Rightarrow> Telemetry" where
  "decRunning t = t\<lparr>t_numRunning := t_numRunning t - 1, t_numCompletedLocal := t_numCompletedLocal t + 1\<rparr>"

definition incDelegated :: "Telemetry \<Rightarrow> Telemetry" where
  "incDelegated t = t\<lparr>t_numDelegated := t_numDelegated t + 1\<rparr>"

definition decDelegated :: "Telemetry \<Rightarrow> Telemetry" where
  "decDelegated t = t\<lparr>t_numDelegated := t_numDelegated t - 1, t_numCompletedRemote := t_numCompletedRemote t + 1\<rparr>"

definition telemetry_Entries :: "Telemetry \<Rightarrow> Entry list" where
  "telemetry_Entries t = t_history t"

definition entries_Filter :: "(Entry \<Rightarrow> bool) \<Rightarrow> Entry list \<Rightarrow> Entry list" where
  "entries_Filter incl e = filter incl e"

text \<open>\<open>sort.Search\<close>.\<close>

function search_loop :: "(nat \<Rightarrow> bool) \<Rightarrow> nat \<Rightarrow> nat \<Rightarrow> nat" where
  "search_loop f i j =
     (if i < j then let h = (i + j) div 2 in if \<not> f h then search_loop f (h + 1) j else search_loop f i h else i)"
  by pat_completeness auto
termination by (relation "measure (\<lambda>(f, i, j). j - i)") auto

declare search_loop.simps [simp del]

definition Search :: "nat \<Rightarrow> (nat \<Rightarrow> bool) \<Rightarrow> nat" where
  "Search n f = search_loop f 0 n"

text \<open>The slice expression of \<open>TimeRange\<close> panics if its bounds are out of order.\<close>

definition TimeRange :: "int \<Rightarrow> int \<Rightarrow> Entry list \<Rightarrow> Entry list outcome" where
  "TimeRange begin_t end_t e =
     (if end_t < begin_t then Panic
      else let startIndex = (if begin_t = zeroTime then 0 else Search (length e) (\<lambda>i. e_X (e ! i) \<ge> begin_t));
               endIndex = (if end_t = zeroTime then int (length e) - 1
                           else int (Search (length e) (\<lambda>i. e_X (e ! i) \<ge> end_t)))
           in if int startIndex \<le> endIndex then Return (drop startIndex (take (nat endIndex) e)) else Panic)"

definition LinearRegression ::
    "(go_float list \<Rightarrow> go_float list \<Rightarrow> go_float \<times> go_float) \<Rightarrow> Entry list \<Rightarrow> go_float \<times> go_float" where
  "LinearRegression regression e =
     (if length e < 2 then (Fin 0, Fin 0)
      else regression (map (\<lambda>i. Fin (of_nat i)) [0..<length e]) (map e_Y e))"

definition ToXYs :: "Entry list \<Rightarrow> (int \<times> go_float) list" where
  "ToXYs e = map (\<lambda>v. (if e_X v \<ge> 0 then e_X v div 10 ^ 6 else - ((- e_X v) div 10 ^ 6), e_Y v)) e"

fun deltas_from :: "Entry \<Rightarrow> Entry list \<Rightarrow> Entry list" where
  "deltas_from prev [] = []"
| "deltas_from prev (v # vs) = \<lparr>e_X = e_X v, e_Y = fsub (e_Y v) (e_Y prev), e_Kind = Invalid\<rparr> # deltas_from v vs"

fun Deltas :: "Entry list \<Rightarrow> Entry list" where
  "Deltas [] = []"
| "Deltas (v # vs) = \<lparr>e_X = e_X v, e_Y = Fin 0, e_Kind = Invalid\<rparr> # deltas_from v vs"

fun ewma_from :: "('s \<Rightarrow> go_float \<Rightarrow> int \<Rightarrow> 's) \<Rightarrow> ('s \<Rightarrow> go_float) \<Rightarrow> 's \<Rightarrow> Entry list \<Rightarrow> Entry list" where
  "ewma_from upd cur s [] = []"
| "ewma_from upd cur s (v # vs) =
     (let s' = upd s (e_Y v) (e_X v) in \<lparr>e_X = e_X v, e_Y = cur s', e_Kind = Invalid\<rparr> # ewma_from upd cur s' vs)"

definition EWMA :: "(int \<Rightarrow> 's) \<Rightarrow> ('s \<Rightarrow> go_float \<Rightarrow> int \<Rightarrow> 's) \<Rightarrow> ('s \<Rightarrow> go_float) \<Rightarrow> int \<Rightarrow> Entry list \<Rightarrow> Entry list" where
  "EWMA NewEwma upd cur halfLife e = ewma_from upd cur (NewEwma halfLife) e"

section \<open>Ranges of the history\<close>

lemma search_loop_split:
  assumes "\<forall>a b. a \<le> b \<longrightarrow> b < n \<longrightarrow> f a \<longrightarrow> f b" and "\<forall>k<i. \<not> f k" and "\<forall>k<n. j \<le> k \<longrightarrow> f k" and "i \<le> j" and "j \<le> n"
  shows "search_loop f i j \<le> n \<and> (\<forall>k<n. f k \<longleftrightarrow> search_loop f i j \<le> k)"
  using assms
proof (induction f i j rule: search_loop.induct)
  case (1 f i j)
  show ?case
  proof (cases "i < j")
    case False
    then have "search_loop f i j = i" by (simp add: search_loop.simps)
    moreover have "i = j" using False 1(6) by simp
    ultimately show ?thesis using 1(4,5,7) by (auto simp flip: not_less)
  next
    case True
    define h where "h = (i + j) div 2"
    have h: "i \<le> h" "h < j" using True by (auto simp: h_def)
    show ?thesis
    proof (cases "f h")
      case True
      with 1(3) have up: "\<forall>k<n. h \<le> k \<longrightarrow> f k" by blast
      from True \<open>i < j\<close> have "search_loop f i j = search_loop f i h"
        by (subst search_loop.simps) (simp add: h_def Let_def)
      with 1(2) [OF \<open>i < j\<close> h_def _ 1(3,4) up] True h 1(7) show ?thesis by auto
    next
      case False
      have "h < n" using h 1(7) by simp
      with False 1(3) have down: "\<forall>k<h + 1. \<not> f k" by (metis Suc_eq_plus1 less_Suc_eq_le)
      from False \<open>i < j\<close> have "search_loop f i j = search_loop f (h + 1) j"
        by (subst search_loop.simps) (simp add: h_def Let_def)
      with 1(1) [OF \<open>i < j\<close> h_def _ 1(3) down 1(5)] False h 1(7) show ?thesis by auto
    qed
  qed
qed

lemma Search_split:
  assumes "sorted (map e_X e)"
  defines "s \<equiv> \<lambda>t. Search (length e) (\<lambda>i. e_X (e ! i) \<ge> t)"
  shows "s t \<le> length e" and "k < length e \<Longrightarrow> t \<le> e_X (e ! k) \<longleftrightarrow> s t \<le> k"
proof -
  have "\<forall>a b. a \<le> b \<longrightarrow> b < length e \<longrightarrow> t \<le> e_X (e ! a) \<longrightarrow> t \<le> e_X (e ! b)"
    using sorted_nth_mono [OF assms(1)] by (auto intro: order_trans)
  from search_loop_split [OF this, of 0 "length e"]
  show "s t \<le> length e" "k < length e \<Longrightarrow> t \<le> e_X (e ! k) \<longleftrightarrow> s t \<le> k" by (auto simp: s_def Search_def)
qed

lemma filter_range:
  assumes "\<And>k. k < length xs \<Longrightarrow> P (xs ! k) \<longleftrightarrow> a \<le> k \<and> k < b" and "a \<le> b" and "b \<le> length xs"
  shows "drop a (take b xs) = filter P xs"
proof -
  have "xs = take a xs @ drop a (take b xs) @ drop b xs"
    using assms(2,3) by (metis append.assoc append_take_drop_id take_add le_add_diff_inverse drop_take)
  moreover have "filter P (take a xs) = []" "filter P (drop b xs) = []" "filter P (drop a (take b xs)) = drop a (take b xs)"
    using assms by (auto simp: filter_empty_conv filter_id_conv in_set_conv_nth)
  ultimately show ?thesis by (metis append_Nil append_Nil2 filter_append)
qed

lemma RecordEntry_sorted:
  assumes "sorted (map e_X (t_history t))" and "\<forall>x\<in>set (t_history t). e_X x \<le> now"
  shows "sorted (map e_X (t_history (RecordEntry now i t)))" and "\<forall>x\<in>set (t_history (RecordEntry now i t)). e_X x \<le> now"
  using assms by (auto simp: RecordEntry_def sorted_append)

section \<open>Properties\<close>

text \<open>C30: \<open>TimeRange\<close> selects by time. On a history in the order of its time stamps, for a begin and an
  end that are set and in order, the two binary searches delimit exactly the entries stamped at or
  after the begin and before the end.\<close>

theorem TimeRange_selects:
  assumes "sorted (map e_X e)" and "zeroTime < begin_t" and "begin_t \<le> end_t"
  shows "TimeRange begin_t end_t e = Return (filter (\<lambda>x. begin_t \<le> e_X x \<and> e_X x < end_t) e)"
proof -
  let ?s = "\<lambda>t. Search (length e) (\<lambda>i. e_X (e ! i) \<ge> t)"
  have le: "?s begin_t \<le> ?s end_t"
  proof (rule ccontr)
    assume "\<not> ?s begin_t \<le> ?s end_t"
    then have lt: "?s end_t < length e" using Search_split(1) [OF assms(1), of begin_t] by simp
    then have "end_t \<le> e_X (e ! ?s end_t)" using Search_split(2) [OF assms(1) lt] by simp
    with assms(3) have "?s begin_t \<le> ?s end_t" using Search_split(2) [OF assms(1) lt, of begin_t] by simp
    with \<open>\<not> ?s begin_t \<le> ?s end_t\<close> show False ..
  qed
  have "drop (?s begin_t) (take (?s end_t) e) = filter (\<lambda>x. begin_t \<le> e_X x \<and> e_X x < end_t) e"
    using Search_split [OF assms(1)] le by (intro filter_range) (auto simp flip: not_le)
  then show ?thesis using assms(2,3) le by (simp add: TimeRange_def Let_def)
qed

definition sample_history :: "Entry list" where
  "sample_history = map (\<lambda>x. \<lparr>e_X = x, e_Y = Fin 0, e_Kind = RunningTasks\<rparr>) [10, 20, 20, 30, 40]"

theorem TimeRange_selects_witness:
  "TimeRange 20 40 sample_history = Return (filter (\<lambda>x. 20 \<le> e_X x \<and> e_X x < 40) sample_history) \<and>
   map e_X (filter (\<lambda>x. 20 \<le> e_X x \<and> e_X x < 40) sample_history) = [20, 20, 30]"
  using TimeRange_selects [of sample_history 20 40] by (simp add: sample_history_def zeroTime_def)

end
