(* ===== verification/SplitQueue.thy ===== *)
theory SplitQueue
  imports Transitions WorkerPool Telemetry
begin

text \<open>
  \<open>src/pkg/consumerd/queue.go\<close>: the queue of a consumer daemon, with a pool of local and a pool of
  remote workers that share one queue and have one each. Calls of \<open>Exec\<close> that wait for room in a
  buffered channel are part of the state. A step of the queue is a step of one goroutine; the events
  of the availability checker pause and resume the remote workers. Every task that was submitted and
  every task a worker has finished is kept in a list.
\<close>

section \<open>Model\<close>

datatype SplitTaskLocation = Loc_Unknown | Loc_Local | Loc_Remote

record SplitTask =
  st_id :: nat
  st_Exclusivity :: SplitTaskLocation

datatype any_task = Split_Task SplitTask | Other_Task

definition ErrUnsupportedTask :: go_error where
  "ErrUnsupportedTask = Error ''Task not supported''"

record SplitQueue =
  sq_capacity :: nat
  sq_shared :: "SplitTask list"
  sq_local :: "SplitTask list"
  sq_remote :: "SplitTask list"
  sq_waiting :: "SplitTask list"
  sq_localWorkers :: "SplitTask WorkerPool"
  sq_remoteWorkers :: "SplitTask WorkerPool"
  sq_telemetry :: Telemetry
  sq_submitted :: "SplitTask list"
  sq_doneLocal :: "SplitTask list"
  sq_doneRemote :: "SplitTask list"

text \<open>With an enabled telemetry the recording starts at once, at the time given here.\<close>

definition NewSplitQueue :: "nat \<Rightarrow> int option \<Rightarrow> SplitQueue" where
  "NewSplitQueue bufferSize recording =
     \<lparr>sq_capacity = bufferSize, sq_shared = [], sq_local = [], sq_remote = [], sq_waiting = [],
      sq_localWorkers = NewWorkerPool False, sq_remoteWorkers = NewWorkerPool True,
      sq_telemetry = (let t = telemetry_init (int bufferSize) in case recording of None \<Rightarrow> t | Some now \<Rightarrow> StartRecording now t), sq_submitted = [], sq_doneLocal = [], sq_doneRemote = []\<rparr>"

fun queue_for :: "SplitTaskLocation \<Rightarrow> SplitQueue \<Rightarrow> SplitTask list" where
  "queue_for Loc_Local sq = sq_local sq"
| "queue_for Loc_Remote sq = sq_remote sq"
| "queue_for Loc_Unknown sq = sq_shared sq"

fun push_to :: "SplitTaskLocation \<Rightarrow> SplitTask \<Rightarrow> SplitQueue \<Rightarrow> SplitQueue" where
  "push_to Loc_Local t sq = sq\<lparr>sq_local := sq_local sq @ [t]\<rparr>"
| "push_to Loc_Remote t sq = sq\<lparr>sq_remote := sq_remote sq @ [t]\<rparr>"
| "push_to Loc_Unknown t sq = sq\<lparr>sq_shared := sq_shared sq @ [t]\<rparr>"

text \<open>A send on a channel with room; without room the call waits.\<close>

definition send_task :: "SplitTask \<Rightarrow> SplitQueue \<Rightarrow> SplitQueue" where
  "send_task t sq =
     (if length (queue_for (st_Exclusivity t) sq) < sq_capacity sq then push_to (st_Exclusivity t) t sq
      else sq\<lparr>sq_waiting := sq_waiting sq @ [t]\<rparr>)"

definition split_Exec :: "any_task \<Rightarrow> SplitQueue \<Rightarrow> go_error option \<times> SplitQueue" where
  "split_Exec task sq =
     (case task of
        Other_Task \<Rightarrow> (Some ErrUnsupportedTask, sq)
      | Split_Task st \<Rightarrow>
          (None, send_task st (sq\<lparr>sq_telemetry := incQueued (sq_telemetry sq), sq_submitted := sq_submitted sq @ [st]\<rparr>)))"

text \<open>The pool of one side; \<open>True\<close> is the remote one.\<close>

definition pool_of :: "bool \<Rightarrow> SplitQueue \<Rightarrow> SplitTask WorkerPool" where
  "pool_of r sq = (if r then sq_remoteWorkers sq else sq_localWorkers sq)"

definition set_pool :: "bool \<Rightarrow> SplitTask WorkerPool \<Rightarrow> SplitQueue \<Rightarrow> SplitQueue" where
  "set_pool r p sq = (if r then sq\<lparr>sq_remoteWorkers := p\<rparr> else sq\<lparr>sq_localWorkers := p\<rparr>)"

text \<open>\<open>duoQueue.Select\<close> of a side: the head of the shared queue, or of its own one.\<close>

definition duo_Select :: "bool \<Rightarrow> bool \<Rightarrow> SplitQueue \<Rightarrow> (SplitTask \<times> SplitQueue) option" where
  "duo_Select r own sq =
     (if \<not> own then (case sq_shared sq of [] \<Rightarrow> None | t # ts \<Rightarrow> Some (t, sq\<lparr>sq_shared := ts\<rparr>))
      else if r then (case sq_remote sq of [] \<Rightarrow> None | t # ts \<Rightarrow> Some (t, sq\<lparr>sq_remote := ts\<rparr>))
      else (case sq_local sq of [] \<Rightarrow> None | t # ts \<Rightarrow> Some (t, sq\<lparr>sq_local := ts\<rparr>)))"

text \<open>\<open>localRunner\<close> and \<open>remoteRunner\<close>, before and after the run of the task.\<close>

definition runner_begin :: "bool \<Rightarrow> SplitQueue \<Rightarrow> SplitQueue" where
  "runner_begin r sq =
     sq\<lparr>sq_telemetry := (if r then incDelegated else incRunning) (decQueued (sq_telemetry sq))\<rparr>"

definition runner_end :: "bool \<Rightarrow> SplitTask \<Rightarrow> SplitQueue \<Rightarrow> SplitQueue" where
  "runner_end r t sq =
     (if r then sq\<lparr>sq_doneRemote := sq_doneRemote sq @ [t], sq_telemetry := decDelegated (sq_telemetry sq)\<rparr>
      else sq\<lparr>sq_doneLocal := sq_doneLocal sq @ [t], sq_telemetry := decRunning (sq_telemetry sq)\<rparr>)"

definition handleAvailabilityChanged :: "bool \<Rightarrow> SplitQueue \<Rightarrow> SplitQueue" where
  "handleAvailabilityChanged available sq =
     set_pool True ((if available then Resume else Pause) (pool_of True sq)) sq"

record TaskStatus =
  NumRunning :: int
  NumQueued :: int
  NumDelegated :: int

definition CompleteTaskStatus :: "SplitQueue \<Rightarrow> TaskStatus" where
  "CompleteTaskStatus sq =
     \<lparr>NumRunning = t_numRunning (sq_telemetry sq), NumQueued = t_numQueued (sq_telemetry sq),
      NumDelegated = t_numDelegated (sq_telemetry sq)\<rparr>"

definition CompleteUsageLimits :: "SplitQueue \<Rightarrow> nat \<times> nat" where
  "CompleteUsageLimits sq = (pool_Size (sq_localWorkers sq), pool_Size (sq_remoteWorkers sq))"

definition CompleteLocalTasksCompleted :: "SplitQueue \<Rightarrow> int" where
  "CompleteLocalTasksCompleted sq = t_numCompletedLocal (sq_telemetry sq)"

definition CompleteDelegatedTasksCompleted :: "SplitQueue \<Rightarrow> int" where
  "CompleteDelegatedTasksCompleted sq = t_numCompletedRemote (sq_telemetry sq)"

section \<open>Runs\<close>

datatype split_event =
    SQ_Exec any_task
  | SQ_Send nat                \<comment> \<open>a waiting call finds room\<close>
  | SQ_Available bool
  | SQ_Check bool
  | SQ_Accept bool nat
  | SQ_Select bool bool
  | SQ_Start bool nat
  | SQ_Finish bool nat
  | SQ_Stop bool nat
  | SQ_Resize bool int

fun split_step :: "split_event \<Rightarrow> SplitQueue \<Rightarrow> SplitQueue option" where
  "split_step (SQ_Exec t) sq = Some (snd (split_Exec t sq))"
| "split_step (SQ_Send k) sq =
     (if k < length (sq_waiting sq) \<and>
         length (queue_for (st_Exclusivity (sq_waiting sq ! k)) sq) < sq_capacity sq
      then Some (push_to (st_Exclusivity (sq_waiting sq ! k)) (sq_waiting sq ! k)
             (sq\<lparr>sq_waiting := take k (sq_waiting sq) @ drop (Suc k) (sq_waiting sq)\<rparr>))
      else None)"
| "split_step (SQ_Available v) sq = Some (handleAvailabilityChanged v sq)"
| "split_step (SQ_Check r) sq = map_option (\<lambda>p. set_pool r p sq) (manager_check (pool_of r sq))"
| "split_step (SQ_Accept r i) sq = map_option (\<lambda>p. set_pool r p sq) (worker_accept i (pool_of r sq))"
| "split_step (SQ_Select r own) sq =
     (case duo_Select r own sq of
        None \<Rightarrow> None
      | Some (t, sq1) \<Rightarrow> map_option (\<lambda>p. set_pool r p sq1) (manager_select t (pool_of r sq1)))"
| "split_step (SQ_Start r i) sq =
     map_option (\<lambda>(t, p). runner_begin r (set_pool r p sq)) (worker_start i (pool_of r sq))"
| "split_step (SQ_Finish r i) sq =
     map_option (\<lambda>(t, p). runner_end r t (set_pool r p sq)) (worker_finish i (pool_of r sq))"
| "split_step (SQ_Stop r i) sq = map_option (\<lambda>p. set_pool r p sq) (worker_stop i (pool_of r sq))"
| "split_step (SQ_Resize r n) sq =
     (if wp_stops (pool_of r sq) = 0 then Some (set_pool r (Resize n (pool_of r sq)) sq) else None)"

abbreviation split_run :: "split_event list \<Rightarrow> SplitQueue \<Rightarrow> SplitQueue option" where
  "split_run \<equiv> run_events split_step"

inductive sq_reachable :: "SplitQueue \<Rightarrow> bool" where
  sq_init: "sq_reachable (NewSplitQueue n recording)"
| sq_step: "sq_reachable sq \<Longrightarrow> split_step ev sq = Some sq' \<Longrightarrow> sq_reachable sq'"

interpretation queue_sys: transition_system split_step "\<lambda>sq. \<exists>n recording. sq = NewSplitQueue n recording" sq_reachable
proof (unfold_locales, goal_cases)
  case (3 s P)
  then show ?case by (induction rule: sq_reachable.induct) blast+
qed (auto intro: sq_init sq_step)

lemmas sq_reachable_run = queue_sys.run_reach

section \<open>Invariant\<close>

text \<open>The tasks handed to workers or stuck with stopped ones, and the tasks that run, on one side.\<close>

definition handed_on :: "bool \<Rightarrow> SplitQueue \<Rightarrow> SplitTask multiset" where
  "handed_on r sq = mset (pool_handed (pool_of r sq) @ wp_lost (pool_of r sq))"

definition running_on :: "bool \<Rightarrow> SplitQueue \<Rightarrow> SplitTask multiset" where
  "running_on r sq = mset (pool_running (pool_of r sq))"

definition done_on :: "bool \<Rightarrow> SplitQueue \<Rightarrow> SplitTask list" where
  "done_on r sq = (if r then sq_doneRemote sq else sq_doneLocal sq)"

definition queued :: "SplitQueue \<Rightarrow> SplitTask multiset" where
  "queued sq = mset (sq_waiting sq @ sq_shared sq @ sq_local sq @ sq_remote sq) + handed_on False sq + handed_on True sq"

definition split_tasks_ok :: "SplitQueue \<Rightarrow> bool" where
  "split_tasks_ok sq \<longleftrightarrow> mset (sq_submitted sq) =
     queued sq + running_on False sq + running_on True sq + mset (sq_doneLocal sq) + mset (sq_doneRemote sq)"

definition counters_ok :: "SplitQueue \<Rightarrow> bool" where
  "counters_ok sq \<longleftrightarrow> (let t = sq_telemetry sq in
     t_numQueued t = int (size (queued sq)) \<and> t_numRunning t = int (size (running_on False sq)) \<and>
     t_numDelegated t = int (size (running_on True sq)) \<and> t_numCompletedLocal t = int (length (sq_doneLocal sq)) \<and>
     t_numCompletedRemote t = int (length (sq_doneRemote sq)))"

text \<open>What a side may run.\<close>

definition allowed :: "bool \<Rightarrow> SplitTask \<Rightarrow> bool" where
  "allowed r t \<longleftrightarrow> st_Exclusivity t \<noteq> (if r then Loc_Local else Loc_Remote)"

definition sides_ok :: "SplitQueue \<Rightarrow> bool" where
  "sides_ok sq \<longleftrightarrow> (\<forall>t\<in>set (sq_shared sq). st_Exclusivity t = Loc_Unknown) \<and>
     (\<forall>t\<in>set (sq_local sq). st_Exclusivity t = Loc_Local) \<and> (\<forall>t\<in>set (sq_remote sq). st_Exclusivity t = Loc_Remote) \<and>
     (\<forall>r t. t \<in># handed_on r sq + running_on r sq + mset (done_on r sq) \<longrightarrow> allowed r t)"

definition split_inv :: "SplitQueue \<Rightarrow> bool" where
  "split_inv sq \<longleftrightarrow> (\<forall>r. pool_inv (pool_of r sq)) \<and> split_tasks_ok sq \<and> counters_ok sq \<and> sides_ok sq"

lemma pool_of_set_pool [simp]: "pool_of r' (set_pool r p sq) = (if r = r' then p else pool_of r' sq)"
  by (auto simp: pool_of_def set_pool_def)

lemma set_pool_same [simp]:
  "sq_shared (set_pool r p sq) = sq_shared sq" "sq_local (set_pool r p sq) = sq_local sq"
  "sq_remote (set_pool r p sq) = sq_remote sq" "sq_waiting (set_pool r p sq) = sq_waiting sq"
  "sq_telemetry (set_pool r p sq) = sq_telemetry sq" "sq_submitted (set_pool r p sq) = sq_submitted sq"
  "sq_doneLocal (set_pool r p sq) = sq_doneLocal sq" "sq_doneRemote (set_pool r p sq) = sq_doneRemote sq"
  by (simp_all add: set_pool_def)

lemma on_set_pool [simp]:
  "handed_on r' (set_pool r p sq) = (if r = r' then mset (pool_handed p @ wp_lost p) else handed_on r' sq)"
  "running_on r' (set_pool r p sq) = (if r = r' then mset (pool_running p) else running_on r' sq)"
  "done_on r' (set_pool r p sq) = done_on r' sq"
  by (simp_all add: handed_on_def running_on_def done_on_def)

text \<open>A step of a pool that moves no task.\<close>

lemma split_inv_pool:
  assumes "split_inv sq" and "pool_inv p" and "mset (pool_handed p @ wp_lost p) = handed_on r sq"
    and "mset (pool_running p) = running_on r sq"
  shows "split_inv (set_pool r p sq)"
proof -
  have eq: "handed_on r' (set_pool r p sq) = handed_on r' sq" "running_on r' (set_pool r p sq) = running_on r' sq" for r'
    using assms(3,4) by simp_all
  then have q: "queued (set_pool r p sq) = queued sq" unfolding queued_def eq by simp
  show ?thesis using assms(1,2) unfolding split_inv_def split_tasks_ok_def counters_ok_def sides_ok_def q eq by simp
qed

lemma split_inv_init: "split_inv (NewSplitQueue n recording)"
  by (auto simp: split_inv_def NewSplitQueue_def pool_of_def NewWorkerPool_def pool_inv_def split_tasks_ok_def counters_ok_def
      sides_ok_def queued_def handed_on_def running_on_def done_on_def pool_handed_def pool_running_def telemetry_init_def StartRecording_def Let_def
      split: option.splits)

text \<open>The pools after a change of the queues.\<close>

lemma push_to_inv:
  assumes "split_inv sq" and "mset (sq_waiting sq) = add_mset t (mset ws)"
  shows "split_inv (push_to (st_Exclusivity t) t (sq\<lparr>sq_waiting := ws\<rparr>))"
proof -
  let ?sq = "push_to (st_Exclusivity t) t (sq\<lparr>sq_waiting := ws\<rparr>)"
  have p: "pool_of r ?sq = pool_of r sq" "sq_telemetry ?sq = sq_telemetry sq" "sq_submitted ?sq = sq_submitted sq"
    "done_on r ?sq = done_on r sq" "sq_doneLocal ?sq = sq_doneLocal sq" "sq_doneRemote ?sq = sq_doneRemote sq" for r
    by (cases "st_Exclusivity t"; simp add: pool_of_def done_on_def)+
  then have q: "handed_on r ?sq = handed_on r sq" "running_on r ?sq = running_on r sq" for r
    by (simp_all add: handed_on_def running_on_def)
  have "queued ?sq = queued sq" unfolding queued_def q using assms(2) by (cases "st_Exclusivity t") simp_all
  moreover have "sides_ok ?sq" using assms(1) q p unfolding split_inv_def sides_ok_def by (cases "st_Exclusivity t") auto
  ultimately show ?thesis using assms(1) p q unfolding split_inv_def split_tasks_ok_def counters_ok_def by simp
qed

lemma Exec_inv:
  assumes "split_inv sq"
  shows "split_inv (snd (split_Exec task sq))"
proof (cases task)
  case (Split_Task t)
  let ?sq = "sq\<lparr>sq_telemetry := incQueued (sq_telemetry sq), sq_submitted := sq_submitted sq @ [t], sq_waiting := sq_waiting sq @ [t]\<rparr>"
  have p: "handed_on r ?sq = handed_on r sq" "running_on r ?sq = running_on r sq" "done_on r ?sq = done_on r sq" "pool_of r ?sq = pool_of r sq" for r
    by (simp_all add: handed_on_def running_on_def done_on_def pool_of_def)
  have q: "queued ?sq = add_mset t (queued sq)" unfolding queued_def p by simp
  have inv: "split_inv ?sq"
    using assms unfolding split_inv_def split_tasks_ok_def counters_ok_def sides_ok_def q p by (simp add: incQueued_def Let_def)
  have "split_inv (push_to (st_Exclusivity t) t (?sq\<lparr>sq_waiting := sq_waiting sq\<rparr>))" by (rule push_to_inv [OF inv]) simp
  with inv show ?thesis by (simp add: split_Exec_def Split_Task send_task_def)
qed (use assms in \<open>simp add: split_Exec_def\<close>)

lemma Send_inv:
  assumes "split_inv sq" and "k < length (sq_waiting sq)"
  shows "split_inv (push_to (st_Exclusivity (sq_waiting sq ! k)) (sq_waiting sq ! k)
    (sq\<lparr>sq_waiting := take k (sq_waiting sq) @ drop (Suc k) (sq_waiting sq)\<rparr>))"
proof (rule push_to_inv [OF assms(1)])
  show "mset (sq_waiting sq) = add_mset (sq_waiting sq ! k) (mset (take k (sq_waiting sq) @ drop (Suc k) (sq_waiting sq)))"
    using assms(2) by (subst id_take_nth_drop [OF assms(2)]) simp
qed

lemma Select_inv:
  assumes "split_inv sq" and "duo_Select r own sq = Some (t, sq1)" and "manager_select t (pool_of r sq1) = Some p"
  shows "split_inv (set_pool r p sq1)"
proof -
  let ?sq = "set_pool r p sq1"
  have sq1: "pool_of r' sq1 = pool_of r' sq" "done_on r' sq1 = done_on r' sq" "sq_telemetry sq1 = sq_telemetry sq"
    "sq_submitted sq1 = sq_submitted sq" "sq_doneLocal sq1 = sq_doneLocal sq" "sq_doneRemote sq1 = sq_doneRemote sq" for r'
    using assms(2) by (auto simp: duo_Select_def pool_of_def done_on_def split: if_splits list.splits)
  then have on1: "handed_on r' sq1 = handed_on r' sq" "running_on r' sq1 = running_on r' sq" for r'
    by (simp_all add: handed_on_def running_on_def)
  have ts: "mset (sq_shared sq @ sq_local sq @ sq_remote sq) = add_mset t (mset (sq_shared sq1 @ sq_local sq1 @ sq_remote sq1))"
    "sq_waiting sq1 = sq_waiting sq" and ok: "allowed r t"
    using assms(1,2) by (auto simp: duo_Select_def split_inv_def sides_ok_def allowed_def split: if_splits list.splits)
  have "pool_inv (pool_of r sq)" using assms(1) by (simp add: split_inv_def)
  with manager_select_pool [OF assms(3)] sq1 have p: "pool_inv p"
    "mset (pool_handed p @ wp_lost p) = add_mset t (handed_on r sq)" "mset (pool_running p) = running_on r sq"
    by (simp_all add: handed_on_def running_on_def)
  then have on: "handed_on r' ?sq = (if r = r' then add_mset t (handed_on r' sq) else handed_on r' sq)"
    "running_on r' ?sq = running_on r' sq" "done_on r' ?sq = done_on r' sq" for r' using on1 sq1 by simp_all
  have q: "queued ?sq = queued sq" unfolding queued_def on using ts by (cases r) simp_all
  have "sides_ok ?sq" using assms(1,2) ok unfolding split_inv_def sides_ok_def on
    by (auto simp: duo_Select_def split: if_splits list.splits)
  with p(1) show ?thesis using assms(1) sq1 unfolding split_inv_def split_tasks_ok_def counters_ok_def q on by simp
qed

lemma Start_inv:
  assumes "split_inv sq" and "worker_start i (pool_of r sq) = Some (t, p)"
  shows "split_inv (runner_begin r (set_pool r p sq))"
proof -
  let ?sq = "runner_begin r (set_pool r p sq)"
  have "pool_inv (pool_of r sq)" using assms(1) by (simp add: split_inv_def)
  with worker_start_pool [OF assms(2)] have p: "pool_inv p" "handed_on r sq = add_mset t (mset (pool_handed p @ wp_lost p))"
    "mset (pool_running p) = add_mset t (running_on r sq)" by (simp_all add: handed_on_def running_on_def)
  have pool: "pool_of r' ?sq = (if r = r' then p else pool_of r' sq)" for r'
    by (auto simp: runner_begin_def pool_of_def set_pool_def)
  have on: "handed_on r' ?sq = (if r = r' then mset (pool_handed p @ wp_lost p) else handed_on r' sq)"
    "running_on r' ?sq = (if r = r' then add_mset t (running_on r' sq) else running_on r' sq)" "done_on r' ?sq = done_on r' sq" for r'
    using p(3) unfolding handed_on_def running_on_def pool by (simp_all add: done_on_def runner_begin_def)
  have lists: "sq_shared ?sq = sq_shared sq" "sq_local ?sq = sq_local sq" "sq_remote ?sq = sq_remote sq" "sq_waiting ?sq = sq_waiting sq"
    "sq_submitted ?sq = sq_submitted sq" "sq_doneLocal ?sq = sq_doneLocal sq" "sq_doneRemote ?sq = sq_doneRemote sq"
    by (simp_all add: runner_begin_def)
  have q: "queued sq = add_mset t (queued ?sq)" unfolding queued_def on lists using p(2) by (cases r) simp_all
  have "sides_ok ?sq" using assms(1) p(2) unfolding split_inv_def sides_ok_def on lists by (cases r) (auto split: if_splits)
  moreover have "split_tasks_ok ?sq" using assms(1) unfolding split_inv_def split_tasks_ok_def on lists q by (cases r) simp_all
  moreover have "counters_ok ?sq"
  proof -
    have tel: "sq_telemetry ?sq = (if r then incDelegated else incRunning) (decQueued (sq_telemetry sq))" by (simp add: runner_begin_def)
    define Q where "Q = queued ?sq"
    show ?thesis using assms(1) unfolding split_inv_def counters_ok_def on lists tel q Q_def [symmetric]
      by (cases r) (simp_all add: Let_def incDelegated_def incRunning_def decQueued_def)
  qed
  ultimately show ?thesis using assms(1) p(1) unfolding split_inv_def pool by simp
qed

lemma Finish_inv:
  assumes "split_inv sq" and "worker_finish i (pool_of r sq) = Some (t, p)"
  shows "split_inv (runner_end r t (set_pool r p sq))"
proof -
  let ?sq = "runner_end r t (set_pool r p sq)"
  have "pool_inv (pool_of r sq)" using assms(1) by (simp add: split_inv_def)
  with worker_finish_pool [OF assms(2)] have p: "pool_inv p" "mset (pool_handed p @ wp_lost p) = handed_on r sq"
    "running_on r sq = add_mset t (mset (pool_running p))" by (simp_all add: handed_on_def running_on_def)
  have pool: "pool_of r' ?sq = (if r = r' then p else pool_of r' sq)" for r'
    by (auto simp: runner_end_def pool_of_def set_pool_def)
  have on: "handed_on r' ?sq = handed_on r' sq"
    "running_on r' ?sq = (if r = r' then mset (pool_running p) else running_on r' sq)"
    "done_on r' ?sq = (if r = r' then done_on r' sq @ [t] else done_on r' sq)" for r'
    using p(2) unfolding handed_on_def running_on_def pool by (auto simp: done_on_def runner_end_def)
  have lists: "sq_shared ?sq = sq_shared sq" "sq_local ?sq = sq_local sq" "sq_remote ?sq = sq_remote sq" "sq_waiting ?sq = sq_waiting sq"
    "sq_submitted ?sq = sq_submitted sq" by (simp_all add: runner_end_def)
  have q: "queued ?sq = queued sq" unfolding queued_def on lists by simp
  have "sides_ok ?sq" using assms(1) p(3) unfolding split_inv_def sides_ok_def on lists by (cases r) (auto split: if_splits)
  moreover have "split_tasks_ok ?sq" using assms(1) p(3) unfolding split_inv_def split_tasks_ok_def on lists q
    by (cases r) (simp_all add: runner_end_def)
  moreover have "counters_ok ?sq"
  proof -
    have tel: "sq_telemetry ?sq = (if r then decDelegated else decRunning) (sq_telemetry sq)"
      "sq_doneLocal ?sq = (if r then sq_doneLocal sq else sq_doneLocal sq @ [t])"
      "sq_doneRemote ?sq = (if r then sq_doneRemote sq @ [t] else sq_doneRemote sq)" by (simp_all add: runner_end_def)
    show ?thesis using assms(1) p(3) unfolding split_inv_def counters_ok_def on lists q tel
      by (cases r) (simp_all add: Let_def decDelegated_def decRunning_def)
  qed
  ultimately show ?thesis using assms(1) p(1) unfolding split_inv_def pool by simp
qed

lemma split_step_inv:
  assumes "split_inv sq" and "split_step ev sq = Some sq'"
  shows "split_inv sq'"
proof -
  have inv: "pool_inv (pool_of r sq)" for r using assms(1) by (simp add: split_inv_def)
  show ?thesis
  proof (cases ev)
    case (SQ_Available v)
    have "pool_inv (wp\<lparr>pc_paused := b\<rparr>) = pool_inv wp" "pool_handed (wp\<lparr>pc_paused := b\<rparr>) = pool_handed wp"
      "pool_running (wp\<lparr>pc_paused := b\<rparr>) = pool_running wp" for b and wp :: "SplitTask WorkerPool"
      by (simp_all add: pool_inv_def pool_handed_def pool_running_def)
    then have "split_inv (set_pool True ((if v then Resume else Pause) (pool_of True sq)) sq)"
      using inv by (intro split_inv_pool [OF assms(1)]) (simp_all add: Resume_def Pause_def handed_on_def running_on_def)
    with SQ_Available assms(2) show ?thesis by (simp add: handleAvailabilityChanged_def)
  next
    case (SQ_Check r)
    with assms(2) obtain p where p: "manager_check (pool_of r sq) = Some p" "sq' = set_pool r p sq" by auto
    with manager_check_pool [OF p(1) inv] show ?thesis
      by (auto intro!: split_inv_pool [OF assms(1)] simp: handed_on_def running_on_def)
  next
    case (SQ_Accept r i)
    with assms(2) obtain p where p: "worker_accept i (pool_of r sq) = Some p" "sq' = set_pool r p sq" by auto
    with worker_accept_pool [OF p(1) inv] show ?thesis
      by (auto intro!: split_inv_pool [OF assms(1)] simp: handed_on_def running_on_def)
  next
    case (SQ_Stop r i)
    with assms(2) obtain p where p: "worker_stop i (pool_of r sq) = Some p" "sq' = set_pool r p sq" by auto
    with worker_stop_pool [OF p(1) inv] show ?thesis
      by (auto intro!: split_inv_pool [OF assms(1)] simp: handed_on_def running_on_def)
  next
    case (SQ_Resize r n)
    with assms(2) Resize_pool [OF inv, of n r] show ?thesis
      by (auto intro!: split_inv_pool [OF assms(1)] simp: handed_on_def running_on_def split: if_splits)
  qed (use assms in \<open>auto simp: Exec_inv Send_inv Start_inv Finish_inv split: if_splits option.splits dest: Select_inv\<close>)
qed

lemma split_reachable_inv: "sq_reachable sq \<Longrightarrow> split_inv sq"
  by (erule queue_sys.invariant) (auto intro: split_inv_init split_step_inv)

section \<open>Properties\<close>


definition sample_task :: "nat \<Rightarrow> SplitTaskLocation \<Rightarrow> SplitTask" where
  "sample_task i e = \<lparr>st_id = i, st_Exclusivity = e\<rparr>"

definition queue_run :: "split_event list" where
  "queue_run = [SQ_Resize False 1, SQ_Resize True 1, SQ_Available True, SQ_Exec (Split_Task (sample_task 0 Loc_Unknown)),
     SQ_Exec (Split_Task (sample_task 1 Loc_Local)), SQ_Exec (Split_Task (sample_task 2 Loc_Unknown)),
     SQ_Check True, SQ_Accept True 0, SQ_Select True False, SQ_Start True 0, SQ_Check False, SQ_Accept False 0,
     SQ_Select False True, SQ_Start False 0, SQ_Finish True 0]"

lemma queue_run_reachable:
  assumes "map_option f (split_run queue_run (NewSplitQueue 10 None)) = Some v"
  obtains sq where "sq_reachable sq" and "f sq = v"
proof -
  from assms obtain sq where "split_run queue_run (NewSplitQueue 10 None) = Some sq" "f sq = v" by auto
  with that sq_reachable_run [OF sq_reachable.sq_init] show thesis by blast
qed


text \<open>Tasks run on the side they are meant for. In every reachable state, no task that must run
  locally runs or has run remotely, and no task that must run remotely runs or has run locally.\<close>

theorem split_queue_exclusive:
  assumes "sq_reachable sq"
  shows "(t \<in># running_on True sq + mset (sq_doneRemote sq) \<longrightarrow> st_Exclusivity t \<noteq> Loc_Local) \<and>
    (t \<in># running_on False sq + mset (sq_doneLocal sq) \<longrightarrow> st_Exclusivity t \<noteq> Loc_Remote)"
  using split_reachable_inv [OF assms]
  by (auto simp: split_inv_def sides_ok_def allowed_def done_on_def split: if_splits)

theorem split_queue_exclusive_witness:
  "\<exists>sq. sq_reachable sq \<and> sample_task 1 Loc_Local \<in># running_on False sq \<and> sample_task 1 Loc_Local \<notin># running_on True sq"
proof -
  have "map_option (\<lambda>sq. pool_running (pool_of False sq)) (split_run queue_run (NewSplitQueue 10 None)) = Some [sample_task 1 Loc_Local]"
    by code_simp
  then obtain sq where sq: "sq_reachable sq" "pool_running (pool_of False sq) = [sample_task 1 Loc_Local]" by (rule queue_run_reachable)
  with split_queue_exclusive [OF sq(1), of "sample_task 1 Loc_Local"] show ?thesis
    by (auto simp: running_on_def sample_task_def)
qed


end
