(* ===== verification/ToolchainStore.thy ===== *)
theory ToolchainStore
  imports Types "HOL-Library.AList"
begin

text \<open>
  \<open>src/pkg/toolchains/store.go\<close>, \<open>query.go\<close>, \<open>discovery.go\<close> and \<open>src/pkg/cc/finder.go\<close>: the store of
  the compilers of a host, the querier that asks a compiler about itself, and the search for compilers
  in directories. What the host answers at the time of a call (links, files, runs of a compiler) is
  an argument. A map or set that the code iterates over is a list in the order of that iteration. The
  toolchain that \<open>Find\<close> returns is the stored object, so \<open>UpdateIfNeeded\<close>, which is called on it,
  changes the entry of the store.
\<close>

section \<open>Queriers\<close>

text \<open>Every question returns a value together with an error; \<open>ModTime\<close> tells a path error from
  others.\<close>

datatype mod_error = Path_Error string | Other_Error string

record Querier =
  q_Version :: "string \<Rightarrow> string \<times> go_error option"
  q_TargetArch :: "string \<Rightarrow> string \<times> go_error option"
  q_IsPicDefault :: "string \<Rightarrow> bool \<times> go_error option"
  q_IsPieDefault :: "string \<Rightarrow> bool \<times> go_error option"
  q_Kind :: "string \<Rightarrow> ToolchainKind \<times> go_error option"
  q_Lang :: "string \<Rightarrow> ToolchainLang \<times> go_error option"
  q_ModTime :: "string \<Rightarrow> int \<times> mod_error option"

text \<open>A run of a command: standard output, standard error, and whether it succeeded.\<close>

record command_result =
  cmd_stdout :: string
  cmd_stderr :: string
  cmd_err :: "go_error option"

datatype command_input = No_Input | Pic_Check | Pie_Check

type_synonym command_runner = "string \<Rightarrow> string list \<Rightarrow> command_input \<Rightarrow> command_result"

definition preprocess_args :: "string list" where
  "preprocess_args = [''-E'', ''-o'', ''/dev/null'', ''-'']"

definition IsPicDefault :: "command_runner \<Rightarrow> string \<Rightarrow> bool \<times> go_error option" where
  "IsPicDefault exec compiler =
     (let r = exec compiler preprocess_args Pic_Check
      in case cmd_err r of None \<Rightarrow> (False, None) | Some _ \<Rightarrow> (Contains (cmd_stderr r) ''#error'', None))"

definition IsPieDefault :: "command_runner \<Rightarrow> string \<Rightarrow> bool \<times> go_error option" where
  "IsPieDefault exec compiler =
     (let r = exec compiler preprocess_args Pie_Check
      in case cmd_err r of None \<Rightarrow> (False, None) | Some _ \<Rightarrow> (Contains (cmd_stderr r) ''#error'', None))"

definition TargetArch :: "command_runner \<Rightarrow> string \<Rightarrow> string \<times> go_error option" where
  "TargetArch exec compiler =
     (let r = exec compiler [''-dumpmachine''] No_Input
      in case cmd_err r of
           Some e \<Rightarrow> ('''', Some e)
         | None \<Rightarrow>
             let triple = Split (CHR ''-'') (cmd_stdout r)
             in if length triple \<le> 2 then ('''', Some (Error ''GCC returned an invalid target triple with -dumpmachine''))
                else (TrimSpace (hd triple), None))"

definition Version :: "command_runner \<Rightarrow> string \<Rightarrow> string \<times> go_error option" where
  "Version exec compiler =
     (let r = exec compiler [''-dumpversion''] No_Input
      in case cmd_err r of Some e \<Rightarrow> ('''', Some e) | None \<Rightarrow> (TrimSpace (cmd_stdout r), None))"

definition exec_Kind :: "string \<Rightarrow> ToolchainKind \<times> go_error option" where
  "exec_Kind compiler =
     (let base = Base compiler
      in if Contains base ''clang'' then (Clang, None)
         else if Contains base ''++'' then (Gnu, None)
         else if Contains base ''cc'' then (Gnu, None)
         else (Kind_Unknown, Some (Error ''Unknown compiler'')))"

definition exec_Lang :: "string \<Rightarrow> ToolchainLang \<times> go_error option" where
  "exec_Lang compiler =
     (let base = Base compiler
      in if Contains base ''clang'' then (Lang_Multi, None)
         else if Contains base ''++'' then (Lang_CXX, None)
         else if Contains base ''cc'' then (Lang_C, None)
         else (Lang_Unknown, Some (Error ''Unknown compiler'')))"

definition exec_ModTime :: "(string \<Rightarrow> int option) \<Rightarrow> string \<Rightarrow> int \<times> mod_error option" where
  "exec_ModTime stat compiler =
     (case stat compiler of None \<Rightarrow> (0, Some (Path_Error compiler)) | Some t \<Rightarrow> (t, None))"

definition ExecQuerier :: "command_runner \<Rightarrow> (string \<Rightarrow> int option) \<Rightarrow> Querier" where
  "ExecQuerier exec stat =
     \<lparr>q_Version = Version exec, q_TargetArch = TargetArch exec, q_IsPicDefault = IsPicDefault exec,
      q_IsPieDefault = IsPieDefault exec, q_Kind = exec_Kind, q_Lang = exec_Lang, q_ModTime = exec_ModTime stat\<rparr>"

section \<open>Store\<close>

record 'q toolchainData =
  td_toolchain :: Toolchain
  td_modTime :: int
  td_querier :: 'q

type_synonym 'q Store = "(string \<times> 'q toolchainData) list"

text \<open>What the host answers during a call: the target of a link, and what a querier says.\<close>

record 'q host =
  h_EvalSymlinks :: "string \<Rightarrow> string option"
  h_ask :: "'q \<Rightarrow> Querier"

definition NewStore :: "'q Store" where
  "NewStore = []"

definition evalPath :: "'q host \<Rightarrow> string \<Rightarrow> string" where
  "evalPath h executable = (case h_EvalSymlinks h executable of None \<Rightarrow> executable | Some resolved \<Rightarrow> resolved)"

definition store_Contains :: "'q host \<Rightarrow> string \<Rightarrow> 'q Store \<Rightarrow> bool" where
  "store_Contains h executable s = (map_of s (evalPath h executable) \<noteq> None)"

definition store_Items :: "'q Store \<Rightarrow> Toolchain list" where
  "store_Items s = map (\<lambda>(_, d). td_toolchain d) s"

fun error_text :: "go_error \<Rightarrow> string" where
  "error_text (Status _ m) = m"
| "error_text (Error m) = m"

definition WithMessage :: "go_error \<Rightarrow> string \<Rightarrow> go_error" where
  "WithMessage e msg = Error (msg @ '': '' @ error_text e)"

text \<open>\<open>fillInfo\<close>: the fields are assigned one after the other, also the one that comes with an error.\<close>

definition fillInfo :: "Toolchain \<Rightarrow> Querier \<Rightarrow> Toolchain \<times> go_error option" where
  "fillInfo tc q =
     (let exe = tc_Executable tc; (arch, e1) = q_TargetArch q exe; tc1 = tc\<lparr>tc_TargetArch := arch\<rparr>
      in case e1 of Some e \<Rightarrow> (tc1, Some (WithMessage e ''Could not determine target arch''))
       | None \<Rightarrow>
      (let (v, e2) = q_Version q exe; tc2 = tc1\<lparr>tc_Version := v\<rparr>
      in case e2 of Some e \<Rightarrow> (tc2, Some (WithMessage e ''Could not determine target version''))
       | None \<Rightarrow>
      (let (pic, e3) = q_IsPicDefault q exe; tc3 = tc2\<lparr>tc_PicDefault := pic\<rparr>
      in case e3 of Some e \<Rightarrow> (tc3, Some (WithMessage e ''Could not determine compiler PIC defaults''))
       | None \<Rightarrow>
      (let (k, e4) = q_Kind q exe; tc4 = tc3\<lparr>tc_Kind := k\<rparr>
      in case e4 of Some e \<Rightarrow> (tc4, Some (WithMessage e ''Could not determine compiler kind (gcc/clang)''))
       | None \<Rightarrow>
      (let (l, e5) = q_Lang q exe; tc5 = tc4\<lparr>tc_Lang := l\<rparr>
      in case e5 of Some e \<Rightarrow> (tc5, Some (WithMessage e ''Could not determine compiler language (c/cxx/multi)''))
       | None \<Rightarrow> (tc5, None))))))"

definition bare_toolchain :: "string \<Rightarrow> Toolchain" where
  "bare_toolchain executable =
     \<lparr>tc_Kind = Kind_Unknown, tc_Lang = Lang_Unknown, tc_Executable = executable, tc_TargetArch = '''', tc_Version = '''',
      tc_PicDefault = False, tc_PieDefault = False\<rparr>"

fun mod_text :: "mod_error \<Rightarrow> string" where
  "mod_text (Path_Error m) = m"
| "mod_text (Other_Error m) = m"

definition store_Add :: "'q host \<Rightarrow> string \<Rightarrow> 'q \<Rightarrow> 'q Store \<Rightarrow> Toolchain outcome \<times> 'q Store" where
  "store_Add h path q s =
     (let executable = evalPath h path
      in if store_Contains h executable s then (Fail (Error ''Tried to add an already existing toolchain''), s)
         else case fillInfo (bare_toolchain executable) (h_ask h q) of
                (_, Some e) \<Rightarrow> (Fail e, s)
              | (tc, None) \<Rightarrow>
                  (case q_ModTime (h_ask h q) executable of
                     (_, Some e) \<Rightarrow> (Fail (WithMessage (Error (mod_text e)) ''Could not determine compiler modification time''), s)
                   | (modTime, None) \<Rightarrow>
                       (Return tc, AList.update executable \<lparr>td_toolchain = tc, td_modTime = modTime, td_querier = q\<rparr> s)))"

definition store_Find :: "'q host \<Rightarrow> string \<Rightarrow> 'q Store \<Rightarrow> Toolchain outcome" where
  "store_Find h executable s =
     (case map_of s executable of
        Some data \<Rightarrow> Return (td_toolchain data)
      | None \<Rightarrow>
          (case map_of s (evalPath h executable) of
             Some data \<Rightarrow> Return (td_toolchain data)
           | None \<Rightarrow> Fail (Error ''Toolchain not found'')))"

definition store_Remove :: "Toolchain \<Rightarrow> 'q Store \<Rightarrow> 'q Store" where
  "store_Remove tc s = AList.delete (tc_Executable tc) s"

text \<open>\<open>UpdateIfNeeded\<close> on a stored toolchain: the error, whether something was updated, and the store.
  A toolchain that is not in the store leads to a nil pointer.\<close>

definition UpdateIfNeeded :: "'q host \<Rightarrow> Toolchain \<Rightarrow> 'q Store \<Rightarrow> (string option \<times> bool \<times> 'q Store) outcome" where
  "UpdateIfNeeded h tc s =
     (case map_of s (tc_Executable tc) of
        None \<Rightarrow> Panic
      | Some data \<Rightarrow>
          (let (timestamp, err) = q_ModTime (h_ask h (td_querier data)) (tc_Executable tc)
           in case err of
                Some (Path_Error m) \<Rightarrow> Return (Some m, True, AList.delete (tc_Executable tc) s)
              | _ \<Rightarrow>
                  if timestamp \<noteq> td_modTime data
                  then (case fillInfo tc (h_ask h (td_querier data)) of
                          (tc', Some e) \<Rightarrow>
                            Return (Some (error_text e), True, AList.update (tc_Executable tc) (data\<lparr>td_toolchain := tc'\<rparr>) s)
                        | (tc', None) \<Rightarrow>
                            Return (None, True,
                              AList.update (tc_Executable tc) (data\<lparr>td_toolchain := tc', td_modTime := timestamp\<rparr>) s))
                  else Return (None, False, s)))"

text \<open>The entries of a store are keyed by their executables, so the querier of an item of the other
  store is the one of its own entry.\<close>

fun merge_items :: "'q host \<Rightarrow> (string \<times> 'q toolchainData) list \<Rightarrow> 'q Store \<Rightarrow> 'q Store" where
  "merge_items h [] s = s"
| "merge_items h ((_, d) # ds) s =
     (if store_Contains h (tc_Executable (td_toolchain d)) s then merge_items h ds s
      else merge_items h ds (snd (store_Add h (tc_Executable (td_toolchain d)) (td_querier d) s)))"

definition store_Merge :: "'q host \<Rightarrow> 'q Store \<Rightarrow> 'q Store \<Rightarrow> 'q Store" where
  "store_Merge h other s = merge_items h other s"

definition Intersection :: "'q Store \<Rightarrow> 'q Store \<Rightarrow> Toolchain list" where
  "Intersection s other =
     concat (map (\<lambda>tc. map (\<lambda>_. tc) (filter (EquivalentTo tc) (store_Items other))) (store_Items s))"

definition store_Len :: "'q Store \<Rightarrow> nat" where
  "store_Len s = length s"

definition TryMatch :: "Toolchain \<Rightarrow> 'q Store \<Rightarrow> Toolchain outcome" where
  "TryMatch other s =
     (case find (\<lambda>tc. EquivalentTo tc other) (store_Items s) of
        Some tc \<Rightarrow> Return tc
      | None \<Rightarrow> Fail (Error ''No local toolchain matches remote''))"

definition Aggregate :: "'q host \<Rightarrow> 'q Store list \<Rightarrow> 'q Store" where
  "Aggregate h found = fold (store_Merge h) found NewStore"

section \<open>Search for compilers\<close>

datatype stat_result = Is_File | Is_Symlink | Not_Exist | Stat_Error

record file_system =
  fs_Stat :: "string \<Rightarrow> stat_result"
  fs_ReadDir :: "string \<Rightarrow> string list option"
  fs_EvalSymlinks :: "string \<Rightarrow> string option"

text \<open>\<open>addPath\<close>: an error other than a missing file leaves a nil file info, whose mode is read.\<close>

definition addPath :: "file_system \<Rightarrow> string \<Rightarrow> string list \<Rightarrow> string list outcome" where
  "addPath fs path paths =
     (case fs_Stat fs path of
        Not_Exist \<Rightarrow> Return paths
      | Stat_Error \<Rightarrow> Panic
      | Is_File \<Rightarrow> Return (List.insert path paths)
      | Is_Symlink \<Rightarrow>
          (case fs_EvalSymlinks fs path of None \<Rightarrow> Return paths | Some target \<Rightarrow> Return (List.insert target paths)))"

fun addPaths :: "file_system \<Rightarrow> string list \<Rightarrow> string list \<Rightarrow> string list outcome" where
  "addPaths fs [] acc = Return acc"
| "addPaths fs (p # ps) acc =
     (case addPath fs p acc of Return acc' \<Rightarrow> addPaths fs ps acc' | Fail e \<Rightarrow> Fail e | Panic \<Rightarrow> Panic)"

text \<open>The regular expression of the names of compilers: an optional host triple, one of the names, an
  optional version.\<close>

definition word_char :: "char \<Rightarrow> bool" where
  "word_char c = (let n = of_char c :: nat in 48 \<le> n \<and> n \<le> 57 \<or> 65 \<le> n \<and> n \<le> 90 \<or> 97 \<le> n \<and> n \<le> 122 \<or> n = 95)"

definition version_char :: "char \<Rightarrow> bool" where
  "version_char c = (let n = of_char c :: nat in 48 \<le> n \<and> n \<le> 57 \<or> n = 46)"

definition version_suffix :: "string \<Rightarrow> bool" where
  "version_suffix s = (s = [] \<or> (hd s = CHR ''-'' \<and> tl s \<noteq> [] \<and> list_all version_char (tl s)))"

definition bare_compiler :: "string \<Rightarrow> bool" where
  "bare_compiler s =
     list_ex (\<lambda>name. HasPrefix s name \<and> version_suffix (drop (length name) s)) [''gcc'', ''g++'', ''clang'', ''clang++'']"

definition strip_word :: "string \<Rightarrow> string option" where
  "strip_word s =
     (case dropWhile word_char s of c # rest \<Rightarrow> if word_char (hd s) \<and> c = CHR ''-'' then Some rest else None | [] \<Rightarrow> None)"

definition compiler_name :: "string \<Rightarrow> bool" where
  "compiler_name s =
     (bare_compiler s \<or>
      (case Option.bind (Option.bind (strip_word s) strip_word) strip_word of Some r \<Rightarrow> bare_compiler r | None \<Rightarrow> False))"

fun scan_dirs :: "file_system \<Rightarrow> string list \<Rightarrow> string list \<Rightarrow> string list outcome" where
  "scan_dirs fs [] acc = Return acc"
| "scan_dirs fs (dirname # dirs) acc =
     (case fs_ReadDir fs dirname of
        None \<Rightarrow> scan_dirs fs dirs acc
      | Some infos \<Rightarrow>
          (case addPaths fs (map (\<lambda>n. Join [dirname, n]) (filter (\<lambda>n. compiler_name (Base n)) infos)) acc of
             Return acc' \<Rightarrow> scan_dirs fs dirs acc' | Fail e \<Rightarrow> Fail e | Panic \<Rightarrow> Panic))"

fun add_compilers :: "'q host \<Rightarrow> 'q \<Rightarrow> string list \<Rightarrow> 'q Store \<Rightarrow> 'q Store" where
  "add_compilers h q [] s = s"
| "add_compilers h q (c # cs) s =
     (if store_Contains h c s then add_compilers h q cs s else add_compilers h q cs (snd (store_Add h c q s)))"

record 'q FindOptions =
  fo_FS :: file_system
  fo_Querier :: 'q
  fo_Path :: bool
  fo_SearchPaths :: "string list"

definition default_paths :: "string list" where
  "default_paths = [''/usr/bin'', ''/usr/local/bin'', ''/bin'']"

definition FindToolchains :: "'q host \<Rightarrow> string option \<Rightarrow> 'q FindOptions \<Rightarrow> 'q Store outcome" where
  "FindToolchains h pathEnv opts =
     (let extra = (if fo_Path opts then (case pathEnv of None \<Rightarrow> [] | Some p \<Rightarrow> Split (CHR '':'') p) else [])
      in case addPaths (fo_FS opts) (fo_SearchPaths opts @ extra) [] of
           Return dirs \<Rightarrow>
             (case scan_dirs (fo_FS opts) dirs [] of
                Return compilers \<Rightarrow> Return (add_compilers h (fo_Querier opts) compilers NewStore)
              | Fail e \<Rightarrow> Fail e | Panic \<Rightarrow> Panic)
         | Fail e \<Rightarrow> Fail e | Panic \<Rightarrow> Panic)"

section \<open>Invariant\<close>

text \<open>Keys are distinct, and every toolchain is stored under its executable.\<close>

definition store_inv :: "'q Store \<Rightarrow> bool" where
  "store_inv s \<longleftrightarrow> distinct (map fst s) \<and> (\<forall>(k, d)\<in>set s. tc_Executable (td_toolchain d) = k)"

lemma store_inv_map_of: "store_inv s \<Longrightarrow> map_of s k = Some d \<Longrightarrow> tc_Executable (td_toolchain d) = k"
  by (auto simp: store_inv_def dest: map_of_SomeD)

lemma store_inv_update:
  assumes "store_inv s" and "tc_Executable (td_toolchain d) = k"
  shows "store_inv (AList.update k d s)"
proof -
  have "set (AList.update k d s) \<subseteq> insert (k, d) (set s)" by (induction s) auto
  with assms show ?thesis by (auto simp: store_inv_def distinct_update)
qed

lemma store_inv_delete: "store_inv s \<Longrightarrow> store_inv (AList.delete k s)"
  by (auto simp: store_inv_def AList.delete_eq distinct_map_filter)

lemma fillInfo_executable: "fillInfo tc q = (tc', e) \<Longrightarrow> tc_Executable tc' = tc_Executable tc"
  by (auto simp: fillInfo_def Let_def split: prod.splits option.splits)

lemma fillInfo_answers:
  assumes "fillInfo tc q = (tc', None)"
  shows "q_TargetArch q (tc_Executable tc) = (tc_TargetArch tc', None) \<and> q_Version q (tc_Executable tc) = (tc_Version tc', None) \<and>
    q_IsPicDefault q (tc_Executable tc) = (tc_PicDefault tc', None) \<and> q_Kind q (tc_Executable tc) = (tc_Kind tc', None) \<and>
    q_Lang q (tc_Executable tc) = (tc_Lang tc', None)"
  using assms by (auto simp: fillInfo_def Let_def split: prod.splits option.splits)

lemma store_Add_inv: "store_inv s \<Longrightarrow> store_inv (snd (store_Add h path q s))"
  by (auto simp: store_Add_def Let_def bare_toolchain_def split: prod.splits option.splits
      intro!: store_inv_update dest: fillInfo_executable)

lemma UpdateIfNeeded_inv: "store_inv s \<Longrightarrow> UpdateIfNeeded h tc s = Return (e, upd, s') \<Longrightarrow> store_inv s'"
  by (auto simp: UpdateIfNeeded_def split: option.splits prod.splits mod_error.splits if_splits
      intro!: store_inv_update store_inv_delete dest: fillInfo_executable)

lemma merge_items_inv: "store_inv s \<Longrightarrow> store_inv (merge_items h ds s)"
  by (induction h ds s rule: merge_items.induct) (auto simp: store_Add_inv)

lemma add_compilers_inv: "store_inv s \<Longrightarrow> store_inv (add_compilers h q cs s)"
  by (induction h q cs s rule: add_compilers.induct) (auto simp: store_Add_inv)

lemma Aggregate_inv: "store_inv (Aggregate h found)"
proof -
  have "store_inv s \<Longrightarrow> store_inv (fold (store_Merge h) found s)" for s
    by (induction found arbitrary: s) (auto simp: store_Merge_def merge_items_inv)
  moreover have "store_inv NewStore" by (simp add: NewStore_def store_inv_def)
  ultimately show ?thesis by (simp add: Aggregate_def)
qed

lemma TryMatch_sound: "TryMatch other s = Return tc \<Longrightarrow> EquivalentTo tc other \<and> tc \<in> set (store_Items s)"
  by (auto simp: TryMatch_def find_Some_iff split: option.splits)

lemma TryMatch_complete: "TryMatch other s = Fail e \<Longrightarrow> tc \<in> set (store_Items s) \<Longrightarrow> \<not> EquivalentTo tc other"
  by (auto simp: TryMatch_def find_None_iff split: option.splits)

text \<open>A successful \<open>Add\<close>.\<close>

lemma store_Add_Return:
  assumes "store_Add h path q s = (Return tc, s')"
  shows "tc_Executable tc = evalPath h path \<and> (\<exists>d. s' = AList.update (evalPath h path) d s \<and> td_toolchain d = tc) \<and>
    q_Version (h_ask h q) (evalPath h path) = (tc_Version tc, None) \<and>
    q_TargetArch (h_ask h q) (evalPath h path) = (tc_TargetArch tc, None) \<and>
    q_Kind (h_ask h q) (evalPath h path) = (tc_Kind tc, None) \<and> q_Lang (h_ask h q) (evalPath h path) = (tc_Lang tc, None) \<and>
    q_IsPicDefault (h_ask h q) (evalPath h path) = (tc_PicDefault tc, None)"
proof -
  from assms obtain t where f: "fillInfo (bare_toolchain (evalPath h path)) (h_ask h q) = (tc, None)"
    and s': "s' = AList.update (evalPath h path) \<lparr>td_toolchain = tc, td_modTime = t, td_querier = q\<rparr> s"
    by (auto simp: store_Add_def Let_def split: if_splits prod.splits option.splits)
  show ?thesis using fillInfo_executable [OF f] fillInfo_answers [OF f] s' by (auto simp: bare_toolchain_def)
qed

section \<open>Properties\<close>


definition sample_runner :: command_runner where
  "sample_runner compiler args inp =
     (if args = [''-dumpmachine''] then \<lparr>cmd_stdout = ''x86_64-linux-gnu'', cmd_stderr = '''', cmd_err = None\<rparr>
      else if args = [''-dumpversion''] then \<lparr>cmd_stdout = ''11 '', cmd_stderr = '''', cmd_err = None\<rparr>
      else \<lparr>cmd_stdout = '''', cmd_stderr = ''x: #error'', cmd_err = Some (Error ''exit status 1'')\<rparr>)"

definition sample_host :: "unit host" where
  "sample_host =
     \<lparr>h_EvalSymlinks = (\<lambda>p. if p = ''/usr/bin/gcc'' then Some ''/usr/bin/gcc-11'' else Some p),
      h_ask = (\<lambda>_. ExecQuerier sample_runner (\<lambda>_. Some 7))\<rparr>"


end
