(* ===== verification/Status.thy ===== *)
theory Status
  imports Prelude "HOL-Library.AList"
begin

text \<open>
  \<open>src/pkg/metrics/status.go\<close> and the formatting of conditions in \<open>src/pkg/metrics/types.go\<close>: the status
  controller that every server embeds. A context is a number; conditions are a map from contexts,
  kept as a list in the order in which a range over the map visits it. The goroutine that removes a
  condition is a step of its own.
\<close>

section \<open>Model\<close>

datatype StatusConditions =
    NoConditions | Pending | MissingOptionalComponent | MissingCriticalComponent | InvalidConfiguration | InternalError

datatype OverallStatus = UnknownStatus | Ready | Initializing | Degraded | Unavailable_Status

fun status_level :: "OverallStatus \<Rightarrow> nat" where
  "status_level UnknownStatus = 0"
| "status_level Ready = 1"
| "status_level Initializing = 2"
| "status_level Degraded = 3"
| "status_level Unavailable_Status = 4"

fun cond_Format :: "StatusConditions \<Rightarrow> string \<Rightarrow> string" where
  "cond_Format NoConditions msg = msg"
| "cond_Format Pending msg = ''[Pending] '' @ msg"
| "cond_Format MissingOptionalComponent msg = ''[Missing Optional] '' @ msg"
| "cond_Format MissingCriticalComponent msg = ''[Missing Critical] '' @ msg"
| "cond_Format InvalidConfiguration msg = ''[Invalid Config] '' @ msg"
| "cond_Format InternalError msg = ''[Internal Error] '' @ msg"

definition FormatAll :: "StatusConditions \<Rightarrow> string list \<Rightarrow> string list" where
  "FormatAll sc msgs = map (cond_Format sc) msgs"

record activeCondition =
  ac_condition :: StatusConditions
  ac_msgs :: "string list"

record StatusController =
  sc_srvDone :: bool
  sc_conditions :: "(nat \<times> activeCondition) list"
  sc_pending :: nat                \<comment> \<open>the context that \<open>cancelPending\<close> cancels\<close>
  sc_broadcasts :: nat

record Health =
  health_Status :: OverallStatus
  health_Messages :: "string list"

definition ApplyCondition :: "nat \<Rightarrow> StatusConditions \<Rightarrow> string list \<Rightarrow> StatusController \<Rightarrow> StatusController" where
  "ApplyCondition while cond msgs sm =
     sm\<lparr>sc_conditions := AList.update while \<lparr>ac_condition = cond, ac_msgs = msgs\<rparr> (sc_conditions sm),
        sc_broadcasts := sc_broadcasts sm + 1\<rparr>"

text \<open>The goroutine of \<open>ApplyCondition\<close>, once the context of the condition or of the server is done.\<close>

definition ClearCondition :: "nat \<Rightarrow> StatusController \<Rightarrow> StatusController" where
  "ClearCondition while sm =
     sm\<lparr>sc_conditions := AList.delete while (sc_conditions sm), sc_broadcasts := sc_broadcasts sm + 1\<rparr>"

definition BeginInitialize :: "nat \<Rightarrow> StatusController" where
  "BeginInitialize ctx =
     ApplyCondition ctx Pending [''Component is initializing'']
       \<lparr>sc_srvDone = False, sc_conditions = [], sc_pending = ctx, sc_broadcasts = 0\<rparr>"

text \<open>\<open>EndInitialize\<close> cancels the context, and its goroutine removes the condition.\<close>

definition EndInitialize :: "StatusController \<Rightarrow> StatusController" where
  "EndInitialize sm = ClearCondition (sc_pending sm) sm"

text \<open>The loop of \<open>health\<close> over the conditions.\<close>

fun health_loop :: "activeCondition list \<Rightarrow> OverallStatus \<Rightarrow> string list \<Rightarrow> Health" where
  "health_loop [] overall msgs = \<lparr>health_Status = overall, health_Messages = msgs\<rparr>"
| "health_loop (v # vs) overall msgs =
     (let msgs1 = msgs @ FormatAll (ac_condition v) (ac_msgs v)
      in case ac_condition v of
           Pending \<Rightarrow> \<lparr>health_Status = Initializing, health_Messages = ac_msgs v\<rparr>
         | MissingOptionalComponent \<Rightarrow>
             health_loop vs (if status_level overall < status_level Degraded then Degraded else overall) msgs1
         | NoConditions \<Rightarrow> health_loop vs overall msgs1
         | _ \<Rightarrow> health_loop vs
             (if status_level overall < status_level Unavailable_Status then Unavailable_Status else overall) msgs1)"

definition health :: "StatusController \<Rightarrow> Health" where
  "health sm = health_loop (map snd (sc_conditions sm)) (if sc_srvDone sm then Unavailable_Status else Ready) []"

definition GetHealth :: "StatusController \<Rightarrow> Health" where
  "GetHealth sm = health sm"

text \<open>One round of \<open>StreamHealthUpdates\<close>: nothing once the server is done, else the health to send.\<close>

definition StreamHealthUpdates :: "StatusController \<Rightarrow> Health option" where
  "StreamHealthUpdates sm = (if sc_srvDone sm then None else Some (health sm))"

section \<open>Specification of the health\<close>

definition critical :: "activeCondition \<Rightarrow> bool" where
  "critical v = (ac_condition v \<in> {MissingCriticalComponent, InvalidConfiguration, InternalError})"

definition health_spec :: "bool \<Rightarrow> activeCondition set \<Rightarrow> OverallStatus" where
  "health_spec srvDone cs =
     (if \<exists>v\<in>cs. ac_condition v = Pending then Initializing
      else if srvDone \<or> (\<exists>v\<in>cs. critical v) then Unavailable_Status
      else if \<exists>v\<in>cs. ac_condition v = MissingOptionalComponent then Degraded
      else Ready)"

lemma health_loop_status:
  "health_Status (health_loop vs overall msgs) =
     (if \<exists>v\<in>set vs. ac_condition v = Pending then Initializing
      else if \<exists>v\<in>set vs. critical v then (if overall = Unavailable_Status \<or> status_level overall < 4 then Unavailable_Status else overall)
      else if \<exists>v\<in>set vs. ac_condition v = MissingOptionalComponent then (if status_level overall < 3 then Degraded else overall)
      else overall)"
proof (induction vs arbitrary: overall msgs)
  case (Cons v vs)
  show ?case
    by (cases overall; cases "ac_condition v") (simp_all add: Let_def Cons critical_def)
qed simp

lemma health_loop_messages:
  "\<forall>v\<in>set vs. ac_condition v \<noteq> Pending \<Longrightarrow>
     health_Messages (health_loop vs overall msgs) = msgs @ concat (map (\<lambda>v. FormatAll (ac_condition v) (ac_msgs v)) vs)"
proof (induction vs arbitrary: overall msgs)
  case (Cons v vs)
  then show ?case by (cases "ac_condition v") (simp_all add: Let_def)
qed simp

section \<open>Properties\<close>

text \<open>The health of a component does not depend on the order in which the map of conditions is
  visited. The status is the one of the specification for the set of active conditions, and unless
  the component is initializing, the messages are those of all conditions.\<close>

theorem health_meets_spec:
  assumes "mset vs = mset (map snd (sc_conditions sm))"
  shows "health_Status (health sm) = health_spec (sc_srvDone sm) (set vs) \<and>
    (health_Status (health sm) \<noteq> Initializing \<longrightarrow>
       mset (health_Messages (health sm)) = mset (concat (map (\<lambda>v. FormatAll (ac_condition v) (ac_msgs v)) vs)))"
proof -
  let ?us = "map snd (sc_conditions sm)"
  have s: "set vs = set ?us" using assms by (rule mset_eq_setD)
  have status: "health_Status (health sm) = health_spec (sc_srvDone sm) (set ?us)"
    unfolding health_def health_loop_status health_spec_def by (auto simp: critical_def)
  have "mset (concat (map f vs)) = mset (concat (map f ?us))" for f :: "activeCondition \<Rightarrow> string list"
    using assms by (simp add: mset_concat flip: mset_map) (metis (no_types, lifting) map_map mset_map sum_mset_sum_list)
  moreover have "health_Messages (health sm) = concat (map (\<lambda>v. FormatAll (ac_condition v) (ac_msgs v)) ?us)"
    if "health_Status (health sm) \<noteq> Initializing"
    using that health_loop_messages [of ?us _ "[]"] unfolding status by (auto simp: health_def health_spec_def split: if_splits)
  ultimately show ?thesis using status s by simp
qed

definition two_conditions :: StatusController where
  "two_conditions = ApplyCondition 2 MissingOptionalComponent [''No agents connected'']
     (ApplyCondition 1 InternalError [''disk''] (EndInitialize (BeginInitialize 0)))"

theorem health_meets_spec_witness:
  "health_Status (health two_conditions) = Unavailable_Status \<and>
   mset (health_Messages (health two_conditions)) = {#''[Internal Error] disk'', ''[Missing Optional] No agents connected''#}"
proof -
  let ?vs = "[\<lparr>ac_condition = MissingOptionalComponent, ac_msgs = [''No agents connected'']\<rparr>,
     \<lparr>ac_condition = InternalError, ac_msgs = [''disk'']\<rparr>]"
  have "sc_conditions two_conditions = [(1, ?vs ! 1), (2, ?vs ! 0)]" by code_simp
  then have "mset ?vs = mset (map snd (sc_conditions two_conditions))" by simp
  from health_meets_spec [OF this] show ?thesis
    by (auto simp: health_spec_def critical_def FormatAll_def two_conditions_def ApplyCondition_def EndInitialize_def
        ClearCondition_def BeginInitialize_def add_mset_commute)
qed

end
