(* ===== verification/SchedulerServer.thy ===== *)
theory SchedulerServer
  imports Transitions Broker Status Floats "HOL-Library.Word"
begin

text \<open>
  \<open>src/pkg/scheduler/server.go\<close> and \<open>optimizer.go\<close>: the gRPC handlers of the scheduler around the
  broker, its status conditions, the metrics it posts and the factor by which the optimizer scales
  the usage limits. A handler is the list of the atomic actions it still has to do, so that the
  handlers of several connections interleave. The shutdown of the server is not modelled.
\<close>

section \<open>Optimizer\<close>

text \<open>The channel \<open>usageC\<close> has one place; senders that find it full wait.\<close>

record Optimizer =
  op_usageC :: "go_float list"
  op_waiting :: "go_float list"

definition send_usage :: "go_float \<Rightarrow> Optimizer \<Rightarrow> Optimizer" where
  "send_usage v opt =
     (if op_usageC opt = [] then opt\<lparr>op_usageC := [v]\<rparr> else opt\<lparr>op_waiting := op_waiting opt @ [v]\<rparr>)"

definition NewOptimizer :: Optimizer where
  "NewOptimizer = send_usage (Fin 1) \<lparr>op_usageC = [], op_waiting = []\<rparr>"

text \<open>A receive from the channel lets the first waiting sender proceed.\<close>

definition UsageLimitMultiplierChanged :: "Optimizer \<Rightarrow> (go_float \<times> Optimizer) option" where
  "UsageLimitMultiplierChanged opt =
     (case op_usageC opt of
        [] \<Rightarrow> None
      | v # _ \<Rightarrow> Some (v, case op_waiting opt of
          [] \<Rightarrow> opt\<lparr>op_usageC := []\<rparr>
        | w # ws \<Rightarrow> opt\<lparr>op_usageC := [w], op_waiting := ws\<rparr>))"

text \<open>\<open>runCacheOptimizer\<close>: a new value of the cache hits, or the cache going away.\<close>

definition runCacheOptimizer :: "go_float option \<Rightarrow> Optimizer \<Rightarrow> Optimizer" where
  "runCacheOptimizer hitPercent opt =
     (case hitPercent of Some p \<Rightarrow> send_usage (fadd (Fin 1) p) opt | None \<Rightarrow> send_usage (Fin 1) opt)"

record CpuStats =
  cs_WallTime :: "64 word"
  cs_CfsQuota :: int
  cs_CfsPeriod :: int
  cs_TotalUsage :: "64 word"
  cs_ThrottledTime :: "64 word"

record snapshot =
  sn_wallTime :: "64 word"
  sn_tokenCount :: int
  sn_tokensInUse :: int
  sn_stats :: CpuStats

abbreviation of_uint64 :: "64 word \<Rightarrow> go_float" where
  "of_uint64 w \<equiv> Fin (of_int (uint w))"

definition UsageFactor :: "snapshot \<Rightarrow> snapshot \<Rightarrow> go_float" where
  "UsageFactor s prev =
     (let quota = (if cs_CfsQuota (sn_stats s) < 0 then cs_CfsPeriod (sn_stats s) else cs_CfsQuota (sn_stats s));
          dt = of_uint64 (sn_wallTime s - sn_wallTime prev);
          du = of_uint64 (cs_TotalUsage (sn_stats s) - cs_TotalUsage (sn_stats prev));
          mx = fmul (fquot dt (Fin (of_int (cs_CfsPeriod (sn_stats s))))) (Fin (of_int quota))
      in fquot du mx)"

definition ThrottlingFactor :: "snapshot \<Rightarrow> snapshot \<Rightarrow> go_float" where
  "ThrottlingFactor s nxt =
     (let dt = of_uint64 (sn_wallTime nxt - sn_wallTime s)
      in fsub (Fin 1) (fquot (of_uint64 (cs_ThrottledTime (sn_stats s))) dt))"

definition TokenUsage :: "snapshot \<Rightarrow> go_float" where
  "TokenUsage s = fdiv (sn_tokensInUse s) (sn_tokenCount s)"

text \<open>\<open>runAgentOptimizer\<close>: the snapshot taken at new statistics, and the averages of a period.\<close>

definition take_snapshot :: "agent \<Rightarrow> CpuStats \<Rightarrow> snapshot" where
  "take_snapshot ag s =
     \<lparr>sn_wallTime = cs_WallTime s, sn_tokenCount = int (ag_available ag) + int (ag_locked ag),
      sn_tokensInUse = int (ag_locked ag), sn_stats = s\<rparr>"

fun factor_sums :: "snapshot \<Rightarrow> snapshot list \<Rightarrow> go_float \<times> go_float \<times> go_float \<Rightarrow> go_float \<times> go_float \<times> go_float" where
  "factor_sums prev [] acc = acc"
| "factor_sums prev (s # ss) (usage, throttling, tokens) =
     factor_sums s ss (fadd usage (UsageFactor s prev), fadd throttling (ThrottlingFactor s prev), fadd tokens (TokenUsage s))"

definition agent_factors :: "snapshot list \<Rightarrow> go_float \<times> go_float \<times> go_float" where
  "agent_factors snapshots =
     (let n = Fin (of_int (int (length snapshots) - 1));
          (usage, throttling, tokens) =
            (case snapshots of [] \<Rightarrow> (Fin 0, Fin 0, Fin 0) | s # ss \<Rightarrow> factor_sums s ss (Fin 0, Fin 0, Fin 0))
      in (fquot usage n, fquot throttling n, fquot tokens n))"

section \<open>State of the server\<close>

datatype side = Agents | Consumerds

datatype sched_metric =
    M_PreferredUsageLimits "int option"   \<comment> \<open>\<open>None\<close>: the conversion of a value that is no int64\<close>
  | M_AgentCount int
  | M_ConsumerdCount int
  | M_TasksCompletedTotal int
  | M_TasksFailedTotal int
  | M_SchedulingRequestsTotal int
  | M_AgentTasksTotal string int
  | M_ConsumerdTasksTotal string int

datatype sched_action =
    Connect_Agent string "Toolchain list option" nat
  | Connect_Consumerd string "Toolchain list option"
  | Count_Inc side
  | Cond_Cancel side
  | Post_Limits
  | Post_ConsumerdCount
  | Wait_Done
  | Count_Dec side
  | Cond_Apply side
  | Cancel_Set side nat       \<comment> \<open>the assignment of the cancel function of a new condition\<close>

record schedulerServer =
  ss_broker :: Broker
  ss_status :: StatusController
  ss_count :: "side \<Rightarrow> int"
  ss_cancel :: "side \<Rightarrow> nat"     \<comment> \<open>the context that the stored function cancels\<close>
  ss_nextCtx :: nat
  ss_optimizer :: Optimizer
  ss_multiplier :: go_float
  ss_handlers :: "sched_action list list"
  ss_posted :: "sched_metric list"

definition no_cond :: "side \<Rightarrow> activeCondition" where
  "no_cond d =
     \<lparr>ac_condition = MissingOptionalComponent,
      ac_msgs = [case d of Agents \<Rightarrow> ''No agents connected'' | Consumerds \<Rightarrow> ''No consumerds connected'']\<rparr>"

text \<open>\<open>applyNoAgentsCond\<close> and \<open>applyNoCdsCond\<close> up to the assignment of the cancel function.\<close>

definition applyNoCond :: "side \<Rightarrow> schedulerServer \<Rightarrow> nat \<times> schedulerServer" where
  "applyNoCond d s =
     (ss_nextCtx s,
      s\<lparr>ss_nextCtx := ss_nextCtx s + 1,
        ss_status := ApplyCondition (ss_nextCtx s) (ac_condition (no_cond d)) (ac_msgs (no_cond d)) (ss_status s)\<rparr>)"

definition set_cancel :: "side \<Rightarrow> nat \<Rightarrow> schedulerServer \<Rightarrow> schedulerServer" where
  "set_cancel d c s = s\<lparr>ss_cancel := (ss_cancel s)(d := c)\<rparr>"

definition NewSchedulerServer :: "bool \<Rightarrow> schedulerServer" where
  "NewSchedulerServer hasCache =
     (let s0 = \<lparr>ss_broker = NewBroker hasCache, ss_status = BeginInitialize 0, ss_count = (\<lambda>_. 0), ss_cancel = (\<lambda>_. 0),
                ss_nextCtx = 1, ss_optimizer = NewOptimizer, ss_multiplier = Fin 0, ss_handlers = [], ss_posted = []\<rparr>;
          (c1, s1) = applyNoCond Agents s0;
          (c2, s2) = applyNoCond Consumerds (set_cancel Agents c1 s1);
          s3 = set_cancel Consumerds c2 s2
      in s3\<lparr>ss_status := EndInitialize (ss_status s3)\<rparr>)"

section \<open>Metrics\<close>

definition sched_Post :: "sched_metric list \<Rightarrow> schedulerServer \<Rightarrow> schedulerServer" where
  "sched_Post ms s = s\<lparr>ss_posted := ss_posted s @ ms\<rparr>"

definition postPreferredUsageLimits :: "schedulerServer \<Rightarrow> schedulerServer" where
  "postPreferredUsageLimits s =
     sched_Post [M_PreferredUsageLimits (to_int64 (math_Round
       (fmul (Fin (of_int (calcPreferredUsageLimits (ss_broker s)))) (ss_multiplier s))))] s"

definition postCounts :: "schedulerServer \<Rightarrow> schedulerServer" where
  "postCounts s = sched_Post [M_AgentCount (ss_count s Agents), M_ConsumerdCount (ss_count s Consumerds)] s"

definition postTotals :: "schedulerServer \<Rightarrow> schedulerServer" where
  "postTotals s =
     (let stats = TaskStats (ss_broker s)
      in sched_Post [M_TasksCompletedTotal (ts_completedTotal stats), M_TasksFailedTotal (ts_failedTotal stats),
           M_SchedulingRequestsTotal (ts_requestsTotal stats)] s)"

definition postAgentStats :: "schedulerServer \<Rightarrow> schedulerServer" where
  "postAgentStats s = sched_Post (map (\<lambda>(u, n). M_AgentTasksTotal u n) (CalcAgentStats (ss_broker s))) s"

definition postConsumerdStats :: "schedulerServer \<Rightarrow> schedulerServer" where
  "postConsumerdStats s = sched_Post (map (\<lambda>(u, n). M_ConsumerdTasksTotal u n) (CalcConsumerdStats (ss_broker s))) s"

text \<open>\<open>StartMetricsProvider\<close>: the goroutine that takes a multiplier, and a tick of the periodic posts.\<close>

definition take_multiplier :: "schedulerServer \<Rightarrow> schedulerServer option" where
  "take_multiplier s =
     map_option (\<lambda>(v, opt). s\<lparr>ss_multiplier := v, ss_optimizer := opt\<rparr>) (UsageLimitMultiplierChanged (ss_optimizer s))"

definition metrics_tick :: "schedulerServer \<Rightarrow> schedulerServer" where
  "metrics_tick s = postConsumerdStats (postAgentStats (postTotals (postCounts (postPreferredUsageLimits s))))"

definition sched_GetRoutes :: "schedulerServer \<Rightarrow> RouteInfo list" where
  "sched_GetRoutes s = GetRoutes (b_router (ss_broker s))"

section \<open>Handlers\<close>

text \<open>An error of the broker is logged, and the stream counts all the same.\<close>

definition StreamIncomingTasks ::
    "go_error option \<Rightarrow> string \<Rightarrow> Toolchain list option \<Rightarrow> nat \<Rightarrow> go_error + sched_action list" where
  "StreamIncomingTasks metaErr uuid tcs cpuThreads =
     (case metaErr of
        Some e \<Rightarrow> Inl e
      | None \<Rightarrow> Inr [Connect_Agent uuid tcs cpuThreads, Count_Inc Agents, Post_Limits, Wait_Done, Post_Limits, Count_Dec Agents])"

definition StreamOutgoingTasks :: "go_error option \<Rightarrow> string \<Rightarrow> Toolchain list option \<Rightarrow> go_error + sched_action list" where
  "StreamOutgoingTasks metaErr uuid tcs =
     (case metaErr of
        Some e \<Rightarrow> Inl e
      | None \<Rightarrow> Inr [Connect_Consumerd uuid tcs, Count_Inc Consumerds, Post_ConsumerdCount, Wait_Done,
                   Count_Dec Consumerds, Post_ConsumerdCount])"

text \<open>One action of a handler, and the actions it puts before the remaining ones.\<close>

fun do_action :: "(bytes \<Rightarrow> bytes) \<Rightarrow> sched_action \<Rightarrow> schedulerServer \<Rightarrow> sched_action list \<times> schedulerServer" where
  "do_action md5 (Connect_Agent u tcs n) s = ([], s\<lparr>ss_broker := snd (NewAgentTaskStream md5 u tcs n (ss_broker s))\<rparr>)"
| "do_action md5 (Connect_Consumerd u tcs) s = ([], s\<lparr>ss_broker := snd (NewConsumerdTaskStream md5 u tcs (ss_broker s))\<rparr>)"
| "do_action md5 (Count_Inc d) s =
     (let n = ss_count s d + 1
      in (if n = 1 then [Cond_Cancel d] else [], s\<lparr>ss_count := (ss_count s)(d := n)\<rparr>))"
| "do_action md5 (Cond_Cancel d) s = ([], s\<lparr>ss_status := ClearCondition (ss_cancel s d) (ss_status s)\<rparr>)"
| "do_action md5 Post_Limits s = ([], postPreferredUsageLimits s)"
| "do_action md5 Post_ConsumerdCount s = ([], sched_Post [M_ConsumerdCount (ss_count s Consumerds)] s)"
| "do_action md5 Wait_Done s = ([], s)"
| "do_action md5 (Count_Dec d) s =
     (let n = ss_count s d - 1
      in (if n = 0 then [Cond_Apply d] else [], s\<lparr>ss_count := (ss_count s)(d := n)\<rparr>))"
| "do_action md5 (Cond_Apply d) s = (let (c, s') = applyNoCond d s in ([Cancel_Set d c], s'))"
| "do_action md5 (Cancel_Set d c) s = ([], set_cancel d c s)"

text \<open>The identities of connections are generated by the clients and differ.\<close>

fun fresh_identity :: "sched_action \<Rightarrow> Broker \<Rightarrow> bool" where
  "fresh_identity (Connect_Agent u tcs n) b = (u \<notin> fst ` set (b_agents b))"
| "fresh_identity (Connect_Consumerd u tcs) b = (u \<notin> fst ` set (b_consumerds b))"
| "fresh_identity _ b = True"

definition run_handler :: "(bytes \<Rightarrow> bytes) \<Rightarrow> nat \<Rightarrow> schedulerServer \<Rightarrow> schedulerServer option" where
  "run_handler md5 i s =
     (if i < length (ss_handlers s)
      then (case ss_handlers s ! i of
              [] \<Rightarrow> None
            | a # rest \<Rightarrow>
                if fresh_identity a (ss_broker s)
                then (let (pre, s') = do_action md5 a s in Some (s'\<lparr>ss_handlers := (ss_handlers s)[i := pre @ rest]\<rparr>))
                else None)
      else None)"

section \<open>Runs\<close>

datatype sched_event =
    SS_Incoming "go_error option" string "Toolchain list option" nat
  | SS_Outgoing "go_error option" string "Toolchain list option"
  | SS_Run nat
  | SS_Broker broker_event
  | SS_CacheHits "go_float option"
  | SS_Multiplier
  | SS_Tick

definition start_handler :: "go_error + sched_action list \<Rightarrow> schedulerServer \<Rightarrow> schedulerServer" where
  "start_handler r s = (case r of Inl _ \<Rightarrow> s | Inr h \<Rightarrow> s\<lparr>ss_handlers := ss_handlers s @ [h]\<rparr>)"

text \<open>The connections of the broker are those of the handlers.\<close>

fun is_connection :: "broker_event \<Rightarrow> bool" where
  "is_connection (B_NewAgent _ _ _) = True"
| "is_connection (B_NewConsumerd _ _) = True"
| "is_connection _ = False"

fun sched_step :: "(bytes \<Rightarrow> bytes) \<Rightarrow> sched_event \<Rightarrow> schedulerServer \<Rightarrow> schedulerServer option" where
  "sched_step md5 (SS_Incoming e u tcs n) s = Some (start_handler (StreamIncomingTasks e u tcs n) s)"
| "sched_step md5 (SS_Outgoing e u tcs) s = Some (start_handler (StreamOutgoingTasks e u tcs) s)"
| "sched_step md5 (SS_Run i) s = run_handler md5 i s"
| "sched_step md5 (SS_Broker ev) s =
     (if is_connection ev then None else map_option (\<lambda>b. s\<lparr>ss_broker := b\<rparr>) (broker_step md5 ev (ss_broker s)))"
| "sched_step md5 (SS_CacheHits p) s = Some (s\<lparr>ss_optimizer := runCacheOptimizer p (ss_optimizer s)\<rparr>)"
| "sched_step md5 SS_Multiplier s = take_multiplier s"
| "sched_step md5 SS_Tick s = Some (metrics_tick s)"

abbreviation sched_run :: "(bytes \<Rightarrow> bytes) \<Rightarrow> sched_event list \<Rightarrow> schedulerServer \<Rightarrow> schedulerServer option" where
  "sched_run md5 \<equiv> run_events (sched_step md5)"

inductive ss_reachable :: "(bytes \<Rightarrow> bytes) \<Rightarrow> schedulerServer \<Rightarrow> bool" for md5 where
  ss_init: "ss_reachable md5 (NewSchedulerServer hasCache)"
| ss_step: "ss_reachable md5 s \<Longrightarrow> sched_step md5 ev s = Some s' \<Longrightarrow> ss_reachable md5 s'"

interpretation sched_sys: transition_system "sched_step md5" "\<lambda>s. \<exists>hasCache. s = NewSchedulerServer hasCache" "ss_reachable md5" for md5
proof (unfold_locales, goal_cases)
  case (3 s P)
  then show ?case by (induction rule: ss_reachable.induct) blast+
qed (auto intro: ss_init ss_step)

lemmas sched_run_reachable = sched_sys.run_reach

section \<open>The broker under the server\<close>

lemma broker_reachable_step:
  "b_reachable md5 b \<Longrightarrow> broker_step md5 ev b = Some b' \<Longrightarrow> b_reachable md5 b'"
  by (rule b_reachable.intros)

lemma posts_broker [simp]:
  "ss_broker (sched_Post ms s) = ss_broker s"
  "ss_broker (postPreferredUsageLimits s) = ss_broker s"
  "ss_broker (metrics_tick s) = ss_broker s"
  by (simp_all add: sched_Post_def postPreferredUsageLimits_def metrics_tick_def postConsumerdStats_def postAgentStats_def
      postTotals_def postCounts_def Let_def)

lemma do_action_broker:
  assumes "fresh_identity a (ss_broker s)"
  shows "ss_broker (snd (do_action md5 a s)) = ss_broker s \<or> (\<exists>ev. broker_step md5 ev (ss_broker s) = Some (ss_broker (snd (do_action md5 a s))))"
proof (cases a)
  case (Connect_Agent u tcs n)
  with assms have "broker_step md5 (B_NewAgent u tcs n) (ss_broker s) = Some (ss_broker (snd (do_action md5 a s)))" by simp
  then show ?thesis by blast
next
  case (Connect_Consumerd u tcs)
  with assms have "broker_step md5 (B_NewConsumerd u tcs) (ss_broker s) = Some (ss_broker (snd (do_action md5 a s)))" by simp
  then show ?thesis by blast
qed (simp_all add: Let_def applyNoCond_def set_cancel_def)

lemma run_handler_cases:
  assumes "run_handler md5 i s = Some s'"
  obtains a rest pre t where "i < length (ss_handlers s)" "ss_handlers s ! i = a # rest" "fresh_identity a (ss_broker s)"
    "do_action md5 a s = (pre, t)" "s' = t\<lparr>ss_handlers := (ss_handlers s)[i := pre @ rest]\<rparr>"
  using assms by (auto simp: run_handler_def split: if_splits list.splits prod.splits)

lemma server_broker_reachable: "ss_reachable md5 s \<Longrightarrow> b_reachable md5 (ss_broker s)"
proof (induction rule: ss_reachable.induct)
  case (ss_init hasCache)
  show ?case by (simp add: NewSchedulerServer_def Let_def applyNoCond_def set_cancel_def b_reachable.intros)
next
  case (ss_step s ev s')
  show ?case
  proof (cases ev)
    case (SS_Run i)
    with ss_step.hyps(2) have "run_handler md5 i s = Some s'" by simp
    then show ?thesis
    proof (rule run_handler_cases)
      fix a rest pre t
      assume "fresh_identity a (ss_broker s)" "do_action md5 a s = (pre, t)" "s' = t\<lparr>ss_handlers := (ss_handlers s)[i := pre @ rest]\<rparr>"
      with do_action_broker [of a s md5] ss_step.IH show ?thesis by (auto intro: broker_reachable_step)
    qed
  qed (use ss_step in \<open>auto simp: start_handler_def take_multiplier_def intro: broker_reachable_step split: sum.splits if_splits\<close>)
qed

section \<open>Counts and conditions\<close>

definition live :: "side \<Rightarrow> sched_action list \<Rightarrow> bool" where
  "live d h = (Count_Dec d \<in> set h \<and> Count_Inc d \<notin> set h)"

fun handler_ok :: "sched_action list \<Rightarrow> bool" where
  "handler_ok [] = True"
| "handler_ok (Count_Inc d # r) = (handler_ok r \<and> Count_Dec d \<in> set r \<and> Count_Inc d \<notin> set r)"
| "handler_ok (Cond_Cancel d # r) = (handler_ok r \<and> Count_Dec d \<in> set r \<and> Count_Inc d \<notin> set r)"
| "handler_ok (Count_Dec d # r) = (handler_ok r \<and> Count_Dec d \<notin> set r \<and> Count_Inc d \<notin> set r)"
| "handler_ok (a # r) = handler_ok r"

abbreviation sched_conditions :: "schedulerServer \<Rightarrow> nat \<rightharpoonup> activeCondition" where
  "sched_conditions s \<equiv> map_of (sc_conditions (ss_status s))"

text \<open>A context that only a condition of one side can have.\<close>

definition ctx_of :: "side \<Rightarrow> nat \<Rightarrow> schedulerServer \<Rightarrow> bool" where
  "ctx_of d c s = (c < ss_nextCtx s \<and> (\<forall>d'. sched_conditions s c = Some (no_cond d') \<longrightarrow> d' = d))"

definition sched_inv :: "schedulerServer \<Rightarrow> bool" where
  "sched_inv s \<longleftrightarrow>
     (\<forall>d. ss_count s d = int (length (filter (live d) (ss_handlers s)))) \<and>
     (\<forall>h\<in>set (ss_handlers s). handler_ok h) \<and>
     (\<forall>c v. sched_conditions s c = Some v \<longrightarrow> c < ss_nextCtx s) \<and>
     (\<forall>d. ctx_of d (ss_cancel s d) s) \<and>
     (\<forall>h d c. h \<in> set (ss_handlers s) \<longrightarrow> Cancel_Set d c \<in> set h \<longrightarrow> ctx_of d c s) \<and>
     (\<forall>d. ss_count s d = 0 \<longrightarrow> (\<forall>h\<in>set (ss_handlers s). Cond_Apply d \<notin> set h) \<longrightarrow> (\<exists>c. sched_conditions s c = Some (no_cond d)))"

lemma no_cond_eq [simp]: "no_cond d = no_cond d' \<longleftrightarrow> d = d'"
  by (cases d; cases d') (simp_all add: no_cond_def)

lemma length_filter_update:
  "i < length xs \<Longrightarrow> length (filter P (xs[i := y])) + (if P (xs ! i) then 1 else 0) = length (filter P xs) + (if P y then 1 else 0)"
proof (induction xs arbitrary: i)
  case (Cons x xs)
  then show ?case by (cases i) auto
qed simp

lemma sched_inv_init: "sched_inv (NewSchedulerServer hasCache)"
proof -
  let ?s = "NewSchedulerServer hasCache"
  have c: "sched_conditions ?s = [1 \<mapsto> no_cond Agents, 2 \<mapsto> no_cond Consumerds]" "ss_handlers ?s = []" "ss_count ?s = (\<lambda>_. 0)"
    "ss_cancel ?s = (\<lambda>_. 0)(Agents := 1, Consumerds := 2)" "ss_nextCtx ?s = 3"
    by (auto simp: NewSchedulerServer_def Let_def applyNoCond_def set_cancel_def BeginInitialize_def EndInitialize_def
        ApplyCondition_def ClearCondition_def no_cond_def fun_eq_iff)
  have "\<exists>c. sched_conditions ?s c = Some (no_cond d)" for d
    unfolding c(1) by (cases d) (rule exI [of _ 1], simp, rule exI [of _ 2], simp)
  moreover have "ctx_of d (ss_cancel ?s d) ?s" for d
    unfolding ctx_of_def c by (cases d) auto
  ultimately show ?thesis unfolding sched_inv_def using c by (auto split: if_splits)
qed

text \<open>What an action of a handler changes.\<close>

definition same_conds :: "schedulerServer \<Rightarrow> schedulerServer \<Rightarrow> bool" where
  "same_conds s t \<longleftrightarrow> ss_count t = ss_count s \<and> ss_cancel t = ss_cancel s \<and> ss_nextCtx t = ss_nextCtx s \<and>
     sc_conditions (ss_status t) = sc_conditions (ss_status s) \<and> ss_handlers t = ss_handlers s"

lemma sched_inv_cong: "same_conds s t \<Longrightarrow> sched_inv s \<Longrightarrow> sched_inv t"
  by (simp add: same_conds_def sched_inv_def ctx_of_def)

lemma sched_Post_same [simp]: "same_conds s (sched_Post ms s)"
  by (simp add: same_conds_def sched_Post_def)

lemma same_conds_trans: "same_conds s t \<Longrightarrow> same_conds t u \<Longrightarrow> same_conds s u"
  by (simp add: same_conds_def)

lemma metrics_tick_same: "same_conds s (metrics_tick s)"
  unfolding metrics_tick_def postConsumerdStats_def postAgentStats_def postTotals_def postCounts_def postPreferredUsageLimits_def Let_def
  by (intro same_conds_trans [OF _ sched_Post_same]) (simp add: same_conds_def)

lemma start_handler_inv:
  assumes "sched_inv s" and "\<And>h. r = Inr h \<Longrightarrow> handler_ok h \<and> (\<forall>d c. \<not> live d h \<and> Cancel_Set d c \<notin> set h \<and> Cond_Apply d \<notin> set h)"
  shows "sched_inv (start_handler r s)"
  using assms by (auto simp: start_handler_def sched_inv_def ctx_of_def split: sum.splits)

text \<open>Replacing the handler that acts.\<close>

lemma update_mem:
  "h \<in> set (xs[i := y]) \<Longrightarrow> h = y \<or> h \<in> set xs"
  "i < length xs \<Longrightarrow> h \<in> set xs \<Longrightarrow> h = xs ! i \<or> h \<in> set (xs[i := y])"
  "i < length xs \<Longrightarrow> y \<in> set (xs[i := y])"
proof -
  show "h \<in> set (xs[i := y]) \<Longrightarrow> h = y \<or> h \<in> set xs" using set_update_subset_insert [of xs i y] by blast
  show "h = xs ! i \<or> h \<in> set (xs[i := y])" if "i < length xs" "h \<in> set xs"
  proof -
    from that(2) obtain k where "k < length xs" "h = xs ! k" by (auto simp: in_set_conv_nth)
    then show ?thesis by (cases "k = i") (auto simp: in_set_conv_nth intro!: exI [of _ k])
  qed
  show "i < length xs \<Longrightarrow> y \<in> set (xs[i := y])" by (rule set_update_memI)
qed

lemma ctx_of_handlers [simp]: "ctx_of d c (t\<lparr>ss_handlers := hs\<rparr>) = ctx_of d c t"
  by (simp add: ctx_of_def)

lemma replace_handler:
  assumes inv: "sched_inv s" and i: "i < length (ss_handlers s)" and h: "ss_handlers s ! i = a # rest"
    and ok: "handler_ok y" and n: "ss_nextCtx s \<le> ss_nextCtx t"
    and cnt: "\<And>d. ss_count t d = ss_count s d + (if live d y then 1 else 0) - (if live d (a # rest) then 1 else 0)"
    and keys: "\<And>c v. sched_conditions t c = Some v \<Longrightarrow> c < ss_nextCtx t"
    and owner: "\<And>d c. ctx_of d c s \<Longrightarrow> ctx_of d c t"
    and cancel: "\<And>d. ctx_of d (ss_cancel t d) t"
    and sets: "\<And>d c. Cancel_Set d c \<in> set y \<Longrightarrow> Cancel_Set d c \<in> set rest \<or> ctx_of d c t"
    and active: "\<And>d. ss_count t d = 0 \<Longrightarrow> Cond_Apply d \<notin> set y \<Longrightarrow>
      Cond_Apply d \<notin> set (a # rest) \<and> ss_count s d = 0 \<and> (\<forall>c. sched_conditions s c = Some (no_cond d) \<longrightarrow> sched_conditions t c = Some (no_cond d)) \<or>
      (\<exists>c. sched_conditions t c = Some (no_cond d))"
  shows "sched_inv (t\<lparr>ss_handlers := (ss_handlers s)[i := y]\<rparr>)"
proof -
  let ?xs = "ss_handlers s" and ?ys = "(ss_handlers s)[i := y]"
  have "ss_count t d = int (length (filter (live d) ?ys))" for d
    using length_filter_update [OF i, of "live d" y] inv cnt [of d] h unfolding sched_inv_def by (simp split: if_splits)
  moreover have "\<forall>h\<in>set ?ys. handler_ok h" using inv ok update_mem(1) unfolding sched_inv_def by metis
  moreover have "ctx_of d c t" if "h \<in> set ?ys" "Cancel_Set d c \<in> set h" for h d c
  proof (cases "h = y")
    case True
    have "a # rest \<in> set ?xs" using i h nth_mem by metis
    then have "Cancel_Set d c \<in> set rest \<Longrightarrow> ctx_of d c s" using inv unfolding sched_inv_def by auto
    with sets [of d c] that(2) True owner show ?thesis by blast
  next
    case False
    with that update_mem(1) have "ctx_of d c s" using inv unfolding sched_inv_def by metis
    then show ?thesis by (rule owner)
  qed
  moreover have "\<exists>c. sched_conditions t c = Some (no_cond d)" if "ss_count t d = 0" and no: "\<forall>h\<in>set ?ys. Cond_Apply d \<notin> set h" for d
  proof -
    have "Cond_Apply d \<notin> set y" using no update_mem(3) [OF i] by blast
    from active [OF that(1) this] show ?thesis
    proof
      assume l: "Cond_Apply d \<notin> set (a # rest) \<and> ss_count s d = 0 \<and>
        (\<forall>c. sched_conditions s c = Some (no_cond d) \<longrightarrow> sched_conditions t c = Some (no_cond d))"
      then have "\<forall>h\<in>set ?xs. Cond_Apply d \<notin> set h" using no update_mem(2) [OF i, of _ y] h by metis
      with inv l show ?thesis unfolding sched_inv_def by metis
    qed
  qed
  ultimately show ?thesis using keys cancel unfolding sched_inv_def by simp
qed

fun neutral :: "sched_action \<Rightarrow> bool" where
  "neutral (Count_Inc d) = False"
| "neutral (Count_Dec d) = False"
| "neutral (Cond_Cancel d) = False"
| "neutral (Cond_Apply d) = False"
| "neutral (Cancel_Set d c) = False"
| "neutral a = True"

lemma do_action_neutral:
  assumes "neutral a" and "do_action md5 a s = (pre, t)"
  shows "pre = [] \<and> same_conds s t"
  using assms sched_Post_same [of s] by (cases a) (auto simp: same_conds_def postPreferredUsageLimits_def sched_Post_def)

lemma neutral_handler:
  assumes "sched_inv s" and "i < length (ss_handlers s)" and "ss_handlers s ! i = a # rest" and "same_conds s t" and "neutral a"
  shows "sched_inv (t\<lparr>ss_handlers := (ss_handlers s)[i := rest]\<rparr>)"
proof (rule replace_handler [OF assms(1-3)])
  have ok: "handler_ok (a # rest)" using assms(1-3) nth_mem unfolding sched_inv_def by metis
  then show "handler_ok rest" by (cases a) auto
qed (use assms in \<open>auto simp: same_conds_def sched_inv_def ctx_of_def live_def\<close>)

lemma inc_handler:
  assumes inv: "sched_inv s" and i: "i < length (ss_handlers s)" and h: "ss_handlers s ! i = Count_Inc d # rest"
    and "do_action md5 (Count_Inc d) s = (pre, t)"
  shows "sched_inv (t\<lparr>ss_handlers := (ss_handlers s)[i := pre @ rest]\<rparr>)"
proof (rule replace_handler [OF inv i h])
  have ok: "handler_ok (Count_Inc d # rest)" using inv i h nth_mem unfolding sched_inv_def by metis
  have t: "t = s\<lparr>ss_count := (ss_count s)(d := ss_count s d + 1)\<rparr>" "pre = (if ss_count s d = 0 then [Cond_Cancel d] else [])"
    using assms(4) by (auto simp: Let_def)
  show "handler_ok (pre @ rest)" using ok t by auto
  show "ss_count t e = ss_count s e + (if live e (pre @ rest) then 1 else 0) - (if live e (Count_Inc d # rest) then 1 else 0)" for e
    using ok t by (auto simp: live_def)
  have nonneg: "ss_count s d \<ge> 0" using inv unfolding sched_inv_def by simp
  show "Cond_Apply e \<notin> set (Count_Inc d # rest) \<and> ss_count s e = 0 \<and>
      (\<forall>c. sched_conditions s c = Some (no_cond e) \<longrightarrow> sched_conditions t c = Some (no_cond e)) \<or> (\<exists>c. sched_conditions t c = Some (no_cond e))"
    if "ss_count t e = 0" "Cond_Apply e \<notin> set (pre @ rest)" for e
    using that t nonneg by (auto split: if_splits)
qed (use assms in \<open>auto simp: sched_inv_def ctx_of_def Let_def split: if_splits\<close>)

lemma dec_handler:
  assumes inv: "sched_inv s" and i: "i < length (ss_handlers s)" and h: "ss_handlers s ! i = Count_Dec d # rest"
    and "do_action md5 (Count_Dec d) s = (pre, t)"
  shows "sched_inv (t\<lparr>ss_handlers := (ss_handlers s)[i := pre @ rest]\<rparr>)"
proof (rule replace_handler [OF inv i h])
  have ok: "handler_ok (Count_Dec d # rest)" using inv i h nth_mem unfolding sched_inv_def by metis
  have t: "t = s\<lparr>ss_count := (ss_count s)(d := ss_count s d - 1)\<rparr>" "pre = (if ss_count s d = 1 then [Cond_Apply d] else [])"
    using assms(4) by (auto simp: Let_def)
  show "handler_ok (pre @ rest)" using ok t by auto
  show "ss_count t e = ss_count s e + (if live e (pre @ rest) then 1 else 0) - (if live e (Count_Dec d # rest) then 1 else 0)" for e
    using ok t by (auto simp: live_def)
  show "Cond_Apply e \<notin> set (Count_Dec d # rest) \<and> ss_count s e = 0 \<and>
      (\<forall>c. sched_conditions s c = Some (no_cond e) \<longrightarrow> sched_conditions t c = Some (no_cond e)) \<or> (\<exists>c. sched_conditions t c = Some (no_cond e))"
    if "ss_count t e = 0" "Cond_Apply e \<notin> set (pre @ rest)" for e
    using that t by (auto split: if_splits)
qed (use assms in \<open>auto simp: sched_inv_def ctx_of_def Let_def split: if_splits\<close>)

lemma cancel_handler:
  assumes inv: "sched_inv s" and i: "i < length (ss_handlers s)" and h: "ss_handlers s ! i = Cond_Cancel d # rest"
  shows "sched_inv (s\<lparr>ss_status := ClearCondition (ss_cancel s d) (ss_status s), ss_handlers := (ss_handlers s)[i := rest]\<rparr>)"
    (is "sched_inv (?t\<lparr>ss_handlers := _\<rparr>)")
proof (rule replace_handler [OF inv i h])
  have hd: "Cond_Cancel d # rest \<in> set (ss_handlers s)" using i h nth_mem by metis
  then have ok: "handler_ok (Cond_Cancel d # rest)" using inv unfolding sched_inv_def by metis
  then have lv: "live d (Cond_Cancel d # rest)" by (auto simp: live_def)
  have "filter (live d) (ss_handlers s) \<noteq> []" using hd lv by (auto simp: filter_empty_conv)
  then have pos: "ss_count s d > 0" using inv unfolding sched_inv_def by simp
  have c: "sched_conditions ?t = (sched_conditions s)(ss_cancel s d := None)" by (simp add: ClearCondition_def delete_conv')
  have own: "ctx_of d (ss_cancel s d) s" using inv unfolding sched_inv_def by blast
  show "handler_ok rest" using ok by simp
  show "Cond_Apply e \<notin> set (Cond_Cancel d # rest) \<and> ss_count s e = 0 \<and>
      (\<forall>c. sched_conditions s c = Some (no_cond e) \<longrightarrow> sched_conditions ?t c = Some (no_cond e)) \<or> (\<exists>c. sched_conditions ?t c = Some (no_cond e))"
    if "ss_count ?t e = 0" "Cond_Apply e \<notin> set rest" for e
    using that pos own unfolding c ctx_of_def by auto
  show "ctx_of e k ?t" if "ctx_of e k s" for e k using that unfolding ctx_of_def c by auto
  then show "ctx_of e (ss_cancel ?t e) ?t" for e using inv unfolding sched_inv_def by simp
  show "k < ss_nextCtx ?t" if "sched_conditions ?t k = Some v" for k v
    using that inv unfolding c sched_inv_def by (auto split: if_splits)
qed (auto simp: live_def)

lemma apply_handler:
  assumes inv: "sched_inv s" and i: "i < length (ss_handlers s)" and h: "ss_handlers s ! i = Cond_Apply d # rest"
    and "do_action md5 (Cond_Apply d) s = (pre, t)"
  shows "sched_inv (t\<lparr>ss_handlers := (ss_handlers s)[i := pre @ rest]\<rparr>)"
proof (rule replace_handler [OF inv i h])
  have hd: "Cond_Apply d # rest \<in> set (ss_handlers s)" using i h nth_mem by metis
  then have ok: "handler_ok (Cond_Apply d # rest)" using inv unfolding sched_inv_def by metis
  have t: "pre = [Cancel_Set d (ss_nextCtx s)]" "ss_count t = ss_count s" "ss_cancel t = ss_cancel s" "ss_nextCtx t = ss_nextCtx s + 1"
    and c: "sched_conditions t = (sched_conditions s)(ss_nextCtx s \<mapsto> no_cond d)"
    using assms(4) by (auto simp: applyNoCond_def ApplyCondition_def update_conv' no_cond_def)
  have new: "sched_conditions s (ss_nextCtx s) = None"
    using inv unfolding sched_inv_def by (cases "sched_conditions s (ss_nextCtx s)") auto
  show "handler_ok (pre @ rest)" "ss_nextCtx s \<le> ss_nextCtx t" using ok t by simp_all
  show "ss_count t e = ss_count s e + (if live e (pre @ rest) then 1 else 0) - (if live e (Cond_Apply d # rest) then 1 else 0)" for e
    using t by (auto simp: live_def)
  show own: "ctx_of e k t" if "ctx_of e k s" for e k using that unfolding ctx_of_def c t by auto
  then show "ctx_of e (ss_cancel t e) t" for e using inv unfolding sched_inv_def t by simp
  show "k < ss_nextCtx t" if "sched_conditions t k = Some v" for k v
    using that inv unfolding c t sched_inv_def by (auto split: if_splits dest: less_SucI)
  show "Cancel_Set e k \<in> set rest \<or> ctx_of e k t" if "Cancel_Set e k \<in> set (pre @ rest)" for e k
    using that unfolding ctx_of_def c t by auto
  show "Cond_Apply e \<notin> set (Cond_Apply d # rest) \<and> ss_count s e = 0 \<and>
      (\<forall>k. sched_conditions s k = Some (no_cond e) \<longrightarrow> sched_conditions t k = Some (no_cond e)) \<or> (\<exists>k. sched_conditions t k = Some (no_cond e))"
    if "ss_count t e = 0" "Cond_Apply e \<notin> set (pre @ rest)" for e
    using that new unfolding c t by (cases "e = d") auto
qed

lemma set_handler:
  assumes inv: "sched_inv s" and i: "i < length (ss_handlers s)" and h: "ss_handlers s ! i = Cancel_Set d k # rest"
  shows "sched_inv ((set_cancel d k s)\<lparr>ss_handlers := (ss_handlers s)[i := rest]\<rparr>)"
proof (rule replace_handler [OF inv i h])
  have hd: "Cancel_Set d k # rest \<in> set (ss_handlers s)" using i h nth_mem by metis
  then have "handler_ok (Cancel_Set d k # rest)" using inv unfolding sched_inv_def by metis
  then show "handler_ok rest" by simp
  have "ctx_of d k s" using hd inv unfolding sched_inv_def by auto
  then show "ctx_of e (ss_cancel (set_cancel d k s) e) (set_cancel d k s)" for e
    using inv unfolding sched_inv_def ctx_of_def set_cancel_def by auto
  show "n < ss_nextCtx (set_cancel d k s)" if "sched_conditions (set_cancel d k s) n = Some v" for n v
    using that inv unfolding sched_inv_def set_cancel_def by simp
qed (auto simp: live_def set_cancel_def ctx_of_def)

lemma run_handler_inv:
  assumes "sched_inv s" and "run_handler md5 i s = Some s'"
  shows "sched_inv s'"
  using assms(2)
proof (rule run_handler_cases)
  fix a rest pre t
  assume i: "i < length (ss_handlers s)" "ss_handlers s ! i = a # rest" and d: "do_action md5 a s = (pre, t)"
    and s': "s' = t\<lparr>ss_handlers := (ss_handlers s)[i := pre @ rest]\<rparr>"
  show ?thesis
  proof (cases a)
    case (Count_Inc e)
    show ?thesis unfolding s' using i(2) d unfolding Count_Inc by (rule inc_handler [OF assms(1) i(1)])
  next
    case (Count_Dec e)
    show ?thesis unfolding s' using i(2) d unfolding Count_Dec by (rule dec_handler [OF assms(1) i(1)])
  next
    case (Cond_Cancel e)
    with cancel_handler [OF assms(1) i(1)] i d s' show ?thesis by auto
  next
    case (Cond_Apply e)
    show ?thesis unfolding s' using i(2) d unfolding Cond_Apply by (rule apply_handler [OF assms(1) i(1)])
  next
    case (Cancel_Set e k)
    with set_handler [OF assms(1) i(1)] i d s' show ?thesis by auto
  qed (use neutral_handler [OF assms(1) i] do_action_neutral [OF _ d] s' in auto)
qed

lemma sched_reachable_inv: "ss_reachable md5 s \<Longrightarrow> sched_inv s"
proof (induction rule: ss_reachable.induct)
  case (ss_step s ev s')
  show ?case
  proof (cases ev)
    case (SS_Incoming e u tcs n)
    with ss_step show ?thesis
      by (auto intro!: start_handler_inv simp: StreamIncomingTasks_def live_def split: option.splits)
  next
    case (SS_Outgoing e u tcs)
    with ss_step show ?thesis
      by (auto intro!: start_handler_inv simp: StreamOutgoingTasks_def live_def split: option.splits)
  next
    case SS_Tick
    with ss_step sched_inv_cong [OF metrics_tick_same] show ?thesis by auto
  qed (use ss_step run_handler_inv in \<open>auto simp: take_multiplier_def same_conds_def intro: sched_inv_cong split: if_splits\<close>)
qed (rule sched_inv_init)

section \<open>Properties\<close>

lemma missing_not_ready:
  assumes "sched_conditions s c = Some (no_cond d)"
  shows "health_Status (health (ss_status s)) \<noteq> Ready"
proof -
  have "no_cond d \<in> set (map snd (sc_conditions (ss_status s)))" using map_of_SomeD [OF assms] by force
  moreover have "ac_condition (no_cond d) = MissingOptionalComponent" by (simp add: no_cond_def)
  ultimately show ?thesis unfolding health_def health_loop_status by (auto split: if_splits)
qed

text \<open>C26: the scheduler counts its streams and reports that one side is missing. In every reachable
  state, under any interleaving of the handlers, the broker is in a reachable state of its own, the
  two counters are the numbers of the open streams, and as long as no stream of a side is open and no
  handler is about to apply the condition, the condition of that side is active and the health of the
  scheduler is not \<open>Ready\<close>.\<close>

theorem scheduler_reports_missing:
  assumes "ss_reachable md5 s"
  shows "b_reachable md5 (ss_broker s) \<and> ss_count s d = int (length (filter (live d) (ss_handlers s))) \<and>
    (ss_count s d = 0 \<and> (\<forall>h\<in>set (ss_handlers s). Cond_Apply d \<notin> set h) \<longrightarrow>
       (\<exists>c. sched_conditions s c = Some (no_cond d)) \<and> health_Status (health (ss_status s)) \<noteq> Ready)"
proof -
  have inv: "sched_inv s" by (rule sched_reachable_inv [OF assms])
  then have "\<exists>c. sched_conditions s c = Some (no_cond d)"
    if "ss_count s d = 0" "\<forall>h\<in>set (ss_handlers s). Cond_Apply d \<notin> set h"
    using that unfolding sched_inv_def by blast
  moreover have "ss_count s d = int (length (filter (live d) (ss_handlers s)))" using inv unfolding sched_inv_def by blast
  ultimately show ?thesis using server_broker_reachable [OF assms] missing_not_ready by blast
qed

definition two_agents :: "sched_event list" where
  "two_agents = SS_Incoming None ''a'' (Some []) 4 # SS_Incoming None ''b'' (Some []) 4 #
     replicate 7 (SS_Run 0) @ replicate 3 (SS_Run 1) @ replicate 2 (SS_Run 0) @ [SS_Run 1]"

theorem scheduler_reports_missing_witness:
  "\<exists>s. sched_run (\<lambda>x. x) (take 9 two_agents) (NewSchedulerServer False) = Some s \<and> ss_count s Agents = 0 \<and>
     ss_count s Consumerds = 0 \<and> health_Status (health (ss_status s)) \<noteq> Ready"
proof -
  have r: "map_option (\<lambda>s. (ss_count s Agents, ss_count s Consumerds, \<forall>h\<in>set (ss_handlers s). Cond_Apply Consumerds \<notin> set h))
    (sched_run (\<lambda>x. x) (take 9 two_agents) (NewSchedulerServer False)) = Some (0, 0, True)" by code_simp
  then obtain s where s: "sched_run (\<lambda>x. x) (take 9 two_agents) (NewSchedulerServer False) = Some s"
    "ss_count s Agents = 0" "ss_count s Consumerds = 0" "\<forall>h\<in>set (ss_handlers s). Cond_Apply Consumerds \<notin> set h" by auto
  from scheduler_reports_missing [OF sched_run_reachable [OF ss_init s(1)], of Consumerds] s show ?thesis by blast
qed

text \<open>The condition can outlive its reason. When the last agent leaves while the next one joins,
  the handler of the old one applies the condition after the handler of the new one has canceled the
  previous one: with an agent connected and no handler about to change anything, the scheduler goes on
  reporting that no agents are connected.\<close>

theorem no_agents_condition_stuck:
  "(case sched_run (\<lambda>x. x) two_agents (NewSchedulerServer False) of
      Some s \<Rightarrow> ss_count s Agents = 1 \<and> ss_handlers s = [[], [Wait_Done, Post_Limits, Count_Dec Agents]] \<and>
        ''[Missing Optional] No agents connected'' \<in> set (health_Messages (health (ss_status s)))
    | None \<Rightarrow> False)"
  by code_simp

end
