(* ===== verification/Monitor.thy ===== *)
theory Monitor
  imports Transitions Types Status
begin

text \<open>
  \<open>src/pkg/monitor/store.go\<close> and \<open>server.go\<close>: the monitor keeps a key-value store per connected
  provider, sends every changed value to the listeners of its key, and answers queries. The protobuf
  codec (\<open>anypb\<close>) and the form of encoded values are parameters. The lock of the providers is explicit, since one path keeps it; the
  other operations hold it for the whole of one definition. Metrics for Prometheus are not modelled.
\<close>

section \<open>Key-value stores\<close>

locale key_value_store =
  fixes get :: "'s \<Rightarrow> string \<Rightarrow> 'v option"
    and sets :: "string \<Rightarrow> 'v \<Rightarrow> 's \<Rightarrow> 's"
    and del :: "string \<Rightarrow> 's \<Rightarrow> 's"
    and cas :: "string \<Rightarrow> 'v \<Rightarrow> 's \<Rightarrow> bool \<times> 's"
    and keys :: "'s \<Rightarrow> string list"
  assumes get_sets: "get (sets k v s) k' = (if k' = k then Some v else get s k')"
    and get_del: "get (del k s) k' = (if k' = k then None else get s k')"
    and cas_sets: "cas k v s = (if get s k = Some v then (False, s) else (True, sets k v s))"
    and keys_get: "set (keys s) = {k. get s k \<noteq> None}"
begin

lemma get_cas: "get (snd (cas k v s)) k' = (if k' = k then Some v else get s k')"
  by (simp add: cas_sets get_sets)

lemma cas_unchanged: "\<not> fst (cas k v s) \<Longrightarrow> snd (cas k v s) = s \<and> get s k = Some v"
  by (simp add: cas_sets split: if_splits)

lemma cas_twice: "cas k v (snd (cas k v s)) = (False, snd (cas k v s))"
  by (simp add: cas_sets get_sets)

lemma keys_cas: "set (keys (snd (cas k v s))) = insert k (set (keys s))"
  by (auto simp: keys_get get_cas)

end

section \<open>The store in memory\<close>

record ProviderInfo =
  pi_UUID :: string
  pi_Component :: Component
  pi_Address :: string

datatype message =
    Msg_Providers "(string \<times> ProviderInfo) list"
  | Msg_MetricsPostedTotal int
  | Msg_ListenerCount int
  | Msg_ProviderCount int
  | Msg_Health Health
  | Msg_Other string bytes

type_synonym InMemoryStore = "(string \<times> message) list"

definition mem_NewStore :: InMemoryStore where
  "mem_NewStore = []"

definition mem_Set :: "string \<Rightarrow> message \<Rightarrow> InMemoryStore \<Rightarrow> InMemoryStore" where
  "mem_Set k v m = AList.update k v m"

definition mem_Delete :: "string \<Rightarrow> InMemoryStore \<Rightarrow> InMemoryStore" where
  "mem_Delete k m = AList.delete k m"

definition mem_Get :: "InMemoryStore \<Rightarrow> string \<Rightarrow> message option" where
  "mem_Get m k = map_of m k"

definition mem_CAS :: "string \<Rightarrow> message \<Rightarrow> InMemoryStore \<Rightarrow> bool \<times> InMemoryStore" where
  "mem_CAS k v m =
     (case map_of m k of
        None \<Rightarrow> (True, AList.update k v m)
      | Some data \<Rightarrow> if data \<noteq> v then (True, AList.update k v m) else (False, m))"

definition mem_Keys :: "InMemoryStore \<Rightarrow> string list" where
  "mem_Keys m = map fst m"

definition mem_Len :: "InMemoryStore \<Rightarrow> nat" where
  "mem_Len m = length m"

interpretation mem: key_value_store mem_Get mem_Set mem_Delete mem_CAS mem_Keys
proof unfold_locales
  show "set (mem_Keys s) = {k. mem_Get s k \<noteq> None}" for s
    by (auto simp: mem_Keys_def mem_Get_def map_of_eq_None_iff image_iff)
qed (auto simp: mem_Get_def mem_Set_def mem_Delete_def mem_CAS_def update_conv' delete_conv' split: option.splits)

section \<open>State of the server\<close>

record 'p anypb =
  any_TypeUrl :: string
  any_Value :: 'p

record 'p codec =
  pb_New :: "message \<Rightarrow> 'p anypb"
  pb_UnmarshalNew :: "'p anypb \<Rightarrow> message option"

record 'p Metric =
  metric_Key :: Key
  metric_Value :: "'p anypb option"

record bucket =
  bk_ctx :: nat
  bk_store :: InMemoryStore

record 'p listener =
  ml_key :: Key
  ml_ctx :: nat                 \<comment> \<open>the context of the bucket\<close>
  ml_received :: "'p anypb list"
  ml_broken :: bool             \<comment> \<open>a \<open>Send\<close> returns an error\<close>

record 'p MonitorServer =
  mon_uuid :: string
  mon_buckets :: "(string \<times> bucket) list"
  mon_listeners :: "((string \<times> string \<times> string) \<times> 'p listener) list"   \<comment> \<open>canonical key, listener, nonce\<close>
  mon_providers :: "(string \<times> ProviderInfo) list"
  mon_metricsTotal :: int
  mon_status :: StatusController
  mon_nextCtx :: nat
  mon_closed :: "nat list"
  mon_streams :: "string list"
  mon_locked :: bool            \<comment> \<open>\<open>providerMutex\<close> is held for writing\<close>

definition MetaBucket :: string where
  "MetaBucket = ''meta''"

section \<open>Posting\<close>

definition receiver_Send :: "'p anypb \<Rightarrow> 'p listener \<Rightarrow> 'p listener" where
  "receiver_Send a l = (if ml_broken l then l else l\<lparr>ml_received := ml_received l @ [a]\<rparr>)"

definition notify :: "Key \<Rightarrow> 'p anypb \<Rightarrow> 'p MonitorServer \<Rightarrow> 'p MonitorServer" where
  "notify key a m =
     m\<lparr>mon_listeners := map (\<lambda>(k, l). (k, if fst k = Canonical key then receiver_Send a l else l)) (mon_listeners m)\<rparr>"

definition set_store :: "string \<Rightarrow> InMemoryStore \<Rightarrow> 'p MonitorServer \<Rightarrow> 'p MonitorServer" where
  "set_store b st m =
     m\<lparr>mon_buckets := map (\<lambda>(b', bk). (b', if b' = b then bk\<lparr>bk_store := st\<rparr> else bk)) (mon_buckets m)\<rparr>"

definition incMetricsPostedTotal :: "'p MonitorServer \<Rightarrow> 'p MonitorServer" where
  "incMetricsPostedTotal m = m\<lparr>mon_metricsTotal := mon_metricsTotal m + 1\<rparr>"

definition post :: "'p codec \<Rightarrow> 'p Metric \<Rightarrow> 'p MonitorServer \<Rightarrow> go_error option \<times> 'p MonitorServer" where
  "post pb metric m =
     (let b = key_Bucket (metric_Key metric); name = key_Name (metric_Key metric)
      in case map_of (mon_buckets m) b of
           None \<Rightarrow> (Some (Status InvalidArgument (''No such bucket: '' @ [CHR 0x27] @ b @ [CHR 0x27])), m)
         | Some bk \<Rightarrow>
             (case metric_Value metric of
                None \<Rightarrow> (None, set_store b (mem_Delete name (bk_store bk)) m)
              | Some a \<Rightarrow>
                  (case pb_UnmarshalNew pb a of
                     None \<Rightarrow> (Some (Error ''proto''), m)
                   | Some contents \<Rightarrow>
                       (let (changed, st) = mem_CAS name contents (bk_store bk)
                        in if changed then (None, notify (metric_Key metric) a (incMetricsPostedTotal (set_store b st m)))
                           else (None, m)))))"

text \<open>An error of \<open>post\<close> makes \<open>providersUpdated\<close> panic.\<close>

definition providersUpdated :: "'p codec \<Rightarrow> 'p MonitorServer \<Rightarrow> 'p MonitorServer outcome" where
  "providersUpdated pb m =
     (let a = pb_New pb (Msg_Providers (mon_providers m))
      in case post pb \<lparr>metric_Key = \<lparr>key_Bucket = MetaBucket, key_Name = any_TypeUrl a\<rparr>, metric_Value = Some a\<rparr> m of
           (None, m') \<Rightarrow> Return m'
         | (Some _, _) \<Rightarrow> Panic)"

definition postInternal :: "'p codec \<Rightarrow> message \<Rightarrow> 'p MonitorServer \<Rightarrow> 'p MonitorServer" where
  "postInternal pb msg m =
     (let a = pb_New pb msg
      in snd (post pb \<lparr>metric_Key = \<lparr>key_Bucket = mon_uuid m, key_Name = any_TypeUrl a\<rparr>, metric_Value = Some a\<rparr> m))"

definition mon_postTotals :: "'p codec \<Rightarrow> 'p MonitorServer \<Rightarrow> 'p MonitorServer" where
  "mon_postTotals pb m = postInternal pb (Msg_MetricsPostedTotal (mon_metricsTotal m)) m"

definition postListeners :: "'p codec \<Rightarrow> 'p MonitorServer \<Rightarrow> 'p MonitorServer" where
  "postListeners pb m = postInternal pb (Msg_ListenerCount (int (length (mon_listeners m)))) m"

definition postProviders :: "'p codec \<Rightarrow> 'p MonitorServer \<Rightarrow> 'p MonitorServer" where
  "postProviders pb m = postInternal pb (Msg_ProviderCount (int (length (mon_providers m)))) m"

definition postHealthUpdates :: "'p codec \<Rightarrow> 'p MonitorServer \<Rightarrow> 'p MonitorServer" where
  "postHealthUpdates pb m = postInternal pb (Msg_Health (health (mon_status m))) m"

definition NewMonitorServer :: "'p codec \<Rightarrow> string \<Rightarrow> 'p MonitorServer outcome" where
  "NewMonitorServer pb uuid =
     (let m = \<lparr>mon_uuid = uuid, mon_buckets = [(uuid, \<lparr>bk_ctx = 0, bk_store = mem_NewStore\<rparr>)], mon_listeners = [],
               mon_providers = [(uuid, \<lparr>pi_UUID = uuid, pi_Component = Monitor, pi_Address = ''0.0.0.0''\<rparr>)],
               mon_metricsTotal = 0, mon_status = BeginInitialize 0, mon_nextCtx = 1, mon_closed = [], mon_streams = [],
               mon_locked = False\<rparr>;
          m1 = m\<lparr>mon_buckets := AList.update MetaBucket \<lparr>bk_ctx = 0, bk_store = mem_NewStore\<rparr> (mon_buckets m)\<rparr>
      in case providersUpdated pb m1 of
           Return m2 \<Rightarrow> Return (m2\<lparr>mon_status := EndInitialize (mon_status m2)\<rparr>)
         | Fail e \<Rightarrow> Fail e
         | Panic \<Rightarrow> Panic)"

section \<open>Streams of providers\<close>

datatype peer_addr = TCPAddr string | OtherAddr string

definition providerIP :: "peer_addr option \<Rightarrow> string outcome" where
  "providerIP p =
     (case p of
        Some (TCPAddr ip) \<Rightarrow> Return ip
      | Some (OtherAddr a) \<Rightarrow> Return a
      | None \<Rightarrow> Fail (Status InvalidArgument ''No peer information available''))"

text \<open>\<open>Stream\<close> up to its loop. \<open>None\<close>: the call waits for the lock. A client with an identity that is
  connected gets an error, and the lock is not given back.\<close>

definition Stream_begin ::
    "'p codec \<Rightarrow> go_error option \<Rightarrow> peer_addr option \<Rightarrow> string \<Rightarrow> Component \<Rightarrow> 'p MonitorServer \<Rightarrow> (unit outcome \<times> 'p MonitorServer) option" where
  "Stream_begin pb metaErr peer uuid component m =
     (case metaErr of
        Some e \<Rightarrow> Some (Fail e, m)
      | None \<Rightarrow>
          (case providerIP peer of
             Return addr \<Rightarrow>
               if mon_locked m then None
               else let m1 = m\<lparr>mon_locked := True\<rparr> in
                 if map_of (mon_buckets m1) uuid \<noteq> None
                 then Some (Fail (Status AlreadyExists ''A client with the same identity is already connected''), m1)
                 else let m2 = m1\<lparr>mon_buckets := AList.update uuid \<lparr>bk_ctx = mon_nextCtx m1, bk_store = mem_NewStore\<rparr> (mon_buckets m1),
                               mon_nextCtx := mon_nextCtx m1 + 1,
                               mon_providers := AList.update uuid \<lparr>pi_UUID = uuid, pi_Component = component, pi_Address = addr\<rparr> (mon_providers m1),
                               mon_streams := uuid # mon_streams m1\<rparr>
                      in (case providersUpdated pb m2 of
                            Return m3 \<Rightarrow> Some (Return (), m3\<lparr>mon_locked := False\<rparr>)
                          | Fail e \<Rightarrow> Some (Panic, m2)
                          | Panic \<Rightarrow> Some (Panic, m2))
           | Fail e \<Rightarrow> Some (Fail e, m)
           | Panic \<Rightarrow> Some (Panic, m)))"

text \<open>The end of \<open>Stream\<close>, after the loop.\<close>

definition Stream_end :: "'p codec \<Rightarrow> string \<Rightarrow> 'p MonitorServer \<Rightarrow> 'p MonitorServer outcome option" where
  "Stream_end pb uuid m =
     (if mon_locked m then None
      else let ctx = (case map_of (mon_buckets m) uuid of Some bk \<Rightarrow> [bk_ctx bk] | None \<Rightarrow> []);
               m1 = m\<lparr>mon_buckets := AList.delete uuid (mon_buckets m), mon_providers := AList.delete uuid (mon_providers m),
                      mon_closed := ctx @ mon_closed m, mon_streams := remove1 uuid (mon_streams m)\<rparr>
           in Some (providersUpdated pb m1))"

text \<open>A message of the stream: an error of \<open>post\<close> ends the stream.\<close>

definition Stream_recv :: "'p codec \<Rightarrow> string \<Rightarrow> 'p Metric \<Rightarrow> 'p MonitorServer \<Rightarrow> 'p MonitorServer outcome option" where
  "Stream_recv pb uuid metric m =
     (if mon_locked m then None
      else case post pb metric m of
             (None, m') \<Rightarrow> Some (Return m')
           | (Some _, m') \<Rightarrow> Stream_end pb uuid m')"

section \<open>Listeners\<close>

definition Listen_begin ::
    "'p codec \<Rightarrow> go_error option \<Rightarrow> string \<Rightarrow> string \<Rightarrow> Key \<Rightarrow> 'p MonitorServer \<Rightarrow> (unit outcome \<times> 'p MonitorServer) option" where
  "Listen_begin pb metaErr listenerID nonce key m =
     (case metaErr of
        Some e \<Rightarrow> Some (Fail e, m)
      | None \<Rightarrow>
          if mon_locked m then None
          else (case map_of (mon_buckets m) (key_Bucket key) of
             None \<Rightarrow> Some (Fail (Status FailedPrecondition (''No such bucket: '' @ [CHR 0x27] @ key_Bucket key @ [CHR 0x27])), m)
           | Some bk \<Rightarrow>
               (let l = \<lparr>ml_key = key, ml_ctx = bk_ctx bk, ml_received = [], ml_broken = False\<rparr>;
                    l1 = (case mem_Get (bk_store bk) (key_Name key) of
                            Some v \<Rightarrow> receiver_Send (pb_New pb v) l
                          | None \<Rightarrow> l)
                in Some (Return (), m\<lparr>mon_listeners := AList.update (Canonical key, listenerID, nonce) l1 (mon_listeners m)\<rparr>))))"

text \<open>The end of \<open>Listen\<close>: the context of the call is done, or that of the bucket.\<close>

definition Listen_end :: "bool \<Rightarrow> string \<times> string \<times> string \<Rightarrow> 'p MonitorServer \<Rightarrow> (go_error \<times> 'p MonitorServer) option" where
  "Listen_end canceled k m =
     (case map_of (mon_listeners m) k of
        None \<Rightarrow> None
      | Some l \<Rightarrow>
          if mon_locked m \<or> \<not> canceled \<and> ml_ctx l \<notin> set (mon_closed m) then None
          else Some (if canceled then Status Canceled ''Context canceled'' else Status Aborted ''Bucket closed'',
                     m\<lparr>mon_listeners := AList.delete k (mon_listeners m)\<rparr>))"

section \<open>Queries\<close>

definition Whois :: "string \<Rightarrow> 'p MonitorServer \<Rightarrow> ProviderInfo outcome" where
  "Whois uuid m =
     (case map_of (mon_providers m) uuid of
        Some info \<Rightarrow> Return \<lparr>pi_UUID = uuid, pi_Component = pi_Component info, pi_Address = pi_Address info\<rparr>
      | None \<Rightarrow> Fail (Status NotFound ''The requested provider was not found.''))"

definition GetMetric :: "'p codec \<Rightarrow> Key \<Rightarrow> 'p MonitorServer \<Rightarrow> 'p Metric outcome" where
  "GetMetric pb key m =
     (case map_of (mon_buckets m) (key_Bucket key) of
        Some bk \<Rightarrow>
          (case mem_Get (bk_store bk) (key_Name key) of
             None \<Rightarrow> Fail (Status NotFound ''No such key'')
           | Some msg \<Rightarrow> Return \<lparr>metric_Key = key, metric_Value = Some (pb_New pb msg)\<rparr>)
      | None \<Rightarrow> Fail (Status NotFound ''No such bucket''))"

definition GetBuckets :: "'p MonitorServer \<Rightarrow> string list" where
  "GetBuckets m = map fst (mon_buckets m)"

definition GetKeys :: "string \<Rightarrow> 'p MonitorServer \<Rightarrow> Key list outcome" where
  "GetKeys b m =
     (case map_of (mon_buckets m) b of
        Some bk \<Rightarrow> Return (map (\<lambda>k. \<lparr>key_Bucket = b, key_Name = k\<rparr>) (mem_Keys (bk_store bk)))
      | None \<Rightarrow> Fail (Status NotFound ''No such bucket''))"

section \<open>Runs\<close>

datatype 'p monitor_event =
    Mon_Connect "go_error option" "peer_addr option" string Component
  | Mon_Post string "'p Metric"
  | Mon_Disconnect string
  | Mon_Listen "go_error option" string string Key
  | Mon_ListenEnd bool "string \<times> string \<times> string"
  | Mon_Break "string \<times> string \<times> string"    \<comment> \<open>the stream of a listener breaks\<close>
  | Mon_Totals
  | Mon_Listeners
  | Mon_Providers
  | Mon_Health

definition returned :: "'a outcome option \<Rightarrow> 'a option" where
  "returned r = (case r of Some (Return x) \<Rightarrow> Some x | _ \<Rightarrow> None)"

definition unless_locked :: "'p MonitorServer \<Rightarrow> 'p MonitorServer \<Rightarrow> 'p MonitorServer option" where
  "unless_locked m m' = (if mon_locked m then None else Some m')"

text \<open>One call or goroutine step. The identities of providers are UUIDs, without dots; nonces differ.
  A panic ends the run.\<close>

fun mon_step :: "'p codec \<Rightarrow> 'p monitor_event \<Rightarrow> 'p MonitorServer \<Rightarrow> 'p MonitorServer option" where
  "mon_step pb (Mon_Connect e p u c) m =
     (if CHR ''.'' \<in> set u then None
      else case Stream_begin pb e p u c m of None \<Rightarrow> None | Some (Panic, _) \<Rightarrow> None | Some (_, m') \<Rightarrow> Some m')"
| "mon_step pb (Mon_Post u metric) m = (if u \<in> set (mon_streams m) then returned (Stream_recv pb u metric m) else None)"
| "mon_step pb (Mon_Disconnect u) m = (if u \<in> set (mon_streams m) then returned (Stream_end pb u m) else None)"
| "mon_step pb (Mon_Listen e i n key) m =
     (if n \<in> (\<lambda>k. snd (snd (fst k))) ` set (mon_listeners m) then None else map_option snd (Listen_begin pb e i n key m))"
| "mon_step pb (Mon_ListenEnd c k) m = map_option snd (Listen_end c k m)"
| "mon_step pb (Mon_Break k) m =
     Some (m\<lparr>mon_listeners := map (\<lambda>(k', l). (k', if k' = k then l\<lparr>ml_broken := True\<rparr> else l)) (mon_listeners m)\<rparr>)"
| "mon_step pb Mon_Totals m = unless_locked m (mon_postTotals pb m)"
| "mon_step pb Mon_Listeners m = unless_locked m (postListeners pb m)"
| "mon_step pb Mon_Providers m = unless_locked m (postProviders pb m)"
| "mon_step pb Mon_Health m = unless_locked m (postHealthUpdates pb m)"

abbreviation mon_run :: "'p codec \<Rightarrow> 'p monitor_event list \<Rightarrow> 'p MonitorServer \<Rightarrow> 'p MonitorServer option" where
  "mon_run pb \<equiv> run_events (mon_step pb)"

inductive mon_reachable :: "'p codec \<Rightarrow> 'p MonitorServer \<Rightarrow> bool" for pb where
  mon_init: "NewMonitorServer pb uuid = Return m \<Longrightarrow> CHR ''.'' \<notin> set uuid \<Longrightarrow> uuid \<noteq> MetaBucket \<Longrightarrow> mon_reachable pb m"
| mon_next: "mon_reachable pb m \<Longrightarrow> mon_step pb ev m = Some m' \<Longrightarrow> mon_reachable pb m'"

interpretation mon_sys: transition_system "mon_step pb" "\<lambda>m. \<exists>uuid. NewMonitorServer pb uuid = Return m \<and> CHR ''.'' \<notin> set uuid \<and> uuid \<noteq> MetaBucket" "mon_reachable pb" for pb
proof (unfold_locales, goal_cases)
  case (3 s P)
  then show ?case by (induction rule: mon_reachable.induct) blast+
qed (auto intro: mon_init mon_next)

lemmas mon_run_reachable = mon_sys.run_reach

section \<open>Coherence of the listeners\<close>

text \<open>What the sources rely on of the codec.\<close>

definition codec_ok :: "'p codec \<Rightarrow> bool" where
  "codec_ok pb = (\<forall>msg. pb_UnmarshalNew pb (pb_New pb msg) = Some msg)"

text \<open>The value of a key, and whether a listener has it as its last one.\<close>

definition mon_value :: "'p MonitorServer \<Rightarrow> Key \<Rightarrow> message option" where
  "mon_value m key =
     (case map_of (mon_buckets m) (key_Bucket key) of None \<Rightarrow> None | Some bk \<Rightarrow> mem_Get (bk_store bk) (key_Name key))"

definition up_to_date :: "'p codec \<Rightarrow> 'p listener \<Rightarrow> message option \<Rightarrow> bool" where
  "up_to_date pb l v \<longleftrightarrow>
     ml_broken l \<or> v = None \<or> ml_received l \<noteq> [] \<and> pb_UnmarshalNew pb (last (ml_received l)) = v"

definition listeners_inv :: "'p codec \<Rightarrow> 'p MonitorServer \<Rightarrow> bool" where
  "listeners_inv pb m \<longleftrightarrow>
     (\<forall>b. map_of (mon_buckets m) b \<noteq> None \<longrightarrow> CHR ''.'' \<notin> set b) \<and>
     (\<forall>c i n l. ((c, i, n), l) \<in> set (mon_listeners m) \<longrightarrow>
        c = Canonical (ml_key l) \<and> CHR ''.'' \<notin> set (key_Bucket (ml_key l)) \<and> up_to_date pb l (mon_value m (ml_key l)))"

definition providers_inv :: "'p MonitorServer \<Rightarrow> bool" where
  "providers_inv m \<longleftrightarrow>
     distinct (mon_streams m) \<and> MetaBucket \<notin> set (mon_streams m) \<and> mon_uuid m \<notin> set (mon_streams m) \<and> mon_uuid m \<noteq> MetaBucket \<and>
     (\<forall>b. map_of (mon_buckets m) b \<noteq> None \<longleftrightarrow> b = MetaBucket \<or> b = mon_uuid m \<or> b \<in> set (mon_streams m)) \<and>
     (\<forall>b. map_of (mon_providers m) b \<noteq> None \<longleftrightarrow> b = mon_uuid m \<or> b \<in> set (mon_streams m))"

lemma Canonical_inj:
  assumes "Canonical k = Canonical k'" "CHR ''.'' \<notin> set (key_Bucket k)" "CHR ''.'' \<notin> set (key_Bucket k')"
  shows "k = k'"
proof -
  have "takeWhile (\<lambda>c. c \<noteq> CHR ''.'') (Canonical k) = key_Bucket k" if "CHR ''.'' \<notin> set (key_Bucket k)" for k
    unfolding Canonical_def using that by (subst takeWhile_append2) auto
  with assms have "key_Bucket k = key_Bucket k'" by metis
  with assms(1) show ?thesis by (simp add: Canonical_def)
qed

lemma map_of_map_snd: "map_of (map (\<lambda>(k, v). (k, f k v)) xs) k = map_option (f k) (map_of xs k)"
  by (induction xs) auto

lemma set_store_value:
  "map_of (mon_buckets m) b = Some bk \<Longrightarrow>
     mon_value (set_store b st m) key = (if key_Bucket key = b then mem_Get st (key_Name key) else mon_value m key)"
  by (auto simp: mon_value_def set_store_def map_of_map_snd split: option.splits)

lemma set_store_buckets: "map_of (mon_buckets (set_store b st m)) b' = None \<longleftrightarrow> map_of (mon_buckets m) b' = None"
  by (auto simp: set_store_def map_of_map_snd)

lemma notify_simps [simp]:
  "mon_buckets (notify key a m) = mon_buckets m" "mon_providers (notify key a m) = mon_providers m"
  "mon_streams (notify key a m) = mon_streams m" "mon_uuid (notify key a m) = mon_uuid m"
  "mon_locked (notify key a m) = mon_locked m" "mon_value (notify key a m) = mon_value m"
  by (simp_all add: notify_def mon_value_def fun_eq_iff)

lemma set_store_simps [simp]:
  "mon_listeners (set_store b st m) = mon_listeners m" "mon_providers (set_store b st m) = mon_providers m"
  "mon_streams (set_store b st m) = mon_streams m" "mon_uuid (set_store b st m) = mon_uuid m" "mon_locked (set_store b st m) = mon_locked m"
  by (simp_all add: set_store_def)

lemma incMetrics_simps [simp]:
  "mon_listeners (incMetricsPostedTotal m) = mon_listeners m" "mon_providers (incMetricsPostedTotal m) = mon_providers m"
  "mon_streams (incMetricsPostedTotal m) = mon_streams m" "mon_uuid (incMetricsPostedTotal m) = mon_uuid m"
  "mon_buckets (incMetricsPostedTotal m) = mon_buckets m" "mon_value (incMetricsPostedTotal m) = mon_value m"
  "mon_locked (incMetricsPostedTotal m) = mon_locked m"
  by (simp_all add: incMetricsPostedTotal_def mon_value_def fun_eq_iff)

lemma listeners_inv_cong:
  assumes "listeners_inv pb m" and "mon_listeners m' = mon_listeners m"
    and "\<And>b. map_of (mon_buckets m') b \<noteq> None \<Longrightarrow> CHR ''.'' \<notin> set b"
    and "\<And>key. mon_value m' key = mon_value m key \<or> mon_value m' key = None"
  shows "listeners_inv pb m'"
  unfolding listeners_inv_def
proof (intro conjI allI impI)
  fix c i n l
  assume "((c, i, n), l) \<in> set (mon_listeners m')"
  with assms(1,2) have "c = Canonical (ml_key l)" "CHR ''.'' \<notin> set (key_Bucket (ml_key l))" "up_to_date pb l (mon_value m (ml_key l))"
    unfolding listeners_inv_def by auto
  with assms(4) [of "ml_key l"] show "c = Canonical (ml_key l)" "CHR ''.'' \<notin> set (key_Bucket (ml_key l))"
    "up_to_date pb l (mon_value m' (ml_key l))" by (auto simp: up_to_date_def)
qed (use assms(3) in blast)

lemma up_to_date_sent: "pb_UnmarshalNew pb a = Some v \<Longrightarrow> up_to_date pb (receiver_Send a l) (Some v)"
  by (simp add: up_to_date_def receiver_Send_def)

lemma receiver_Send_key [simp]: "ml_key (receiver_Send a l) = ml_key l"
  by (simp add: receiver_Send_def)

text \<open>Posting a value: the changed value reaches exactly the listeners of the key.\<close>

lemma notify_inv:
  assumes inv: "listeners_inv pb m" and bk: "map_of (mon_buckets m) (key_Bucket key) = Some bk"
    and u: "pb_UnmarshalNew pb a = Some v" and val: "mem_Get st (key_Name key) = Some v"
    and other: "\<And>k. k \<noteq> key_Name key \<Longrightarrow> mem_Get st k = mem_Get (bk_store bk) k"
  shows "listeners_inv pb (notify key a (incMetricsPostedTotal (set_store (key_Bucket key) st m)))"
  unfolding listeners_inv_def
proof (intro conjI allI impI)
  let ?m = "notify key a (incMetricsPostedTotal (set_store (key_Bucket key) st m))"
  fix c i n l
  assume "((c, i, n), l) \<in> set (mon_listeners ?m)"
  then obtain l0 where l0: "((c, i, n), l0) \<in> set (mon_listeners m)" "l = (if c = Canonical key then receiver_Send a l0 else l0)"
    by (auto simp: notify_def)
  then have i0: "c = Canonical (ml_key l0)" "CHR ''.'' \<notin> set (key_Bucket (ml_key l0))" "up_to_date pb l0 (mon_value m (ml_key l0))"
    using inv unfolding listeners_inv_def by auto
  have k: "ml_key l = ml_key l0" using l0(2) by simp
  then show "c = Canonical (ml_key l)" "CHR ''.'' \<notin> set (key_Bucket (ml_key l))" using i0 by simp_all
  have "CHR ''.'' \<notin> set (key_Bucket key)" using inv bk unfolding listeners_inv_def by simp
  with i0 have same: "c = Canonical key \<longleftrightarrow> ml_key l0 = key" using Canonical_inj by metis
  have vl: "mon_value ?m (ml_key l0) = (if ml_key l0 = key then Some v else mon_value m (ml_key l0))"
  proof -
    have "ml_key l0 = key \<longleftrightarrow> key_Bucket (ml_key l0) = key_Bucket key \<and> key_Name (ml_key l0) = key_Name key" by (auto intro: Key.equality)
    moreover have "mon_value m (ml_key l0) = mem_Get (bk_store bk) (key_Name (ml_key l0))" if "key_Bucket (ml_key l0) = key_Bucket key"
      using that bk by (simp add: mon_value_def)
    ultimately show ?thesis
      using val other [of "key_Name (ml_key l0)"] by (simp add: set_store_value [OF bk])
  qed
  show "up_to_date pb l (mon_value ?m (ml_key l))"
    unfolding k vl using l0(2) same i0(3) up_to_date_sent [OF u] by auto
next
  fix b
  assume "map_of (mon_buckets (notify key a (incMetricsPostedTotal (set_store (key_Bucket key) st m)))) b \<noteq> None"
  then show "CHR ''.'' \<notin> set b" using inv unfolding listeners_inv_def by (simp add: set_store_buckets)
qed

lemma post_inv:
  assumes "listeners_inv pb m"
  shows "listeners_inv pb (snd (post pb metric m))"
proof (cases "map_of (mon_buckets m) (key_Bucket (metric_Key metric))")
  case (Some bk)
  show ?thesis
  proof (cases "metric_Value metric")
    case None
    let ?m = "set_store (key_Bucket (metric_Key metric)) (mem_Delete (key_Name (metric_Key metric)) (bk_store bk)) m"
    have "listeners_inv pb ?m"
    proof (rule listeners_inv_cong [OF assms])
      show "mon_value ?m key = mon_value m key \<or> mon_value ?m key = None" for key
        unfolding set_store_value [OF Some] by (simp add: mem.get_del mon_value_def Some)
      show "CHR ''.'' \<notin> set b" if "map_of (mon_buckets ?m) b \<noteq> None" for b
        using that assms unfolding set_store_buckets listeners_inv_def by blast
    qed simp
    with Some None show ?thesis by (simp add: post_def Let_def)
  next
    case (Some a)
    note a = this
    show ?thesis
    proof (cases "pb_UnmarshalNew pb a")
      case (Some v)
      let ?r = "mem_CAS (key_Name (metric_Key metric)) v (bk_store bk)"
      have "snd (post pb metric m) = (if fst ?r then notify (metric_Key metric) a (incMetricsPostedTotal (set_store (key_Bucket (metric_Key metric)) (snd ?r) m)) else m)"
        using \<open>map_of _ _ = Some bk\<close> a Some by (simp add: post_def Let_def split: prod.split)
      then show ?thesis using notify_inv [OF assms \<open>map_of _ _ = Some bk\<close> Some] assms by (simp add: mem.get_cas)
    qed (use assms \<open>map_of _ _ = Some bk\<close> a in \<open>simp add: post_def\<close>)
  qed
qed (use assms in \<open>simp add: post_def\<close>)

lemma post_frame:
  "mon_providers (snd (post pb metric m)) = mon_providers m" "mon_streams (snd (post pb metric m)) = mon_streams m"
  "mon_uuid (snd (post pb metric m)) = mon_uuid m" "mon_locked (snd (post pb metric m)) = mon_locked m"
  "map_of (mon_buckets (snd (post pb metric m))) b = None \<longleftrightarrow> map_of (mon_buckets m) b = None"
  by (auto simp: post_def Let_def set_store_buckets split: option.splits prod.splits)

lemma providers_inv_cong:
  assumes "providers_inv m" "mon_providers m' = mon_providers m" "mon_streams m' = mon_streams m" "mon_uuid m' = mon_uuid m"
    "\<And>b. map_of (mon_buckets m') b = None \<longleftrightarrow> map_of (mon_buckets m) b = None"
  shows "providers_inv m'"
  using assms unfolding providers_inv_def by simp

definition mon_inv :: "'p codec \<Rightarrow> 'p MonitorServer \<Rightarrow> bool" where
  "mon_inv pb m \<longleftrightarrow> listeners_inv pb m \<and> providers_inv m"

lemma mon_inv_post: "mon_inv pb m \<Longrightarrow> mon_inv pb (snd (post pb metric m))"
  unfolding mon_inv_def using post_inv [of pb m metric] providers_inv_cong [of m "snd (post pb metric m)"] by (simp add: post_frame)

lemma providersUpdated_inv:
  assumes "codec_ok pb" "mon_inv pb m"
  obtains m' where "providersUpdated pb m = Return m'" "mon_inv pb m'" "mon_locked m' = mon_locked m" "mon_streams m' = mon_streams m"
proof -
  let ?a = "pb_New pb (Msg_Providers (mon_providers m))"
  let ?metric = "\<lparr>metric_Key = \<lparr>key_Bucket = MetaBucket, key_Name = any_TypeUrl ?a\<rparr>, metric_Value = Some ?a\<rparr>"
  have "map_of (mon_buckets m) MetaBucket \<noteq> None" using assms(2) unfolding mon_inv_def providers_inv_def by blast
  then have "fst (post pb ?metric m) = None"
    using assms(1) by (auto simp: post_def Let_def codec_ok_def split: prod.splits)
  then have "providersUpdated pb m = Return (snd (post pb ?metric m))"
    by (cases "post pb ?metric m") (simp add: providersUpdated_def Let_def)
  then show thesis using that mon_inv_post [OF assms(2)] post_frame by blast
qed

lemma mon_inv_locked [simp]: "mon_inv pb (m\<lparr>mon_locked := x\<rparr>) = mon_inv pb m"
  by (simp add: mon_inv_def listeners_inv_def providers_inv_def mon_value_def)

lemma mon_inv_status [simp]: "mon_inv pb (m\<lparr>mon_status := x\<rparr>) = mon_inv pb m"
  by (simp add: mon_inv_def listeners_inv_def providers_inv_def mon_value_def)

lemma connect_inv:
  assumes inv: "mon_inv pb m" and new: "map_of (mon_buckets m) u = None" and dot: "CHR ''.'' \<notin> set u"
  shows "mon_inv pb (m\<lparr>mon_buckets := AList.update u \<lparr>bk_ctx = c, bk_store = mem_NewStore\<rparr> (mon_buckets m), mon_nextCtx := n,
    mon_providers := AList.update u info (mon_providers m), mon_streams := u # mon_streams m\<rparr>)" (is "mon_inv pb ?m")
proof -
  have "listeners_inv pb ?m"
  proof (rule listeners_inv_cong)
    show "listeners_inv pb m" using inv by (simp add: mon_inv_def)
    show "mon_value ?m key = mon_value m key \<or> mon_value ?m key = None" for key
      by (auto simp: mon_value_def update_conv' mem_NewStore_def mem_Get_def)
    show "CHR ''.'' \<notin> set b" if "map_of (mon_buckets ?m) b \<noteq> None" for b
      using that inv dot unfolding mon_inv_def listeners_inv_def by (auto simp: update_conv' split: if_splits)
  qed simp
  moreover have "u \<noteq> MetaBucket \<and> u \<noteq> mon_uuid m \<and> u \<notin> set (mon_streams m)" using inv new unfolding mon_inv_def providers_inv_def by metis
  then have "providers_inv ?m" using inv unfolding mon_inv_def providers_inv_def by (auto simp: update_conv' split: if_splits)
  ultimately show ?thesis by (simp add: mon_inv_def)
qed

lemma disconnect_inv:
  assumes inv: "mon_inv pb m" and u: "u \<in> set (mon_streams m)"
  shows "mon_inv pb (m\<lparr>mon_buckets := AList.delete u (mon_buckets m), mon_providers := AList.delete u (mon_providers m),
    mon_closed := c, mon_streams := remove1 u (mon_streams m)\<rparr>)" (is "mon_inv pb ?m")
proof -
  have "listeners_inv pb ?m"
  proof (rule listeners_inv_cong)
    show "listeners_inv pb m" using inv by (simp add: mon_inv_def)
    show "mon_value ?m key = mon_value m key \<or> mon_value ?m key = None" for key
      by (auto simp: mon_value_def delete_conv')
    show "CHR ''.'' \<notin> set b" if "map_of (mon_buckets ?m) b \<noteq> None" for b
      using that inv unfolding mon_inv_def listeners_inv_def by (auto simp: delete_conv' split: if_splits)
  qed simp
  moreover have "u \<noteq> MetaBucket \<and> u \<noteq> mon_uuid m \<and> distinct (mon_streams m)" using inv u unfolding mon_inv_def providers_inv_def by auto
  then have "providers_inv ?m" using inv unfolding mon_inv_def providers_inv_def by (auto simp: delete_conv' split: if_splits)
  ultimately show ?thesis by (simp add: mon_inv_def)
qed

lemma Stream_begin_inv:
  assumes "codec_ok pb" "mon_inv pb m" "CHR ''.'' \<notin> set u" "Stream_begin pb e p u c m = Some (r, m')"
  shows "mon_inv pb m' \<and> r \<noteq> Panic"
proof (cases "e = None \<and> is_return (providerIP p) \<and> map_of (mon_buckets m) u = None")
  case True
  then obtain addr where addr: "providerIP p = Return addr" by (cases "providerIP p") auto
  let ?m2 = "(m\<lparr>mon_locked := True\<rparr>)\<lparr>mon_buckets := AList.update u \<lparr>bk_ctx = mon_nextCtx m, bk_store = mem_NewStore\<rparr> (mon_buckets m),
    mon_nextCtx := mon_nextCtx m + 1, mon_providers := AList.update u \<lparr>pi_UUID = u, pi_Component = c, pi_Address = addr\<rparr> (mon_providers m),
    mon_streams := u # mon_streams m\<rparr>"
  have "mon_inv pb ?m2" using connect_inv [of pb "m\<lparr>mon_locked := True\<rparr>" u] assms(2,3) True by simp
  then obtain m3 where "providersUpdated pb ?m2 = Return m3" "mon_inv pb m3" by (rule providersUpdated_inv [OF assms(1)])
  then show ?thesis using assms(4) True addr by (auto simp: Stream_begin_def Let_def split: if_splits)
next
  case False
  then show ?thesis
    using assms(2,4) by (auto simp: Stream_begin_def Let_def providerIP_def split: option.splits outcome.splits if_splits peer_addr.splits)
qed

lemma Stream_end_inv:
  assumes "codec_ok pb" "mon_inv pb m" "u \<in> set (mon_streams m)" "Stream_end pb u m = Some r"
  obtains m' where "r = Return m'" "mon_inv pb m'"
proof -
  let ?ctx = "case map_of (mon_buckets m) u of Some bk \<Rightarrow> [bk_ctx bk] | None \<Rightarrow> []"
  let ?m = "m\<lparr>mon_buckets := AList.delete u (mon_buckets m), mon_providers := AList.delete u (mon_providers m),
    mon_closed := ?ctx @ mon_closed m, mon_streams := remove1 u (mon_streams m)\<rparr>"
  obtain m' where "providersUpdated pb ?m = Return m'" "mon_inv pb m'" using providersUpdated_inv [OF assms(1) disconnect_inv [OF assms(2,3)]] .
  moreover have "r = providersUpdated pb ?m" using assms(4) by (auto simp: Stream_end_def Let_def split: if_splits)
  ultimately show thesis using that by metis
qed

lemma Stream_recv_inv:
  assumes "codec_ok pb" "mon_inv pb m" "u \<in> set (mon_streams m)" "Stream_recv pb u metric m = Some r"
  obtains m' where "r = Return m'" "mon_inv pb m'"
proof (cases "fst (post pb metric m)")
  case None
  then have "r = Return (snd (post pb metric m))"
    using assms(4) by (cases "post pb metric m") (auto simp: Stream_recv_def split: if_splits)
  then show thesis using that mon_inv_post [OF assms(2)] by blast
next
  case (Some e)
  then have "Stream_end pb u (snd (post pb metric m)) = Some r"
    using assms(4) by (cases "post pb metric m") (auto simp: Stream_recv_def split: if_splits)
  then show thesis using that Stream_end_inv [OF assms(1) mon_inv_post [OF assms(2)]] assms(3) post_frame(2) by metis
qed

lemma alist_update_subset: "set (AList.update k v xs) \<subseteq> insert (k, v) (set xs)"
  by (induction xs) auto

lemma mon_value_listeners [simp]: "mon_value (m\<lparr>mon_listeners := ls\<rparr>) = mon_value m"
  by (simp add: mon_value_def fun_eq_iff)

lemma add_listener_inv:
  assumes "mon_inv pb m" "ml_key l = key" "CHR ''.'' \<notin> set (key_Bucket key)" "up_to_date pb l (mon_value m key)"
  shows "mon_inv pb (m\<lparr>mon_listeners := AList.update (Canonical key, i, n) l (mon_listeners m)\<rparr>)"
  using assms alist_update_subset [of "(Canonical key, i, n)" l "mon_listeners m"]
  unfolding mon_inv_def listeners_inv_def providers_inv_def by auto

lemma Listen_begin_inv:
  assumes "codec_ok pb" "mon_inv pb m" "Listen_begin pb e i n key m = Some (r, m')"
  shows "mon_inv pb m'"
proof (cases "e = None \<and> map_of (mon_buckets m) (key_Bucket key) \<noteq> None")
  case True
  then obtain bk where bk: "e = None" "map_of (mon_buckets m) (key_Bucket key) = Some bk" by auto
  let ?l = "\<lparr>ml_key = key, ml_ctx = bk_ctx bk, ml_received = [], ml_broken = False\<rparr>"
  let ?l1 = "case mem_Get (bk_store bk) (key_Name key) of Some v \<Rightarrow> receiver_Send (pb_New pb v) ?l | None \<Rightarrow> ?l"
  have m': "m' = m\<lparr>mon_listeners := AList.update (Canonical key, i, n) ?l1 (mon_listeners m)\<rparr>"
    using assms(3) bk by (auto simp: Listen_begin_def Let_def split: if_splits)
  have "mon_value m key = mem_Get (bk_store bk) (key_Name key)" using bk by (simp add: mon_value_def)
  moreover have "up_to_date pb (receiver_Send (pb_New pb v) l) (Some v)" for v l
    using assms(1) up_to_date_sent unfolding codec_ok_def by blast
  ultimately have new: "up_to_date pb ?l1 (mon_value m key)" by (auto simp: up_to_date_def split: option.split)
  have key: "ml_key ?l1 = key" by (auto split: option.split)
  have dot: "CHR ''.'' \<notin> set (key_Bucket key)" using assms(2) bk unfolding mon_inv_def listeners_inv_def by auto
  show ?thesis unfolding m' by (rule add_listener_inv [OF assms(2) key dot new])
next
  case False
  then show ?thesis using assms(2,3) by (auto simp: Listen_begin_def split: option.splits if_splits)
qed

lemma mon_reachable_inv:
  assumes "codec_ok pb"
  shows "mon_reachable pb m \<Longrightarrow> mon_inv pb m"
proof (induction rule: mon_reachable.induct)
  case (mon_init uuid m)
  let ?b = "\<lparr>bk_ctx = 0, bk_store = mem_NewStore\<rparr>"
  let ?m1 = "\<lparr>mon_uuid = uuid, mon_buckets = AList.update MetaBucket ?b [(uuid, ?b)], mon_listeners = [],
    mon_providers = [(uuid, \<lparr>pi_UUID = uuid, pi_Component = Monitor, pi_Address = ''0.0.0.0''\<rparr>)],
    mon_metricsTotal = 0, mon_status = BeginInitialize 0, mon_nextCtx = 1, mon_closed = [], mon_streams = [], mon_locked = False\<rparr> :: 'a MonitorServer"
  have "mon_inv pb ?m1" using mon_init by (auto simp: mon_inv_def listeners_inv_def providers_inv_def MetaBucket_def split: if_splits)
  then obtain m2 where "providersUpdated pb ?m1 = Return m2" "mon_inv pb m2" by (rule providersUpdated_inv [OF assms])
  then show ?case using mon_init(1) by (auto simp: NewMonitorServer_def Let_def)
next
  case (mon_next m ev m')
  have listeners: "mon_inv pb (m\<lparr>mon_listeners := ls\<rparr>)"
    if "\<And>c i n l. ((c, i, n), l) \<in> set ls \<Longrightarrow> \<exists>l0. ((c, i, n), l0) \<in> set (mon_listeners m) \<and> ml_key l = ml_key l0 \<and> (l = l0 \<or> ml_broken l)" for ls
    unfolding mon_inv_def listeners_inv_def using mon_next.IH that
    by (fastforce simp: mon_inv_def listeners_inv_def providers_inv_def up_to_date_def)
  show ?case
  proof (cases ev)
    case (Mon_Connect e p u c)
    with mon_next.hyps show ?thesis
      by (auto split: if_splits option.splits prod.splits outcome.splits dest: Stream_begin_inv [OF assms mon_next.IH])
  next
    case (Mon_Post u metric)
    with mon_next.hyps show ?thesis
      by (auto simp: returned_def split: if_splits option.splits outcome.splits elim: Stream_recv_inv [OF assms mon_next.IH])
  next
    case (Mon_Disconnect u)
    with mon_next.hyps show ?thesis
      by (auto simp: returned_def split: if_splits option.splits outcome.splits elim: Stream_end_inv [OF assms mon_next.IH])
  next
    case (Mon_Listen e i n key)
    with mon_next.hyps show ?thesis by (auto split: if_splits dest: Listen_begin_inv [OF assms mon_next.IH])
  next
    case (Mon_ListenEnd c k)
    have "set (AList.delete k (mon_listeners m)) \<subseteq> set (mon_listeners m)" by (auto simp: AList.delete_eq)
    with Mon_ListenEnd mon_next.hyps show ?thesis
      by (auto simp: Listen_end_def split: option.splits if_splits intro!: listeners)
  next
    case (Mon_Break k)
    let ?ls = "map (\<lambda>(k', l). (k', if k' = k then l\<lparr>ml_broken := True\<rparr> else l)) (mon_listeners m)"
    have "mon_inv pb (m\<lparr>mon_listeners := ?ls\<rparr>)"
    proof (rule listeners)
      fix c i n l
      assume "((c, i, n), l) \<in> set ?ls"
      then obtain l0 where "((c, i, n), l0) \<in> set (mon_listeners m)" "l = (if (c, i, n) = k then l0\<lparr>ml_broken := True\<rparr> else l0)" by auto
      then show "\<exists>l0. ((c, i, n), l0) \<in> set (mon_listeners m) \<and> ml_key l = ml_key l0 \<and> (l = l0 \<or> ml_broken l)" by (intro exI [of _ l0]) simp
    qed
    with Mon_Break mon_next.hyps show ?thesis by simp
  qed (use mon_next.hyps mon_inv_post [OF mon_next.IH] in
      \<open>auto simp: unless_locked_def mon_postTotals_def postListeners_def postProviders_def postHealthUpdates_def postInternal_def Let_def split: if_splits\<close>)
qed

section \<open>Properties\<close>


fun type_url :: "message \<Rightarrow> string" where
  "type_url (Msg_Providers _) = ''Providers''"
| "type_url (Msg_MetricsPostedTotal _) = ''MetricsPostedTotal''"
| "type_url (Msg_ListenerCount _) = ''ListenerCount''"
| "type_url (Msg_ProviderCount _) = ''ProviderCount''"
| "type_url (Msg_Health _) = ''Health''"
| "type_url (Msg_Other u _) = u"

definition plain_codec :: "message codec" where
  "plain_codec = \<lparr>pb_New = (\<lambda>m. \<lparr>any_TypeUrl = type_url m, any_Value = m\<rparr>), pb_UnmarshalNew = (\<lambda>a. Some (any_Value a))\<rparr>"

definition count_key :: Key where
  "count_key = \<lparr>key_Bucket = ''agent'', key_Name = ''Tasks''\<rparr>"

definition monitor_events :: "message monitor_event list" where
  "monitor_events = [Mon_Connect None (Some (TCPAddr ''10.0.0.1'')) ''agent'' Agent, Mon_Listen None ''sched'' ''n1'' count_key,
     Mon_Post ''agent'' \<lparr>metric_Key = count_key, metric_Value = Some (pb_New plain_codec (Msg_Other ''Tasks'' ''4''))\<rparr>]"

definition monitor_after :: "message monitor_event list \<Rightarrow> message MonitorServer option" where
  "monitor_after evs = (case NewMonitorServer plain_codec ''mon'' of Return m \<Rightarrow> mon_run plain_codec evs m | _ \<Rightarrow> None)"

lemma plain_codec_ok: "codec_ok plain_codec"
  by (simp add: codec_ok_def plain_codec_def)

lemma monitor_after_reachable: "monitor_after evs = Some m \<Longrightarrow> mon_reachable plain_codec m"
proof -
  assume "monitor_after evs = Some m"
  then obtain m0 where m0: "NewMonitorServer plain_codec ''mon'' = Return m0" "mon_run plain_codec evs m0 = Some m"
    by (auto simp: monitor_after_def split: outcome.splits)
  have "mon_reachable plain_codec m0" by (rule mon_init [OF m0(1)]) (simp_all add: MetaBucket_def)
  then show ?thesis using m0(2) by (rule mon_run_reachable)
qed


text \<open>Nothing changes while the lock is held.\<close>

lemma locked_step:
  assumes "mon_locked m" and "mon_step pb ev m = Some m'"
  shows "mon_locked m' \<and> mon_buckets m' = mon_buckets m \<and> mon_providers m' = mon_providers m \<and>
    map (\<lambda>(k, l). (k, ml_received l)) (mon_listeners m') = map (\<lambda>(k, l). (k, ml_received l)) (mon_listeners m)"
proof (cases ev)
  case (Mon_Connect e p u c)
  with assms have "m' = m" by (auto simp: Stream_begin_def split: option.splits outcome.splits if_splits)
  with assms(1) show ?thesis by simp
next
  case (Mon_Listen e i n key)
  with assms have "m' = m" by (auto simp: Listen_begin_def split: option.splits if_splits)
  with assms(1) show ?thesis by simp
next
  case (Mon_Break k)
  with assms show ?thesis by (auto split: if_splits)
qed (use assms in \<open>auto simp: Stream_recv_def Stream_end_def Listen_end_def returned_def unless_locked_def split: option.splits if_splits\<close>)

lemma locked_run:
  "mon_locked m \<Longrightarrow> mon_run pb evs m = Some m' \<Longrightarrow> mon_buckets m' = mon_buckets m \<and> mon_providers m' = mon_providers m \<and>
     map (\<lambda>(k, l). (k, ml_received l)) (mon_listeners m') = map (\<lambda>(k, l). (k, ml_received l)) (mon_listeners m)"
proof (induction evs arbitrary: m)
  case (Cons ev evs)
  from Cons.prems(2) obtain m1 where m1: "mon_step pb ev m = Some m1" "mon_run pb evs m1 = Some m'" by (auto split: option.splits)
  from locked_step [OF Cons.prems(1) m1(1)] Cons.IH [OF _ m1(2)] show ?case by simp
qed simp

text \<open>C37: a second connection with the identity of a connected provider stops the monitor. \<open>Stream\<close>
  returns its error without giving back the lock; whatever is called afterwards, no value is stored,
  no provider joins or leaves and no listener is sent anything again.\<close>

theorem duplicate_provider_stops_monitor:
  assumes "codec_ok pb" and "mon_reachable pb m" and "u \<in> set (mon_streams m)" and "\<not> mon_locked m"
  shows "\<exists>m'. Stream_begin pb None (Some a) u kind m =
      Some (Fail (Status AlreadyExists ''A client with the same identity is already connected''), m') \<and>
    (\<forall>evs m''. mon_run pb evs m' = Some m'' \<longrightarrow> mon_buckets m'' = mon_buckets m \<and> mon_providers m'' = mon_providers m \<and>
       map (\<lambda>(k, l). (k, ml_received l)) (mon_listeners m'') = map (\<lambda>(k, l). (k, ml_received l)) (mon_listeners m))"
proof -
  have "mon_inv pb m" by (rule mon_reachable_inv [OF assms(1,2)])
  then have "map_of (mon_buckets m) u \<noteq> None" using assms(3) unfolding mon_inv_def providers_inv_def by blast
  then have "Stream_begin pb None (Some a) u kind m =
      Some (Fail (Status AlreadyExists ''A client with the same identity is already connected''), m\<lparr>mon_locked := True\<rparr>)"
    using assms(4) by (cases a) (auto simp: Stream_begin_def providerIP_def Let_def)
  with locked_run [of "m\<lparr>mon_locked := True\<rparr>" pb] show ?thesis by auto
qed

theorem duplicate_provider_stops_monitor_witness:
  "\<exists>m m'. mon_reachable plain_codec m \<and> ''agent'' \<in> set (mon_streams m) \<and> \<not> mon_locked m \<and>
     Stream_begin plain_codec None (Some (TCPAddr ''10.0.0.2'')) ''agent'' Agent m =
       Some (Fail (Status AlreadyExists ''A client with the same identity is already connected''), m')"
proof -
  have "map_option (\<lambda>m. (mon_streams m, mon_locked m)) (monitor_after monitor_events) = Some ([''agent''], False)" by code_simp
  then obtain m where m: "monitor_after monitor_events = Some m" "mon_streams m = [''agent'']" "\<not> mon_locked m" by auto
  have r: "mon_reachable plain_codec m" by (rule monitor_after_reachable [OF m(1)])
  from duplicate_provider_stops_monitor [OF plain_codec_ok r, of "''agent''" "TCPAddr ''10.0.0.2''" Agent] m r
  show ?thesis by auto
qed

end
