(* ===== verification/CompileTasks.thy ===== *)
theory CompileTasks
  imports ArgsRewrite ToolchainStore
begin

text \<open>
  The tasks that run a compiler and the request managers of the C toolchains:
  \<open>src/pkg/util/errors.go\<close>, \<open>src/pkg/run/errors.go\<close>, \<open>src/pkg/run/store.go\<close>, \<open>src/pkg/run/command.go\<close>,
  \<open>src/pkg/cc/compile.go\<close>, \<open>src/pkg/cc/preprocess.go\<close> and \<open>src/pkg/cc/controller\<close>. The operating
  system (processes and files) is a parameter, and so is the client that sends a request to the
  scheduler. Cancellation of a running process is not modelled.
\<close>

section \<open>Errors of tasks\<close>

datatype task_error = Compiler_Error string | Plain_Error go_error

definition NewCompilerError :: "string \<Rightarrow> task_error" where
  "NewCompilerError text = Compiler_Error text"

fun IsCompilerError :: "task_error \<Rightarrow> bool" where
  "IsCompilerError (Compiler_Error _) = True"
| "IsCompilerError (Plain_Error _) = False"

definition ErrNoAgentsRetry :: go_error where
  "ErrNoAgentsRetry = Error ''No agents available to handle the request; retrying''"

definition ErrNoAgentsRunLocal :: go_error where
  "ErrNoAgentsRunLocal = Error ''No agents available to handle the request; running locally''"

text \<open>\<open>NullableError\<close>: reading an error that was never set panics.\<close>

record NullableError =
  ne_isSet :: bool
  ne_err :: "task_error option"

definition SetErr :: "task_error option \<Rightarrow> NullableError" where
  "SetErr err = \<lparr>ne_isSet = True, ne_err = err\<rparr>"

definition ne_Err :: "NullableError \<Rightarrow> task_error option outcome" where
  "ne_Err ae = (if \<not> ne_isSet ae then Panic else Return (ne_err ae))"

definition AnalyzeErrors :: "string \<Rightarrow> go_error option" where
  "AnalyzeErrors msg =
     (if Contains msg ''collect2'' \<or> Contains msg ''undefined reference''
      then Some (Error ''*** BUG! Linker invoked on remote agent ***'') else None)"

section \<open>Runners of toolchains\<close>

type_synonym 'r ToolchainRunnerStore = "(ToolchainKind \<times> 'r) list"

definition NewToolchainRunnerStore :: "'r ToolchainRunnerStore" where
  "NewToolchainRunnerStore = []"

definition runner_Add :: "ToolchainKind \<Rightarrow> 'r \<Rightarrow> 'r ToolchainRunnerStore \<Rightarrow> 'r ToolchainRunnerStore outcome" where
  "runner_Add kind runner s = (if map_of s kind \<noteq> None then Panic else Return ((kind, runner) # s))"

definition runner_Get :: "ToolchainKind \<Rightarrow> 'r ToolchainRunnerStore \<Rightarrow> 'r option" where
  "runner_Get kind s = map_of s kind"

text \<open>\<open>AddToStore\<close> of the C toolchains.\<close>

definition AddToStore :: "'r \<Rightarrow> 'r ToolchainRunnerStore \<Rightarrow> 'r ToolchainRunnerStore outcome" where
  "AddToStore runner s =
     (case runner_Add Gnu runner s of Return s1 \<Rightarrow> runner_Add Clang runner s1 | Fail e \<Rightarrow> Fail e | Panic \<Rightarrow> Panic)"

section \<open>Operating system\<close>

record command =
  cmd_exe :: string
  cmd_args :: "string list"
  cmd_env :: "string list"
  cmd_dir :: string
  cmd_stdin :: bytes
  cmd_user :: "(int \<times> int) option"

record process =
  proc_start :: "go_error option"
  proc_wait :: "go_error option"
  proc_stdout :: bytes
  proc_stderr :: bytes

record system =
  sys_exec :: "command \<Rightarrow> process"
  sys_stat :: "string \<Rightarrow> go_error option"
  sys_mkdir :: "string \<Rightarrow> go_error option"
  sys_CreateTemp :: "string \<Rightarrow> string \<Rightarrow> string outcome"
  sys_MkdirTemp :: "string \<Rightarrow> string outcome"
  sys_write :: "string \<Rightarrow> bytes \<Rightarrow> go_error option"
  sys_ReadFile :: "string \<Rightarrow> bytes outcome"

definition PreferredTempDirectory :: string where
  "PreferredTempDirectory = ''/tmp''"

definition TopLevelTempDir :: "system \<Rightarrow> string outcome" where
  "TopLevelTempDir sys =
     (let dir = Join [PreferredTempDirectory, ''kubecc-build'']
      in if sys_stat sys dir \<noteq> None
         then (case sys_mkdir sys dir of Some e \<Rightarrow> Fail e | None \<Rightarrow> Return dir)
         else Return dir)"

section \<open>Tasks\<close>

record TaskOptions =
  to_Env :: "string list"
  to_WorkDir :: string
  to_Stdin :: bytes
  to_UID :: int
  to_GID :: int
  to_NoTempFile :: bool
  to_Output :: bool           \<comment> \<open>an \<open>OutputWriter\<close> is set\<close>

record task_result =
  tr_err :: NullableError
  tr_ap :: ArgParser
  tr_output :: bytes          \<comment> \<open>written to the \<open>OutputWriter\<close>\<close>
  tr_stdout :: bytes
  tr_stderr :: bytes

definition task_failed :: "task_error \<Rightarrow> ArgParser \<Rightarrow> process option \<Rightarrow> task_result" where
  "task_failed e ap p =
     \<lparr>tr_err = SetErr (Some e), tr_ap = ap, tr_output = [],
      tr_stdout = (case p of Some q \<Rightarrow> proc_stdout q | None \<Rightarrow> []), tr_stderr = (case p of Some q \<Rightarrow> proc_stderr q | None \<Rightarrow> [])\<rparr>"

text \<open>The first part of \<open>compileTask.Run\<close>: a temporary file takes the place of the output.\<close>

definition replace_output :: "system \<Rightarrow> TaskOptions \<Rightarrow> ArgParser \<Rightarrow> ((task_error \<times> ArgParser) + (string \<times> ArgParser)) outcome" where
  "replace_output sys opts ap =
     (if ap_OutputArgIndex ap \<noteq> -1 \<and> \<not> to_NoTempFile opts then
        (case index (ap_Args ap) (ap_OutputArgIndex ap) of
           None \<Rightarrow> Panic
         | Some out \<Rightarrow>
             (let ext = (if Ext out = [] \<and> out = ''-'' then ''.o'' else Ext out)
              in case TopLevelTempDir sys of
                   Fail e \<Rightarrow> Return (Inl (Plain_Error e, ap))
                 | Panic \<Rightarrow> Panic
                 | Return dir \<Rightarrow>
                     (case sys_CreateTemp sys dir (''kubecc_*'' @ ext) of
                        Fail e \<Rightarrow> Return (Inl (Plain_Error e, ap))
                      | Panic \<Rightarrow> Panic
                      | Return tmp \<Rightarrow>
                          (case ReplaceOutputPath tmp ap of
                             Return ap' \<Rightarrow> Return (Inr (tmp, ap'))
                           | Fail e \<Rightarrow> Return (Inl (Plain_Error e, ap))
                           | Panic \<Rightarrow> Panic))))
      else Return (Inr ([], ap)))"

definition compileTask_Run :: "system \<Rightarrow> Toolchain \<Rightarrow> TaskOptions \<Rightarrow> ArgParser \<Rightarrow> task_result outcome" where
  "compileTask_Run sys tc opts ap0 =
     (case replace_output sys opts ap0 of
        Panic \<Rightarrow> Panic
      | Fail e \<Rightarrow> Fail e
      | Return (Inl (e, ap)) \<Rightarrow> Return (task_failed e ap None)
      | Return (Inr (tmp, ap)) \<Rightarrow>
          (let p = sys_exec sys \<lparr>cmd_exe = tc_Executable tc, cmd_args = ap_Args ap, cmd_env = to_Env opts, cmd_dir = to_WorkDir opts,
                                 cmd_stdin = to_Stdin opts, cmd_user = None\<rparr>
           in case proc_start p of
                Some e \<Rightarrow> Return (task_failed (Plain_Error e) ap None)
              | None \<Rightarrow>
                  (case proc_wait p of
                     Some _ \<Rightarrow> Return (task_failed (NewCompilerError (proc_stderr p)) ap (Some p))
                   | None \<Rightarrow>
                       Return \<lparr>tr_err = SetErr None, tr_ap = ap,
                               tr_output = (if to_Output opts \<and> \<not> to_NoTempFile opts then tmp else []),
                               tr_stdout = proc_stdout p, tr_stderr = proc_stderr p\<rparr>)))"

text \<open>\<open>preprocessTask.Run\<close>: the output goes to the standard output, and the deferred call puts the
  path of the output back.\<close>

definition preprocessTask_Run :: "system \<Rightarrow> Toolchain \<Rightarrow> TaskOptions \<Rightarrow> ArgParser \<Rightarrow> task_result outcome" where
  "preprocessTask_Run sys tc opts ap0 =
     (let start = (if ap_OutputArgIndex ap0 \<noteq> -1
                   then (case index (ap_Args ap0) (ap_OutputArgIndex ap0) of
                           None \<Rightarrow> Panic
                         | Some old \<Rightarrow> (case ReplaceOutputPath ''-'' ap0 of
                             Return ap1 \<Rightarrow> Return (Some old, ap1) | Fail _ \<Rightarrow> Return (Some old, ap0) | Panic \<Rightarrow> Panic))
                   else Return (None, ap0))
      in case start of
           Panic \<Rightarrow> Panic
         | Fail e \<Rightarrow> Fail e
         | Return (old, ap) \<Rightarrow>
             (let p = sys_exec sys \<lparr>cmd_exe = tc_Executable tc, cmd_args = ap_Args ap, cmd_env = to_Env opts, cmd_dir = to_WorkDir opts,
                                    cmd_stdin = [], cmd_user = Some (to_UID opts, to_GID opts)\<rparr>;
                  ap' = (case old of
                           None \<Rightarrow> ap
                         | Some path \<Rightarrow> (case ReplaceOutputPath path ap of Return ap2 \<Rightarrow> ap2 | _ \<Rightarrow> ap))
              in case proc_start p of
                   Some e \<Rightarrow> Return (task_failed (Plain_Error e) ap' None)
                 | None \<Rightarrow>
                     (case proc_wait p of
                        Some _ \<Rightarrow> Return ((task_failed (NewCompilerError (proc_stderr p)) ap' (Some p))\<lparr>tr_stdout := [], tr_output := proc_stdout p\<rparr>)
                      | None \<Rightarrow> Return \<lparr>tr_err = SetErr None, tr_ap = ap', tr_output = proc_stdout p, tr_stdout = [],
                                        tr_stderr = proc_stderr p\<rparr>)))"

text \<open>\<open>ExecCommandTask.Run\<close>.\<close>

definition ExecCommandTask_Run :: "system \<Rightarrow> Toolchain \<Rightarrow> string list \<Rightarrow> TaskOptions \<Rightarrow> NullableError" where
  "ExecCommandTask_Run sys tc args opts =
     (let p = sys_exec sys \<lparr>cmd_exe = tc_Executable tc, cmd_args = args, cmd_env = to_Env opts, cmd_dir = to_WorkDir opts,
                            cmd_stdin = to_Stdin opts, cmd_user = None\<rparr>
      in case proc_start p of
           Some e \<Rightarrow> SetErr (Some (Plain_Error e))
         | None \<Rightarrow> (case proc_wait p of Some e \<Rightarrow> SetErr (Some (Plain_Error e)) | None \<Rightarrow> SetErr None))"

section \<open>Request managers\<close>

record RunRequest =
  rr_Path :: string
  rr_Toolchain :: "Toolchain option"
  rr_Args :: "string list"
  rr_Env :: "string list"
  rr_UID :: int
  rr_GID :: int
  rr_Stdin :: bytes
  rr_WorkDir :: string

record RunResponse =
  rs_ReturnCode :: int
  rs_Stdout :: bytes
  rs_Stderr :: bytes

fun error_of :: "task_error \<Rightarrow> go_error" where
  "error_of (Plain_Error e) = e"
| "error_of (Compiler_Error t) = Error t"

definition compiler_failed :: "task_error option \<Rightarrow> bool" where
  "compiler_failed err = (case err of Some e \<Rightarrow> IsCompilerError e | None \<Rightarrow> False)"

text \<open>\<open>localRunnerManager.Process\<close>.\<close>

definition local_Process :: "system \<Rightarrow> Toolchain \<Rightarrow> RunRequest \<Rightarrow> ArgParser \<Rightarrow> RunResponse outcome" where
  "local_Process sys tc req ap =
     (case compileTask_Run sys tc \<lparr>to_Env = rr_Env req, to_WorkDir = rr_WorkDir req, to_Stdin = rr_Stdin req, to_UID = rr_UID req,
                                   to_GID = rr_GID req, to_NoTempFile = True, to_Output = False\<rparr> ap of
        Panic \<Rightarrow> Panic
      | Fail e \<Rightarrow> Fail e
      | Return r \<Rightarrow>
          (case ne_Err (tr_err r) of
             Panic \<Rightarrow> Panic
           | Fail e \<Rightarrow> Fail e
           | Return err \<Rightarrow>
               if compiler_failed err then Return \<lparr>rs_ReturnCode = 1, rs_Stdout = tr_stdout r, rs_Stderr = tr_stderr r\<rparr>
               else (case err of
                       Some e \<Rightarrow> Fail (error_of e)
                     | None \<Rightarrow> Return \<lparr>rs_ReturnCode = 0, rs_Stdout = tr_stdout r, rs_Stderr = tr_stderr r\<rparr>)))"

text \<open>\<open>runPreprocessor\<close>: the source, or the response to give back.\<close>

definition runPreprocessor :: "system \<Rightarrow> Toolchain \<Rightarrow> RunRequest \<Rightarrow> ArgParser \<Rightarrow> ((RunResponse + bytes) \<times> ArgParser) outcome" where
  "runPreprocessor sys tc req ap =
     (case preprocessTask_Run sys tc \<lparr>to_Env = rr_Env req, to_WorkDir = rr_WorkDir req, to_Stdin = [], to_UID = rr_UID req,
                                      to_GID = rr_GID req, to_NoTempFile = False, to_Output = True\<rparr> ap of
        Panic \<Rightarrow> Panic
      | Fail e \<Rightarrow> Fail e
      | Return r \<Rightarrow>
          (case ne_Err (tr_err r) of
             Panic \<Rightarrow> Panic
           | Fail e \<Rightarrow> Fail e
           | Return (Some _) \<Rightarrow> Return (Inl \<lparr>rs_ReturnCode = 1, rs_Stdout = tr_stdout r, rs_Stderr = tr_stderr r\<rparr>, tr_ap r)
           | Return None \<Rightarrow> Return (Inr (tr_output r), tr_ap r)))"

text \<open>A call whose error is ignored.\<close>

definition ignoring :: "('a \<Rightarrow> 'a outcome) \<Rightarrow> 'a \<Rightarrow> 'a outcome" where
  "ignoring f x = (case f x of Fail _ \<Rightarrow> Return x | r \<Rightarrow> r)"

text \<open>\<open>sendRemoteRunnerManager.Process\<close> up to the remote call: a response or error at once, or the
  request to send with the path of the output.\<close>

definition send_prepare ::
    "system \<Rightarrow> Toolchain \<Rightarrow> string \<Rightarrow> RunRequest \<Rightarrow> ArgParser \<Rightarrow> (RunResponse + (CompileRequest \<times> string)) outcome" where
  "send_prepare sys tc requestID req ap0 =
     (case ignoring ConfigurePreprocessorOptions ap0 of Panic \<Rightarrow> Panic | Fail e \<Rightarrow> Fail e | Return ap1 \<Rightarrow>
     (let opt = GetActionOpt ap1 in
      case ignoring (SetActionOpt Preprocess) ap1 of Panic \<Rightarrow> Panic | Fail e \<Rightarrow> Fail e | Return ap2 \<Rightarrow>
     (case runPreprocessor sys tc req ap2 of Panic \<Rightarrow> Panic | Fail e \<Rightarrow> Fail e
      | Return (Inl errResp, _) \<Rightarrow> Return (Inl errResp)
      | Return (Inr preprocessedSource, ap3) \<Rightarrow>
     (case ignoring (SetActionOpt opt) ap3 of Panic \<Rightarrow> Panic | Fail e \<Rightarrow> Fail e | Return ap4 \<Rightarrow>
     (case index (ap_Args ap4) (ap_OutputArgIndex ap4) of
        None \<Rightarrow> Fail (Status InvalidArgument ''No output path given'')
      | Some out \<Rightarrow>
     (let outputPath = (if IsAbs out then out else Join [rr_WorkDir req, out]) in
      case ignoring RemoveLocalArgs ap4 of Panic \<Rightarrow> Panic | Fail e \<Rightarrow> Fail e | Return ap5 \<Rightarrow>
     (case ignoring (PrependExplicitPICArgs (tc_PicDefault tc) (tc_PieDefault tc)) ap5 of Panic \<Rightarrow> Panic | Fail e \<Rightarrow> Fail e | Return ap6 \<Rightarrow>
        Return (Inr (\<lparr>cr_RequestID = requestID, cr_Toolchain = Some tc, cr_Args = ap_Args ap6,
                      cr_PreprocessedSource = preprocessedSource, cr_ManagedFields = None\<rparr>, outputPath)))))))))"

text \<open>The rest of \<open>Process\<close>: what is written to the output and what is returned.\<close>

definition error_data :: "CompileResponse \<Rightarrow> string" where
  "error_data resp = (case cs_Data resp of D_Error e \<Rightarrow> e | _ \<Rightarrow> [])"

definition source_data :: "CompileResponse \<Rightarrow> bytes" where
  "source_data resp = (case cs_Data resp of D_CompiledSource d \<Rightarrow> d | _ \<Rightarrow> [])"

definition retry_data :: "CompileResponse \<Rightarrow> RetryAction" where
  "retry_data resp = (case cs_Data resp of D_RetryAction a \<Rightarrow> a | _ \<Rightarrow> Retry_Unknown)"

definition bad_response :: "RunResponse outcome" where
  "bad_response = Fail (Status Internal ''Bad response from server'')"

definition send_finish :: "system \<Rightarrow> string \<Rightarrow> CompileResponse \<Rightarrow> RunResponse outcome \<times> (string \<times> bytes) option" where
  "send_finish sys outputPath resp =
     (case cs_CompileResult resp of
        Res_Success \<Rightarrow>
          (case sys_write sys outputPath (source_data resp) of
             Some e \<Rightarrow> (Fail e, None)
           | None \<Rightarrow> (Return \<lparr>rs_ReturnCode = 0, rs_Stdout = [], rs_Stderr = error_data resp\<rparr>, Some (outputPath, source_data resp)))
      | Res_Fail \<Rightarrow>
          (if AnalyzeErrors (error_data resp) \<noteq> None then Fail (Status Internal ''Internal error'')
           else Return \<lparr>rs_ReturnCode = 1, rs_Stdout = [], rs_Stderr = error_data resp\<rparr>, None)
      | Res_Retry \<Rightarrow>
          (case retry_data resp of Retry \<Rightarrow> Fail ErrNoAgentsRetry | DoNotRetry \<Rightarrow> Fail ErrNoAgentsRunLocal | _ \<Rightarrow> bad_response, None)
      | _ \<Rightarrow> (bad_response, None))"

definition send_Process ::
    "system \<Rightarrow> (CompileRequest \<Rightarrow> CompileResponse outcome) \<Rightarrow> Toolchain \<Rightarrow> string \<Rightarrow> RunRequest \<Rightarrow> ArgParser \<Rightarrow>
     RunResponse outcome \<times> (string \<times> bytes) option" where
  "send_Process sys client tc requestID req ap =
     (case send_prepare sys tc requestID req ap of
        Panic \<Rightarrow> (Panic, None)
      | Fail e \<Rightarrow> (Fail e, None)
      | Return (Inl resp) \<Rightarrow> (Return resp, None)
      | Return (Inr (creq, outputPath)) \<Rightarrow>
          (case client creq of
             Panic \<Rightarrow> (Panic, None)
           | Fail e \<Rightarrow> (Fail e, None)
           | Return resp \<Rightarrow> send_finish sys outputPath resp))"

text \<open>\<open>recvRemoteRunnerManager.Process\<close>, on the agent.\<close>

definition internal_error :: "go_error \<Rightarrow> 'a outcome" where
  "internal_error e = Fail (Status Internal (error_text e))"

definition recv_Process :: "system \<Rightarrow> Toolchain \<Rightarrow> CompileRequest \<Rightarrow> CompileResponse outcome" where
  "recv_Process sys tc req =
     (case Parse (NewArgParser (cr_Args req)) of Panic \<Rightarrow> Panic | Fail e \<Rightarrow> Fail e | Return ap \<Rightarrow>
     (case index (ap_Args ap) (ap_InputArgIndex ap) of None \<Rightarrow> Panic | Some inputFilename \<Rightarrow>
     (case TopLevelTempDir sys of Panic \<Rightarrow> Panic | Fail e \<Rightarrow> Fail e | Return topLevelDir \<Rightarrow>
     (case sys_MkdirTemp sys topLevelDir of Panic \<Rightarrow> Panic | Fail e \<Rightarrow> Fail e | Return tmpDir \<Rightarrow>
     (let tmp = Join [tmpDir, Base inputFilename] in
      case sys_write sys tmp (cr_PreprocessedSource req) of Some e \<Rightarrow> internal_error e | None \<Rightarrow>
     (case ReplaceInputPath tmp ap of Panic \<Rightarrow> Panic | Fail e \<Rightarrow> internal_error e | Return ap1 \<Rightarrow>
     (case compileTask_Run sys tc \<lparr>to_Env = [], to_WorkDir = [], to_Stdin = [], to_UID = 0, to_GID = 0, to_NoTempFile = False,
                                   to_Output = True\<rparr> ap1 of Panic \<Rightarrow> Panic | Fail e \<Rightarrow> Fail e | Return r \<Rightarrow>
     (case ne_Err (tr_err r) of Panic \<Rightarrow> Panic | Fail e \<Rightarrow> Fail e
      | Return (Some (Compiler_Error _)) \<Rightarrow>
          Return \<lparr>cs_RequestID = cr_RequestID req, cs_CompileResult = Res_Fail, cs_CpuSecondsUsed = 0, cs_Data = D_Error (tr_stderr r)\<rparr>
      | Return (Some (Plain_Error e)) \<Rightarrow> internal_error e
      | Return None \<Rightarrow>
     (case sys_ReadFile sys (tr_output r) of Panic \<Rightarrow> Panic | Fail e \<Rightarrow> internal_error e | Return data \<Rightarrow>
        if data = [] then Fail (Status Internal ''Compiled object is empty'')
        else Return \<lparr>cs_RequestID = cr_RequestID req, cs_CompileResult = Res_Success, cs_CpuSecondsUsed = 0,
                     cs_Data = D_CompiledSource data\<rparr>)))))))))"

section \<open>Lemmas\<close>

lemma task_err_set [simp]: "ne_Err (SetErr e) = Return e"
  by (simp add: ne_Err_def SetErr_def)

text \<open>Every path through a task sets its error, so the managers never read an unset one.\<close>

lemma task_failed_err [simp]: "tr_err (task_failed e ap p) = SetErr (Some e)"
  by (simp add: task_failed_def)

lemma compileTask_sets_err: "compileTask_Run sys tc opts ap = Return r \<Longrightarrow> ne_isSet (tr_err r)"
  by (auto simp: compileTask_Run_def Let_def SetErr_def split: outcome.splits sum.splits option.splits)

lemma preprocessTask_sets_err: "preprocessTask_Run sys tc opts ap = Return r \<Longrightarrow> ne_isSet (tr_err r)"
  by (auto simp: preprocessTask_Run_def Let_def SetErr_def split: outcome.splits sum.splits option.splits if_splits)

text \<open>The preprocessor leaves the arguments as they were.\<close>

lemma index_update_back:
  assumes "index xs i = Some x"
  shows "(xs[nat i := y])[nat i := x] = xs" and "index (xs[nat i := y]) i = Some y"
  using assms by (auto simp: index_def split: if_splits)

lemma preprocess_command:
  assumes "index (ap_Args ap) (ap_OutputArgIndex ap) = Some old"
  shows "\<exists>r. preprocessTask_Run sys tc opts ap = Return r \<and> tr_ap r = ap \<and>
    (let p = sys_exec sys \<lparr>cmd_exe = tc_Executable tc, cmd_args = (ap_Args ap)[nat (ap_OutputArgIndex ap) := ''-''], cmd_env = to_Env opts,
               cmd_dir = to_WorkDir opts, cmd_stdin = [], cmd_user = Some (to_UID opts, to_GID opts)\<rparr>
     in proc_start p = None \<longrightarrow> proc_wait p = None \<longrightarrow> tr_err r = SetErr None \<and> tr_output r = proc_stdout p)"
proof -
  have i: "ap_OutputArgIndex ap \<noteq> -1" using assms by (auto simp: index_def split: if_splits)
  let ?ap1 = "ap\<lparr>ap_Args := (ap_Args ap)[nat (ap_OutputArgIndex ap) := ''-'']\<rparr>"
  have r: "ReplaceOutputPath ''-'' ap = Return ?ap1" using assms i by (simp add: ReplaceOutputPath_def)
  have "ReplaceOutputPath old ?ap1 = Return ap"
    using i index_update_back [OF assms, of "''-''"] by (simp add: ReplaceOutputPath_def)
  with r i assms show ?thesis
    by (auto simp: preprocessTask_Run_def Let_def task_failed_def split: option.splits)
qed

text \<open>Changing the action back and forth.\<close>

definition only_action :: "ActionOpt \<Rightarrow> nat \<Rightarrow> ArgParser \<Rightarrow> bool" where
  "only_action opt i ap \<longleftrightarrow> IsActionOpt opt \<and> i < length (ap_Args ap) \<and> ap_Args ap ! i = opt \<and>
     (\<forall>f. IsActionOpt f \<longrightarrow> map_of (ap_FlagIndexMap ap) f = (if f = opt then Some i else None))"

lemma only_action_flags:
  assumes "only_action opt i ap"
  shows "opt = Compile \<or> opt = GenAssembly \<or> opt = Preprocess"
    and "map_of (ap_FlagIndexMap ap) Compile = (if Compile = opt then Some i else None)"
    and "map_of (ap_FlagIndexMap ap) GenAssembly = (if GenAssembly = opt then Some i else None)"
    and "map_of (ap_FlagIndexMap ap) Preprocess = (if Preprocess = opt then Some i else None)"
proof -
  have "IsActionOpt Compile" "IsActionOpt GenAssembly" "IsActionOpt Preprocess" by (simp_all add: IsActionOpt_def)
  with assms show "map_of (ap_FlagIndexMap ap) Compile = (if Compile = opt then Some i else None)"
    "map_of (ap_FlagIndexMap ap) GenAssembly = (if GenAssembly = opt then Some i else None)"
    "map_of (ap_FlagIndexMap ap) Preprocess = (if Preprocess = opt then Some i else None)"
    unfolding only_action_def by metis+
  show "opt = Compile \<or> opt = GenAssembly \<or> opt = Preprocess"
    using assms unfolding only_action_def IsActionOpt_def [of opt] by metis
qed

lemma only_action_get: "only_action opt i ap \<Longrightarrow> GetActionOpt ap = opt"
  using only_action_flags [of opt i ap] action_distinct unfolding GetActionOpt_def by auto

lemma only_action_set:
  assumes "only_action old i ap" and "IsActionOpt opt"
  obtains ap' where "SetActionOpt opt ap = Return ap'" "only_action opt i ap'" "ap_Args ap' = (ap_Args ap)[i := opt]"
    "ap_Mode ap' = ap_Mode ap" "ap_OutputArgIndex ap' = ap_OutputArgIndex ap"
proof -
  let ?ap = "ap\<lparr>ap_Args := (ap_Args ap)[i := opt], ap_FlagIndexMap := AList.update opt i (AList.delete old (ap_FlagIndexMap ap))\<rparr>"
  have "replace_action opt i old ap = Return ?ap" using assms(1) by (simp add: replace_action_def only_action_def)
  moreover have "SetActionOpt opt ap = replace_action opt i old ap"
    using only_action_flags [OF assms(1)] action_distinct unfolding SetActionOpt_def by auto
  moreover have "only_action opt i ?ap"
    using assms unfolding only_action_def by (auto simp: update_conv' delete_conv')
  ultimately show thesis using that by simp
qed

lemma rewrites_from_args:
  assumes "ap_Args ap = ap_Args ap'" and "ap_Mode ap = ap_Mode ap'"
  shows "RemoveLocalArgs ap = RemoveLocalArgs ap'"
  using assms by (simp add: RemoveLocalArgs_def Parse_def)

lemma index_update: "index xs j \<noteq> None \<Longrightarrow> index (xs[i := x]) j \<noteq> None"
  by (auto simp: index_def split: if_splits)

definition preprocess_cmd :: "Toolchain \<Rightarrow> RunRequest \<Rightarrow> nat \<Rightarrow> ArgParser \<Rightarrow> command" where
  "preprocess_cmd tc req i ap =
     \<lparr>cmd_exe = tc_Executable tc, cmd_args = ((ap_Args ap)[i := Preprocess])[nat (ap_OutputArgIndex ap) := ''-''],
      cmd_env = rr_Env req, cmd_dir = rr_WorkDir req, cmd_stdin = [], cmd_user = Some (rr_UID req, rr_GID req)\<rparr>"

text \<open>What the agent did when it answers with an object: a file of the output's name took the place of the
  output, and its content is the object.\<close>

definition compile_cmd :: "Toolchain \<Rightarrow> TaskOptions \<Rightarrow> ArgParser \<Rightarrow> command" where
  "compile_cmd tc opts ap =
     \<lparr>cmd_exe = tc_Executable tc, cmd_args = ap_Args ap, cmd_env = to_Env opts, cmd_dir = to_WorkDir opts,
      cmd_stdin = to_Stdin opts, cmd_user = None\<rparr>"

definition agent_options :: TaskOptions where
  "agent_options = \<lparr>to_Env = [], to_WorkDir = [], to_Stdin = [], to_UID = 0, to_GID = 0, to_NoTempFile = False, to_Output = True\<rparr>"

definition succeeds :: "process \<Rightarrow> bool" where
  "succeeds p \<longleftrightarrow> proc_start p = None \<and> proc_wait p = None"

lemma replace_output_file:
  assumes "replace_output sys opts ap = Return (Inr (tmp, ap'))" and "tmp \<noteq> []"
  shows "ReplaceOutputPath tmp ap = Return ap'"
  using assms by (auto simp: replace_output_def Let_def split: if_splits option.splits outcome.splits)

lemma compileTask_success:
  assumes "compileTask_Run sys tc opts ap = Return r" and "ne_Err (tr_err r) = Return None" and "tr_output r \<noteq> []"
  shows "ReplaceOutputPath (tr_output r) ap = Return (tr_ap r) \<and> succeeds (sys_exec sys (compile_cmd tc opts (tr_ap r)))"
  using assms
  by (auto simp: compileTask_Run_def compile_cmd_def succeeds_def Let_def replace_output_file [of sys opts ap]
      split: outcome.splits sum.splits option.splits if_splits)

lemma recv_Process_success:
  assumes "recv_Process sys tc req = Return resp" and "cs_CompileResult resp = Res_Success"
    and named: "\<And>d. sys_ReadFile sys [] \<noteq> Return d"
  obtains pa src pb obj pc data where
    "Parse (NewArgParser (cr_Args req)) = Return pa" "sys_write sys src (cr_PreprocessedSource req) = None"
    "ReplaceInputPath src pa = Return pb" "ReplaceOutputPath obj pb = Return pc"
    "succeeds (sys_exec sys (compile_cmd tc agent_options pc))"
    "sys_ReadFile sys obj = Return data" "data \<noteq> []" "cs_Data resp = D_CompiledSource data"
proof -
  from assms(1,2) obtain pa src pb r data where
    p: "Parse (NewArgParser (cr_Args req)) = Return pa" "sys_write sys src (cr_PreprocessedSource req) = None"
    "ReplaceInputPath src pa = Return pb" and t: "compileTask_Run sys tc agent_options pb = Return r" "ne_Err (tr_err r) = Return None"
    and d: "sys_ReadFile sys (tr_output r) = Return data" "data \<noteq> []" "cs_Data resp = D_CompiledSource data"
    by (auto simp: recv_Process_def internal_error_def agent_options_def Let_def
        split: outcome.splits option.splits task_error.splits if_splits)
  have "tr_output r \<noteq> []" using named d(1) by metis
  from compileTask_success [OF t this] show thesis using that p d by blast
qed

text \<open>An object is written exactly when the request ends with code 0.\<close>

lemma send_Process_written:
  assumes "send_Process sys client tc requestID req ap = (Return r, w)"
  shows "rs_ReturnCode r = 0 \<longleftrightarrow> w \<noteq> None"
  using assms
  by (auto simp: send_Process_def send_prepare_def send_finish_def runPreprocessor_def bad_response_def Let_def
      split: outcome.splits sum.splits option.splits prod.splits CompileResult.splits RetryAction.splits if_splits)

lemma send_prepare_toolchain: "send_prepare sys tc requestID req ap = Return (Inr (creq, path)) \<Longrightarrow> cr_Toolchain creq = Some tc"
  by (auto simp: send_prepare_def Let_def split: outcome.splits sum.splits option.splits prod.splits)

lemma send_Process_success:
  assumes "send_Process sys client tc requestID req ap = (Return r, Some (path, data))"
  obtains creq resp where "send_prepare sys tc requestID req ap = Return (Inr (creq, path))" "client creq = Return resp"
    "cs_CompileResult resp = Res_Success" "data = source_data resp" "sys_write sys path data = None"
  using assms
  by (auto simp: send_Process_def send_finish_def bad_response_def
      split: outcome.splits sum.splits option.splits prod.splits CompileResult.splits RetryAction.splits if_splits)

section \<open>Properties\<close>

text \<open>C14: preprocessing leaves no trace in the request. For a command with one action and an output
  path, the preprocessor runs with the action replaced by \<open>-E\<close> and the output by the standard output;
  when it succeeds, the request that is sent carries its output, and the arguments are those that
  removing the local options and adding the PIC options gives for the command as it was before, with
  its own action and output path, under which the result is to be written.\<close>

theorem send_request_args:
  assumes "ConfigurePreprocessorOptions ap0 = Return ap1" and one: "only_action act i ap1"
    and out: "index (ap_Args ap1) (ap_OutputArgIndex ap1) = Some out"
    and ok: "proc_start (sys_exec sys (preprocess_cmd tc req i ap1)) = None" "proc_wait (sys_exec sys (preprocess_cmd tc req i ap1)) = None"
    and "RemoveLocalArgs ap1 = Return ap2" and "PrependExplicitPICArgs (tc_PicDefault tc) (tc_PieDefault tc) ap2 = Return ap3"
  shows "send_prepare sys tc requestID req ap0 =
    Return (Inr (\<lparr>cr_RequestID = requestID, cr_Toolchain = Some tc, cr_Args = ap_Args ap3,
      cr_PreprocessedSource = proc_stdout (sys_exec sys (preprocess_cmd tc req i ap1)), cr_ManagedFields = None\<rparr>,
      if IsAbs out then out else Join [rr_WorkDir req, out]))"
proof -
  have "IsActionOpt Preprocess" "IsActionOpt act" using one by (auto simp: IsActionOpt_def only_action_def)
  then obtain a where a: "SetActionOpt Preprocess ap1 = Return a" "only_action Preprocess i a" "ap_Args a = (ap_Args ap1)[i := Preprocess]"
    "ap_Mode a = ap_Mode ap1" "ap_OutputArgIndex a = ap_OutputArgIndex ap1" using only_action_set [OF one] by metis
  obtain b where b: "SetActionOpt act a = Return b" "ap_Args b = (ap_Args a)[i := act]" "ap_Mode b = ap_Mode a"
    "ap_OutputArgIndex b = ap_OutputArgIndex a" using only_action_set [OF a(2) \<open>IsActionOpt act\<close>] by metis
  have same: "ap_Args b = ap_Args ap1" using one unfolding b(2) a(3) only_action_def by auto
  have "index (ap_Args a) (ap_OutputArgIndex a) \<noteq> None" using index_update [of "ap_Args ap1" "ap_OutputArgIndex ap1"] out a by simp
  then obtain old where "index (ap_Args a) (ap_OutputArgIndex a) = Some old" by blast
  from preprocess_command [OF this, of sys tc "\<lparr>to_Env = rr_Env req, to_WorkDir = rr_WorkDir req, to_Stdin = [], to_UID = rr_UID req,
      to_GID = rr_GID req, to_NoTempFile = False, to_Output = True\<rparr>"]
  have "runPreprocessor sys tc req a = Return (Inr (proc_stdout (sys_exec sys (preprocess_cmd tc req i ap1))), a)"
    using ok unfolding runPreprocessor_def preprocess_cmd_def a(3,5) [symmetric] by (auto simp: Let_def)
  moreover have "RemoveLocalArgs b = Return ap2" using rewrites_from_args [of b ap1] same a b assms(6) by simp
  moreover have "index (ap_Args b) (ap_OutputArgIndex b) = Some out" using out same a(5) b(4) by simp
  ultimately show ?thesis
    using assms(1,7) a(1) b(1) only_action_get [OF one] by (simp add: send_prepare_def ignoring_def)
qed

definition sample_system :: system where
  "sample_system =
     \<lparr>sys_exec = (\<lambda>c. \<lparr>proc_start = None, proc_wait = None, proc_stdout = concat (cmd_args c), proc_stderr = []\<rparr>),
      sys_stat = (\<lambda>_. None), sys_mkdir = (\<lambda>_. None), sys_CreateTemp = (\<lambda>d p. Return (d @ p)), sys_MkdirTemp = (\<lambda>d. Return d),
      sys_write = (\<lambda>_ _. None), sys_ReadFile = (\<lambda>p. Return p)\<rparr>"

definition sample_request :: RunRequest where
  "sample_request = \<lparr>rr_Path = ''/bin/gcc'', rr_Toolchain = None, rr_Args = [], rr_Env = [], rr_UID = 1, rr_GID = 1, rr_Stdin = [],
     rr_WorkDir = ''/src''\<rparr>"

theorem send_request_args_witness:
  "send_prepare sample_system (gcc ''/bin/gcc'') ''id'' sample_request (NewArgParser [''-c'', ''-DX'', ''a.c'']) =
    Return (Inr (\<lparr>cr_RequestID = ''id'', cr_Toolchain = Some (gcc ''/bin/gcc''), cr_Args = [''-fPIC'', ''-c'', ''a.c'', ''-o'', ''a.o''],
      cr_PreprocessedSource = concat [''-E'', ''-DX'', ''a.c'', ''-o'', ''-''], cr_ManagedFields = None\<rparr>, ''/src/a.o''))"
proof -
  let ?ap = "NewArgParser [''-c'', ''-DX'', ''a.c'']"
  let ?ap1 = "\<lparr>ap_Args = [''-c'', ''-DX'', ''a.c'', ''-o'', ''a.o''], ap_Mode = RunRemote, ap_InputArgIndex = 2, ap_OutputArgIndex = 4, ap_FlagIndexMap = [(''-c'', 0)]\<rparr>"
  let ?ap2 = "\<lparr>ap_Args = [''-c'', ''a.c'', ''-o'', ''a.o''], ap_Mode = RunRemote, ap_InputArgIndex = 1, ap_OutputArgIndex = 3, ap_FlagIndexMap = [(''-c'', 0), (''-o'', 2)]\<rparr>"
  let ?ap3 = "\<lparr>ap_Args = [''-fPIC'', ''-c'', ''a.c'', ''-o'', ''a.o''], ap_Mode = RunRemote, ap_InputArgIndex = 2, ap_OutputArgIndex = 4, ap_FlagIndexMap = [(''-fPIC'', 0), (''-c'', 1), (''-o'', 3)]\<rparr>"
  have c: "ConfigurePreprocessorOptions ?ap = Return ?ap1" by code_simp
  have one: "only_action Compile 0 ?ap1" by (auto simp: only_action_def actions)
  have out: "index (ap_Args ?ap1) (ap_OutputArgIndex ?ap1) = Some ''a.o''" by (simp add: index_def)
  have r: "RemoveLocalArgs ?ap1 = Return ?ap2" by code_simp
  have p: "PrependExplicitPICArgs (tc_PicDefault (gcc ''/bin/gcc'')) (tc_PieDefault (gcc ''/bin/gcc'')) ?ap2 = Return ?ap3" by code_simp
  have cmd: "cmd_args (preprocess_cmd (gcc ''/bin/gcc'') sample_request 0 ?ap1) = [''-E'', ''-DX'', ''a.c'', ''-o'', ''-'']" by code_simp
  have path: "(if IsAbs ''a.o'' then ''a.o'' else Join [rr_WorkDir sample_request, ''a.o'']) = ''/src/a.o''" by code_simp
  have ok: "proc_start (sys_exec sample_system c) = None" "proc_wait (sys_exec sample_system c) = None"
    "proc_stdout (sys_exec sample_system c) = concat (cmd_args c)" for c by (simp_all add: sample_system_def)
  from send_request_args [OF c one out ok(1,2) r p, where req = sample_request and requestID = "''id''"]
  show ?thesis unfolding ok(3) cmd path by simp
qed

end
