(* ===== verification/AgentServer.thy ===== *)
theory AgentServer
  imports Transitions CompileTasks Status Strconv Floats
begin

text \<open>
  \<open>src/pkg/agent/server.go\<close> with the limits of \<open>src/pkg/host/sysfs.go\<close> and \<open>limits.go\<close> and the
  metadata of \<open>src/pkg/toolchains/metadata.go\<close>: the agent receives compile requests on its stream,
  runs each in a goroutine of its own and sends the response back.
\<close>

section \<open>Limits of the host\<close>

definition cgroupDir :: string where
  "cgroupDir = ''/sys/fs/cgroup''"

text \<open>\<open>Fail\<close>: the file cannot be read. A file without a number panics.\<close>

definition readInt64 :: "(string \<Rightarrow> bytes option) \<Rightarrow> string \<Rightarrow> int outcome" where
  "readInt64 readFile path =
     (case readFile (Join [cgroupDir, path]) of
        None \<Rightarrow> Fail (Error ''read'')
      | Some data \<Rightarrow> (case ParseInt (TrimSpace data) of Some v \<Rightarrow> Return v | None \<Rightarrow> Panic))"

definition CfsQuota :: "(string \<Rightarrow> bytes option) \<Rightarrow> int \<Rightarrow> int outcome" where
  "CfsQuota readFile numCPU =
     (case readInt64 readFile ''cpu/cpu.cfs_quota_us'' of Fail _ \<Rightarrow> Return numCPU | r \<Rightarrow> r)"

definition CfsPeriod :: "(string \<Rightarrow> bytes option) \<Rightarrow> int outcome" where
  "CfsPeriod readFile = (case readInt64 readFile ''cpu/cpu.cfs_period_us'' of Fail _ \<Rightarrow> Return 1 | r \<Rightarrow> r)"

text \<open>The ceiling of the quotient, at least one; a quotient that is not finite has no integer value.\<close>

definition AutoConcurrentProcessLimit :: "(string \<Rightarrow> bytes option) \<Rightarrow> int \<Rightarrow> int outcome" where
  "AutoConcurrentProcessLimit readFile numCPU =
     (case CfsPeriod readFile of Panic \<Rightarrow> Panic | Fail e \<Rightarrow> Fail e | Return period \<Rightarrow>
     (case CfsQuota readFile numCPU of Panic \<Rightarrow> Panic | Fail e \<Rightarrow> Fail e | Return quota \<Rightarrow>
        if quota < 0 then Return numCPU
        else (case fdiv quota period of
                Fin r \<Rightarrow> Return (max 1 \<lceil>r\<rceil>)
              | _ \<Rightarrow> Fail (Error ''int32 of a value that is not finite''))))"

lemma AutoConcurrentProcessLimit_pos:
  assumes "AutoConcurrentProcessLimit readFile numCPU = Return n" and "numCPU \<ge> 1"
  shows "n \<ge> 1"
  using assms by (auto simp: AutoConcurrentProcessLimit_def split: outcome.splits go_float.splits if_splits)

section \<open>Toolchains in the metadata of a call\<close>

definition toolchainsKey :: string where
  "toolchainsKey = ''kubecc-toolchains-metadata-key-bin''"

type_synonym metadata = "(string \<times> bytes list) list"

definition CreateMetadata :: "(Toolchain list \<Rightarrow> bytes) \<Rightarrow> Toolchain list \<Rightarrow> metadata" where
  "CreateMetadata marshal tcs = [(toolchainsKey, [marshal tcs])]"

definition FromIncomingContext :: "(bytes \<Rightarrow> Toolchain list option) \<Rightarrow> metadata option \<Rightarrow> Toolchain list outcome" where
  "FromIncomingContext unmarshal incoming =
     (case incoming of
        None \<Rightarrow> Fail (Error ''No metadata in incoming context'')
      | Some md \<Rightarrow>
          (case (case map_of md toolchainsKey of None \<Rightarrow> [] | Some vs \<Rightarrow> vs) of
             [] \<Rightarrow> Fail (Error ''No toolchains in context'')
           | data # _ \<Rightarrow> (case unmarshal data of Some tcs \<Rightarrow> Return tcs | None \<Rightarrow> Fail (Error ''Could not unmarshal proto data''))))"

lemma metadata_round_trip:
  "unmarshal (marshal tcs) = Some tcs \<Longrightarrow> FromIncomingContext unmarshal (Some (CreateMetadata marshal tcs)) = Return tcs"
  by (simp add: FromIncomingContext_def CreateMetadata_def)

section \<open>State of the agent\<close>

datatype agent_metric =
    AM_UsageLimits int
  | AM_TaskStatus int
  | AM_Toolchains "Toolchain list"

record agent_task =
  at_request :: CompileRequest
  at_counted :: bool

record 'q AgentServer =
  as_status :: StatusController
  as_tcStore :: "'q Store"
  as_runStore :: "unit ToolchainRunnerStore"
  as_usageLimit :: int
  as_running :: int
  as_tasks :: "agent_task list"
  as_received :: "CompileRequest list"
  as_answered :: "CompileResponse list"     \<comment> \<open>responses given to \<open>SendMsg\<close>\<close>
  as_posted :: "agent_metric list"

definition NewAgentServer ::
    "'q host \<Rightarrow> (string \<Rightarrow> bytes option) \<Rightarrow> int \<Rightarrow> unit ToolchainRunnerStore \<Rightarrow> 'q Store list \<Rightarrow> int \<Rightarrow> 'q AgentServer outcome" where
  "NewAgentServer h readFile numCPU runStore found usageLimit =
     (case (if usageLimit = -1 then AutoConcurrentProcessLimit readFile numCPU else Return usageLimit) of
        Panic \<Rightarrow> Panic
      | Fail e \<Rightarrow> Fail e
      | Return limit \<Rightarrow>
          Return \<lparr>as_status = EndInitialize (BeginInitialize 0), as_tcStore = Aggregate h found, as_runStore = runStore,
                  as_usageLimit = limit, as_running = 0, as_tasks = [], as_received = [], as_answered = [], as_posted = []\<rparr>)"

definition agent_Post :: "agent_metric \<Rightarrow> 'q AgentServer \<Rightarrow> 'q AgentServer" where
  "agent_Post x s = s\<lparr>as_posted := as_posted s @ [x]\<rparr>"

definition agent_postUsageLimits :: "'q AgentServer \<Rightarrow> 'q AgentServer" where
  "agent_postUsageLimits s = agent_Post (AM_UsageLimits (as_usageLimit s)) s"

definition agent_postTaskStatus :: "'q AgentServer \<Rightarrow> 'q AgentServer" where
  "agent_postTaskStatus s = agent_Post (AM_TaskStatus (as_running s)) s"

definition agent_postToolchains :: "'q AgentServer \<Rightarrow> 'q AgentServer" where
  "agent_postToolchains s = agent_Post (AM_Toolchains (store_Items (as_tcStore s))) s"

section \<open>Compiling\<close>

definition makeInternalErr :: "CompileRequest \<Rightarrow> string \<Rightarrow> CompileResponse" where
  "makeInternalErr req err =
     \<lparr>cs_RequestID = cr_RequestID req, cs_CompileResult = Res_InternalError, cs_CpuSecondsUsed = 0, cs_Data = D_Error err\<rparr>"

text \<open>\<open>compile\<close> after the check of the context: the counter is raised meanwhile.\<close>

definition agent_compile :: "system \<Rightarrow> CompileRequest \<Rightarrow> 'q AgentServer \<Rightarrow> CompileResponse outcome" where
  "agent_compile sys req s =
     (case cr_Toolchain req of
        None \<Rightarrow> Panic
      | Some remote \<Rightarrow>
          (case runner_Get (tc_Kind remote) (as_runStore s) of
             None \<Rightarrow> Return (makeInternalErr req ''No toolchain runner available'')
           | Some _ \<Rightarrow>
               (case TryMatch remote (as_tcStore s) of
                  Panic \<Rightarrow> Panic
                | Fail e \<Rightarrow> Return (makeInternalErr req (error_text e))
                | Return tc \<Rightarrow>
                    (case recv_Process sys tc (req\<lparr>cr_Toolchain := Some tc\<rparr>) of
                       Panic \<Rightarrow> Panic
                     | Fail e \<Rightarrow> Return (makeInternalErr req (error_text e))
                     | Return resp \<Rightarrow> Return resp))))"

section \<open>The stream of tasks\<close>

text \<open>\<open>HandleStream\<close> receives a request and starts a goroutine; the goroutine checks the context and is
  counted, and ends with the response.\<close>

datatype agent_event =
    A_Recv CompileRequest
  | A_Begin nat "go_error option"
  | A_End nat
  | A_Metrics

definition task_begin :: "nat \<Rightarrow> go_error option \<Rightarrow> 'q AgentServer \<Rightarrow> 'q AgentServer option" where
  "task_begin i metaErr s =
     (if i < length (as_tasks s) \<and> \<not> at_counted (as_tasks s ! i) then
        (case metaErr of
           Some e \<Rightarrow>
             Some (s\<lparr>as_tasks := take i (as_tasks s) @ drop (Suc i) (as_tasks s),
                     as_answered := as_answered s @ [makeInternalErr (at_request (as_tasks s ! i)) (error_text e)]\<rparr>)
         | None \<Rightarrow> Some (s\<lparr>as_tasks := (as_tasks s)[i := (as_tasks s ! i)\<lparr>at_counted := True\<rparr>], as_running := as_running s + 1\<rparr>))
      else None)"

definition task_end :: "system \<Rightarrow> nat \<Rightarrow> 'q AgentServer \<Rightarrow> 'q AgentServer option" where
  "task_end sys i s =
     (if i < length (as_tasks s) \<and> at_counted (as_tasks s ! i) then
        (case agent_compile sys (at_request (as_tasks s ! i)) s of
           Return resp \<Rightarrow>
             Some (s\<lparr>as_tasks := take i (as_tasks s) @ drop (Suc i) (as_tasks s), as_running := as_running s - 1,
                     as_answered := as_answered s @ [resp]\<rparr>)
         | _ \<Rightarrow> None)
      else None)"

fun agent_step :: "system \<Rightarrow> agent_event \<Rightarrow> 'q AgentServer \<Rightarrow> 'q AgentServer option" where
  "agent_step sys (A_Recv req) s =
     Some (s\<lparr>as_tasks := as_tasks s @ [\<lparr>at_request = req, at_counted = False\<rparr>], as_received := as_received s @ [req]\<rparr>)"
| "agent_step sys (A_Begin i e) s = task_begin i e s"
| "agent_step sys (A_End i) s = task_end sys i s"
| "agent_step sys A_Metrics s = Some (agent_postToolchains (agent_postUsageLimits (agent_postTaskStatus s)))"

inductive agent_reachable :: "system \<Rightarrow> 'q AgentServer \<Rightarrow> bool" for sys where
  agent_init: "NewAgentServer h readFile numCPU runStore found limit = Return s \<Longrightarrow> agent_reachable sys s"
| agent_next: "agent_reachable sys s \<Longrightarrow> agent_step sys ev s = Some s' \<Longrightarrow> agent_reachable sys s'"

abbreviation agent_run :: "system \<Rightarrow> agent_event list \<Rightarrow> 'q AgentServer \<Rightarrow> 'q AgentServer option" where
  "agent_run sys \<equiv> run_events (agent_step sys)"

interpretation agent_sys: transition_system "agent_step sys" "\<lambda>s. \<exists>h readFile numCPU runStore found limit. NewAgentServer h readFile numCPU runStore found limit = Return s" "agent_reachable sys" for sys
proof (unfold_locales, goal_cases)
  case (3 s P)
  then show ?case by (induction rule: agent_reachable.induct) blast+
qed (auto intro: agent_init agent_next)

lemmas agent_run_reachable = agent_sys.run_reach

section \<open>Every request is answered under its own id\<close>

lemma recv_Process_id: "recv_Process sys tc req = Return resp \<Longrightarrow> cs_RequestID resp = cr_RequestID req"
  by (auto simp: recv_Process_def internal_error_def Let_def split: outcome.splits option.splits task_error.splits if_splits)

lemma agent_compile_id: "agent_compile sys req s = Return resp \<Longrightarrow> cs_RequestID resp = cr_RequestID req"
  by (auto simp: agent_compile_def makeInternalErr_def dest: recv_Process_id split: outcome.splits option.splits)

text \<open>An object that the agent returns was compiled by a toolchain of its store that matches the one of the
  request.\<close>

lemma agent_compile_success:
  assumes "agent_compile sys req s = Return resp" and "cs_CompileResult resp = Res_Success"
  obtains remote tc where "cr_Toolchain req = Some remote" "tc \<in> set (store_Items (as_tcStore s))" "EquivalentTo tc remote"
    "recv_Process sys tc (req\<lparr>cr_Toolchain := Some tc\<rparr>) = Return resp"
  using assms by (auto simp: agent_compile_def makeInternalErr_def dest: TryMatch_sound split: outcome.splits option.splits)

definition agent_inv :: "'q AgentServer \<Rightarrow> bool" where
  "agent_inv s \<longleftrightarrow>
     as_running s = int (length (filter at_counted (as_tasks s))) \<and>
     mset (map cr_RequestID (as_received s)) =
       mset (map (cr_RequestID \<circ> at_request) (as_tasks s)) + mset (map cs_RequestID (as_answered s))"

lemma mset_remove_at: "i < length xs \<Longrightarrow> mset xs = add_mset (xs ! i) (mset (take i xs @ drop (Suc i) xs))"
  by (subst id_take_nth_drop [of i xs]) auto

lemma filter_remove_at:
  "i < length xs \<Longrightarrow> length (filter P xs) = length (filter P (take i xs @ drop (Suc i) xs)) + (if P (xs ! i) then 1 else 0)"
  by (subst id_take_nth_drop [of i xs]) auto

lemma task_removed:
  assumes "agent_inv s" "i < length (as_tasks s)" "cs_RequestID resp = cr_RequestID (at_request (as_tasks s ! i))"
    "n = as_running s - (if at_counted (as_tasks s ! i) then 1 else 0)"
  shows "agent_inv (s\<lparr>as_tasks := take i (as_tasks s) @ drop (Suc i) (as_tasks s), as_running := n, as_answered := as_answered s @ [resp]\<rparr>)"
proof -
  let ?f = "cr_RequestID \<circ> at_request" and ?ts = "take i (as_tasks s) @ drop (Suc i) (as_tasks s)"
  have "mset (map ?f (as_tasks s)) = add_mset (?f (as_tasks s ! i)) (mset (map ?f ?ts))"
    using mset_remove_at [OF assms(2)] by (metis image_mset_add_mset mset_map)
  then show ?thesis using assms(1,3,4) filter_remove_at [OF assms(2), of at_counted] by (simp add: agent_inv_def)
qed

lemma agent_step_inv:
  assumes "agent_inv s" "agent_step sys ev s = Some s'"
  shows "agent_inv s'"
proof (cases ev)
  case (A_Begin i e)
  show ?thesis
  proof (cases e)
    case None
    let ?ts = "(as_tasks s)[i := (as_tasks s ! i)\<lparr>at_counted := True\<rparr>]"
    have i: "i < length (as_tasks s)" "\<not> at_counted (as_tasks s ! i)" and s': "s' = s\<lparr>as_tasks := ?ts, as_running := as_running s + 1\<rparr>"
      using assms(2) A_Begin None by (auto simp: task_begin_def split: if_splits)
    have "map (cr_RequestID \<circ> at_request) ?ts = map (cr_RequestID \<circ> at_request) (as_tasks s)"
      using i by (simp add: map_update list_update_same_conv)
    moreover have "length (filter at_counted ?ts) = length (filter at_counted (as_tasks s)) + 1"
      using i filter_remove_at [of i ?ts at_counted] filter_remove_at [of i "as_tasks s" at_counted] by simp
    ultimately show ?thesis using assms(1) unfolding s' agent_inv_def by simp
  next
    case (Some err)
    then have i: "i < length (as_tasks s)" "\<not> at_counted (as_tasks s ! i)"
      and s': "s' = s\<lparr>as_tasks := take i (as_tasks s) @ drop (Suc i) (as_tasks s),
        as_answered := as_answered s @ [makeInternalErr (at_request (as_tasks s ! i)) (error_text err)]\<rparr>"
      using assms(2) A_Begin by (auto simp: task_begin_def split: if_splits)
    from task_removed [OF assms(1) i(1), of "makeInternalErr (at_request (as_tasks s ! i)) (error_text err)" "as_running s"] i(2)
    show ?thesis unfolding s' by (simp add: makeInternalErr_def)
  qed
next
  case (A_End i)
  then obtain resp where i: "i < length (as_tasks s)" "at_counted (as_tasks s ! i)" and c: "agent_compile sys (at_request (as_tasks s ! i)) s = Return resp"
    and s': "s' = s\<lparr>as_tasks := take i (as_tasks s) @ drop (Suc i) (as_tasks s), as_running := as_running s - 1, as_answered := as_answered s @ [resp]\<rparr>"
    using assms(2) by (auto simp: task_end_def split: if_splits outcome.splits)
  from task_removed [OF assms(1) i(1) agent_compile_id [OF c], of "as_running s - 1"] i(2) show ?thesis unfolding s' by simp
qed (use assms in \<open>auto simp: agent_inv_def agent_postToolchains_def agent_postUsageLimits_def agent_postTaskStatus_def agent_Post_def\<close>)

lemma agent_reachable_inv: "agent_reachable sys s \<Longrightarrow> agent_inv s"
proof (induction rule: agent_reachable.induct)
  case (agent_init h readFile numCPU runStore found limit s)
  then show ?case by (auto simp: NewAgentServer_def agent_inv_def split: outcome.splits)
qed (rule agent_step_inv)

section \<open>Properties\<close>

text \<open>C17: the agent answers every request once and under its own id. In every reachable state the ids of
  the requests it received are those of the tasks still running and of the responses it gave, as often
  as they were received, whatever the outcome of the compilation, and the number of running tasks it
  reports is the number of goroutines that passed the check of the context and have not ended.\<close>

theorem agent_answers:
  assumes "agent_reachable sys s"
  shows "mset (map cr_RequestID (as_received s)) =
      mset (map (cr_RequestID \<circ> at_request) (as_tasks s)) + mset (map cs_RequestID (as_answered s)) \<and>
    as_posted (agent_postTaskStatus s) = as_posted s @ [AM_TaskStatus (int (length (filter at_counted (as_tasks s))))]"
  using agent_reachable_inv [OF assms] by (simp add: agent_inv_def agent_postTaskStatus_def agent_Post_def)

definition sample_compile :: "string \<Rightarrow> CompileRequest" where
  "sample_compile i = \<lparr>cr_RequestID = i, cr_Toolchain = Some (gcc ''/bin/gcc''), cr_Args = [''-c'', ''a.c''], cr_PreprocessedSource = ''int x;'',
     cr_ManagedFields = None\<rparr>"

definition sample_store :: "unit Store" where
  "sample_store = (case store_Add sample_host ''/bin/gcc'' () NewStore of (_, s) \<Rightarrow> s)"

definition sample_agent :: "unit AgentServer outcome" where
  "sample_agent = NewAgentServer sample_host (\<lambda>_. None) 4 [(Gnu, ())] [sample_store] (-1)"

definition agent_events :: "agent_event list" where
  "agent_events = [A_Recv (sample_compile ''1''), A_Recv (sample_compile ''2''), A_Begin 0 None, A_End 0]"

theorem agent_answers_witness:
  "\<exists>s s' :: unit AgentServer. sample_agent = Return s \<and> agent_run sample_system agent_events s = Some s' \<and>
     map cs_RequestID (as_answered s') = [''1''] \<and>
     mset (map cr_RequestID (as_received s')) = mset (map (cr_RequestID \<circ> at_request) (as_tasks s')) + mset [''1'']"
proof -
  have "(case sample_agent of Return s \<Rightarrow> map_option (map cs_RequestID \<circ> as_answered) (agent_run sample_system agent_events s) | _ \<Rightarrow> None) = Some [''1'']"
    by code_simp
  then obtain s s' where s: "sample_agent = Return s" "agent_run sample_system agent_events s = Some s'" "map cs_RequestID (as_answered s') = [''1'']"
    by (auto split: outcome.splits)
  have "agent_reachable sample_system s" using s(1) unfolding sample_agent_def by (rule agent_init)
  from agent_answers [OF agent_run_reachable [OF this s(2)]] s show ?thesis by auto
qed

end
