(* ===== verification/Clients.thy ===== *)
theory Clients
  imports Transitions Types Status
begin

text \<open>
  \<open>src/pkg/clients\<close>: the availability checker, the stream manager with its reconnects, the client that
  sends compile requests to the scheduler, and the queues of the metrics providers. Goroutines are
  steps; the streams of gRPC and the timers are events.
\<close>

section \<open>Availability\<close>

text \<open>\<open>AvailabilityChecker\<close>. A context given out by \<open>EnsureAvailable\<close> is canceled when its goroutine
  sees the component unavailable; \<open>av_present\<close> records the components for which
  \<open>OnComponentAvailable\<close> is running.\<close>

record AvailabilityChecker =
  av_available :: bool
  av_contexts :: "bool list"              \<comment> \<open>\<open>True\<close>: canceled\<close>
  av_present :: "string list"

definition NewAvailabilityChecker :: AvailabilityChecker where
  "NewAvailabilityChecker = \<lparr>av_available = False, av_contexts = [], av_present = []\<rparr>"

definition ComponentFilter :: "Component list \<Rightarrow> Component \<Rightarrow> bool" where
  "ComponentFilter cs c = (c \<in> set cs)"

definition EnsureAvailable :: "AvailabilityChecker \<Rightarrow> (nat \<times> AvailabilityChecker) option" where
  "EnsureAvailable rsm =
     (if av_available rsm then Some (length (av_contexts rsm), rsm\<lparr>av_contexts := av_contexts rsm @ [False]\<rparr>) else None)"

definition watch_context :: "nat \<Rightarrow> AvailabilityChecker \<Rightarrow> AvailabilityChecker option" where
  "watch_context i rsm =
     (if i < length (av_contexts rsm) \<and> \<not> av_available rsm then Some (rsm\<lparr>av_contexts := (av_contexts rsm)[i := True]\<rparr>) else None)"

definition OnComponentAvailable_begin :: "(Component \<Rightarrow> bool) \<Rightarrow> string \<Rightarrow> Component \<Rightarrow> AvailabilityChecker \<Rightarrow> AvailabilityChecker" where
  "OnComponentAvailable_begin keep uuid c rsm =
     (if \<not> keep c then rsm else rsm\<lparr>av_available := True, av_present := uuid # av_present rsm\<rparr>)"

definition OnComponentAvailable_end :: "string \<Rightarrow> AvailabilityChecker \<Rightarrow> AvailabilityChecker option" where
  "OnComponentAvailable_end uuid rsm =
     (if uuid \<in> set (av_present rsm) then Some (rsm\<lparr>av_available := False, av_present := remove1 uuid (av_present rsm)\<rparr>) else None)"

text \<open>\<open>WatchAvailability\<close>: a component is looked up before it is reported.\<close>

definition WatchAvailability ::
    "(Component \<Rightarrow> bool) \<Rightarrow> (string \<Rightarrow> Component outcome) \<Rightarrow> string \<Rightarrow> AvailabilityChecker \<Rightarrow> AvailabilityChecker" where
  "WatchAvailability keep whois uuid rsm =
     (case whois uuid of Return c \<Rightarrow> OnComponentAvailable_begin keep uuid c rsm | _ \<Rightarrow> rsm)"

text \<open>Available means that some component is present; the converse fails with two of them.\<close>

lemma available_present:
  "av_available rsm \<longrightarrow> av_present rsm \<noteq> [] \<Longrightarrow>
     av_available (OnComponentAvailable_begin keep u c rsm) \<longrightarrow> av_present (OnComponentAvailable_begin keep u c rsm) \<noteq> []"
  by (simp add: OnComponentAvailable_begin_def)

lemma one_leaves_other_stays:
  "\<exists>rsm. OnComponentAvailable_end ''a''
       (OnComponentAvailable_begin (ComponentFilter [Scheduler]) ''b'' Scheduler
         (OnComponentAvailable_begin (ComponentFilter [Scheduler]) ''a'' Scheduler NewAvailabilityChecker)) = Some rsm \<and>
     av_present rsm = [''b''] \<and> \<not> av_available rsm"
  by (simp add: OnComponentAvailable_end_def OnComponentAvailable_begin_def ComponentFilter_def NewAvailabilityChecker_def)

section \<open>Stream manager\<close>

datatype StatusCtrlKind = Optional | Required

datatype manager_state = Connecting | Handling | Backing_Off | Stopped

record StreamManager =
  sm_state :: manager_state
  sm_kind :: "StatusCtrlKind option"        \<comment> \<open>\<open>None\<close>: no status controller\<close>
  sm_target :: string
  sm_status :: StatusController
  sm_cond :: nat                            \<comment> \<open>the context of the last condition\<close>
  sm_canceled :: bool                       \<comment> \<open>it is canceled\<close>
  sm_next :: nat

definition applyCondition :: "StreamManager \<Rightarrow> StreamManager" where
  "applyCondition sm =
     (let c = sm_next sm; sm1 = sm\<lparr>sm_cond := c, sm_canceled := False, sm_next := c + 1\<rparr>
      in case sm_kind sm of
           None \<Rightarrow> sm1
         | Some k \<Rightarrow>
             sm1\<lparr>sm_status := ApplyCondition c
               (case k of Optional \<Rightarrow> MissingOptionalComponent | Required \<Rightarrow> MissingCriticalComponent)
               [''Attempting to connect to '' @ sm_target sm] (sm_status sm)\<rparr>)"

definition cancelCond :: "StreamManager \<Rightarrow> StreamManager" where
  "cancelCond sm = sm\<lparr>sm_canceled := True, sm_status := ClearCondition (sm_cond sm) (sm_status sm)\<rparr>"

text \<open>\<open>Run\<close>: its start, a failed and a successful connect, the end of the stream, the end of a
  back-off. The deferred call cancels the condition on return.\<close>

definition sm_start :: "StatusCtrlKind option \<Rightarrow> string \<Rightarrow> StatusController \<Rightarrow> nat \<Rightarrow> StreamManager" where
  "sm_start kind target st ctx =
     applyCondition \<lparr>sm_state = Connecting, sm_kind = kind, sm_target = target, sm_status = st, sm_cond = ctx, sm_canceled = True, sm_next = ctx\<rparr>"

definition sm_stop :: "StreamManager \<Rightarrow> StreamManager" where
  "sm_stop sm = (cancelCond sm)\<lparr>sm_state := Stopped\<rparr>"

definition reapply :: "StreamManager \<Rightarrow> StreamManager" where
  "reapply sm = (if sm_canceled sm then applyCondition sm else sm)"

definition connect_failed :: "bool \<Rightarrow> StreamManager \<Rightarrow> StreamManager option" where
  "connect_failed ctxCanceled sm =
     (if sm_state sm \<noteq> Connecting then None
      else if ctxCanceled then Some (sm_stop sm)
      else Some ((reapply sm)\<lparr>sm_state := Backing_Off\<rparr>))"

definition connected :: "StreamManager \<Rightarrow> StreamManager option" where
  "connected sm = (if sm_state sm \<noteq> Connecting then None else Some ((cancelCond sm)\<lparr>sm_state := Handling\<rparr>))"

definition stream_done :: "bool \<Rightarrow> bool \<Rightarrow> StreamManager \<Rightarrow> StreamManager option" where
  "stream_done err ctxCanceled sm =
     (if sm_state sm \<noteq> Handling then None
      else let sm1 = reapply sm in
        if \<not> err then Some (sm_stop sm1)
        else if ctxCanceled then Some (sm_stop sm1)
        else Some (sm1\<lparr>sm_state := Backing_Off\<rparr>))"

text \<open>\<open>waitBackoff\<close> ends with its timer, with \<open>TryImmediately\<close>, or with the context.\<close>

definition waitBackoff_done :: "StreamManager \<Rightarrow> StreamManager option" where
  "waitBackoff_done sm = (if sm_state sm = Backing_Off then Some (sm\<lparr>sm_state := Connecting\<rparr>) else None)"

definition TryImmediately :: "StreamManager \<Rightarrow> StreamManager" where
  "TryImmediately sm = (case waitBackoff_done sm of Some sm' \<Rightarrow> sm' | None \<Rightarrow> sm)"

datatype manager_event = SM_Failed bool | SM_Connected | SM_Done bool bool | SM_Backoff | SM_TryImmediately

fun sm_step :: "manager_event \<Rightarrow> StreamManager \<Rightarrow> StreamManager option" where
  "sm_step (SM_Failed c) sm = connect_failed c sm"
| "sm_step SM_Connected sm = connected sm"
| "sm_step (SM_Done err c) sm = stream_done err c sm"
| "sm_step SM_Backoff sm = waitBackoff_done sm"
| "sm_step SM_TryImmediately sm = Some (TryImmediately sm)"

inductive sm_reachable :: "StreamManager \<Rightarrow> bool" where
  sm_init: "\<forall>c\<ge>ctx. map_of (sc_conditions st) c = None \<Longrightarrow> sm_reachable (sm_start kind target st ctx)"
| sm_next: "sm_reachable sm \<Longrightarrow> sm_step ev sm = Some sm' \<Longrightarrow> sm_reachable sm'"

interpretation manager_sys: transition_system sm_step
  "\<lambda>sm. \<exists>ctx st kind target. (\<forall>c\<ge>ctx. map_of (sc_conditions st) c = None) \<and> sm = sm_start kind target st ctx" sm_reachable
proof (unfold_locales, goal_cases)
  case (3 s P)
  then show ?case by (induction rule: sm_reachable.induct) blast+
qed (auto intro: sm_init sm_next)

text \<open>The condition is active exactly while the manager has no stream.\<close>

definition sm_inv :: "StreamManager \<Rightarrow> bool" where
  "sm_inv sm \<longleftrightarrow>
     (sm_canceled sm \<longleftrightarrow> sm_state sm = Handling \<or> sm_state sm = Stopped) \<and> sm_cond sm < sm_next sm \<and>
     (map_of (sc_conditions (sm_status sm)) (sm_cond sm) \<noteq> None \<longleftrightarrow> \<not> sm_canceled sm \<and> sm_kind sm \<noteq> None) \<and>
     (\<forall>c\<ge>sm_next sm. map_of (sc_conditions (sm_status sm)) c = None)"

lemma sm_step_inv:
  assumes "sm_inv sm" "sm_step ev sm = Some sm'"
  shows "sm_inv sm'"
  using assms
  by (cases ev) (auto simp: sm_inv_def connect_failed_def connected_def stream_done_def waitBackoff_done_def TryImmediately_def sm_stop_def
      cancelCond_def reapply_def applyCondition_def ApplyCondition_def ClearCondition_def update_conv' delete_conv' Let_def
      split: if_splits option.splits)

lemma sm_start_inv: "\<forall>c\<ge>ctx. map_of (sc_conditions st) c = None \<Longrightarrow> sm_inv (sm_start kind target st ctx)"
  by (cases kind) (auto simp: sm_inv_def sm_start_def applyCondition_def ApplyCondition_def update_conv' Let_def)

lemma sm_reachable_inv: "sm_reachable sm \<Longrightarrow> sm_inv sm"
  by (erule manager_sys.invariant) (auto intro: sm_start_inv sm_step_inv)

section \<open>Client for compile requests\<close>

datatype call_state = Sent_Call | Waiting_Call | Done_Call "CompileResponse outcome"

record CompileRequestClient =
  rc_stream :: bool
  rc_calls :: "(string \<times> call_state) list"
  rc_pending :: "string list"
  rc_crashed :: bool               \<comment> \<open>a send on a closed channel\<close>

definition ErrStreamNotReady :: go_error where
  "ErrStreamNotReady = Error ''Stream is not ready yet''"

definition NewCompileRequestClient :: "bool \<Rightarrow> CompileRequestClient" where
  "NewCompileRequestClient stream = \<lparr>rc_stream = stream, rc_calls = [], rc_pending = [], rc_crashed = False\<rparr>"

definition LoadNewStream :: "bool \<Rightarrow> CompileRequestClient \<Rightarrow> CompileRequestClient" where
  "LoadNewStream stream rc = rc\<lparr>rc_stream := stream\<rparr>"

definition set_call :: "string \<Rightarrow> call_state \<Rightarrow> CompileRequestClient \<Rightarrow> CompileRequestClient" where
  "set_call i c rc = rc\<lparr>rc_calls := AList.update i c (rc_calls rc)\<rparr>"

text \<open>\<open>Compile\<close>: the send, the registration of its channel, and the end of its context, which closes
  the channel. Ids of requests are fresh UUIDs.\<close>

definition Compile_send :: "go_error option \<Rightarrow> string \<Rightarrow> CompileRequestClient \<Rightarrow> CompileRequestClient option" where
  "Compile_send sendErr i rc =
     (if map_of (rc_calls rc) i \<noteq> None then None
      else if \<not> rc_stream rc then Some (set_call i (Done_Call (Fail ErrStreamNotReady)) rc)
      else case sendErr of
             Some e \<Rightarrow> Some (set_call i (Done_Call (Fail e)) rc)
           | None \<Rightarrow> Some (set_call i Sent_Call rc))"

definition Compile_store :: "string \<Rightarrow> CompileRequestClient \<Rightarrow> CompileRequestClient option" where
  "Compile_store i rc =
     (if map_of (rc_calls rc) i = Some Sent_Call
      then Some ((set_call i Waiting_Call rc)\<lparr>rc_pending := i # rc_pending rc\<rparr>) else None)"

definition Compile_cancel :: "go_error \<Rightarrow> string \<Rightarrow> CompileRequestClient \<Rightarrow> CompileRequestClient option" where
  "Compile_cancel err i rc =
     (if map_of (rc_calls rc) i = Some Waiting_Call then Some (set_call i (Done_Call (Fail err)) rc) else None)"

text \<open>A send of \<open>recvWorker\<close> on the channel of a call.\<close>

definition deliver :: "CompileResponse outcome \<Rightarrow> string \<Rightarrow> CompileRequestClient \<Rightarrow> CompileRequestClient" where
  "deliver r i rc =
     (if map_of (rc_calls rc) i = Some Waiting_Call then set_call i (Done_Call r) rc else rc\<lparr>rc_crashed := True\<rparr>)"

definition recv_response :: "CompileResponse \<Rightarrow> CompileRequestClient \<Rightarrow> CompileRequestClient" where
  "recv_response resp rc =
     (let i = cs_RequestID resp
      in if i \<in> set (rc_pending rc) then deliver (Return resp) i (rc\<lparr>rc_pending := removeAll i (rc_pending rc)\<rparr>) else rc)"

definition recv_error :: "go_error \<Rightarrow> CompileRequestClient \<Rightarrow> CompileRequestClient" where
  "recv_error err rc = (fold (deliver (Fail err)) (rc_pending rc) (rc\<lparr>rc_pending := []\<rparr>))\<lparr>rc_stream := False\<rparr>"

datatype client_event =
    RC_Load
  | RC_Send "go_error option" string
  | RC_Store string
  | RC_Cancel go_error string
  | RC_Response CompileResponse
  | RC_Error go_error

fun rc_step :: "client_event \<Rightarrow> CompileRequestClient \<Rightarrow> CompileRequestClient option" where
  "rc_step RC_Load rc = Some (LoadNewStream True rc)"
| "rc_step (RC_Send e i) rc = Compile_send e i rc"
| "rc_step (RC_Store i) rc = Compile_store i rc"
| "rc_step (RC_Cancel e i) rc = Compile_cancel e i rc"
| "rc_step (RC_Response r) rc = (if rc_stream rc then Some (recv_response r rc) else None)"
| "rc_step (RC_Error e) rc = (if rc_stream rc then Some (recv_error e rc) else None)"

text \<open>A crash ends the process.\<close>

definition rc_live_step :: "client_event \<Rightarrow> CompileRequestClient \<Rightarrow> CompileRequestClient option" where
  "rc_live_step ev rc = (if rc_crashed rc then None else rc_step ev rc)"

abbreviation rc_run :: "client_event list \<Rightarrow> CompileRequestClient \<Rightarrow> CompileRequestClient option" where
  "rc_run \<equiv> run_events rc_live_step"

inductive rc_reachable :: "CompileRequestClient \<Rightarrow> bool" where
  rc_init: "rc_reachable (NewCompileRequestClient stream)"
| rc_next: "rc_reachable rc \<Longrightarrow> rc_live_step ev rc = Some rc' \<Longrightarrow> rc_reachable rc'"

interpretation client_sys: transition_system rc_live_step "\<lambda>rc. \<exists>stream. rc = NewCompileRequestClient stream" rc_reachable
proof (unfold_locales, goal_cases)
  case (3 s P)
  then show ?case by (induction rule: rc_reachable.induct) blast+
qed (auto intro: rc_init rc_next)

lemmas rc_run_reachable = client_sys.run_reach

definition rc_inv :: "CompileRequestClient \<Rightarrow> bool" where
  "rc_inv rc \<longleftrightarrow>
     (\<forall>i. map_of (rc_calls rc) i = Some Waiting_Call \<longrightarrow> i \<in> set (rc_pending rc)) \<and>
     (\<forall>i. i \<in> set (rc_pending rc) \<longrightarrow> (\<exists>c. map_of (rc_calls rc) i = Some c \<and> c \<noteq> Sent_Call)) \<and>
     (\<forall>i resp. map_of (rc_calls rc) i = Some (Done_Call (Return resp)) \<longrightarrow> cs_RequestID resp = i) \<and>
     distinct (rc_pending rc)"

lemma deliver_calls:
  "map_of (rc_calls (deliver r i rc)) k = (if k = i \<and> map_of (rc_calls rc) i = Some Waiting_Call then Some (Done_Call r) else map_of (rc_calls rc) k)"
  "rc_pending (deliver r i rc) = rc_pending rc"
  by (auto simp: deliver_def set_call_def update_conv')

lemma deliver_all_calls:
  "distinct ps \<Longrightarrow>
   map_of (rc_calls (fold (deliver r) ps rc)) k =
     (if k \<in> set ps \<and> map_of (rc_calls rc) k = Some Waiting_Call then Some (Done_Call r) else map_of (rc_calls rc) k) \<and>
   rc_pending (fold (deliver r) ps rc) = rc_pending rc"
  by (induction ps arbitrary: rc) (auto simp: deliver_calls)

lemma rc_step_inv:
  assumes inv: "rc_inv rc" and "rc_step ev rc = Some rc'"
  shows "rc_inv rc'"
proof (cases ev)
  case (RC_Error e)
  then have rc': "rc' = recv_error e rc" using assms(2) by (auto split: if_splits)
  have d: "distinct (rc_pending rc)" using inv by (simp add: rc_inv_def)
  have c: "map_of (rc_calls rc') k = (if k \<in> set (rc_pending rc) \<and> map_of (rc_calls rc) k = Some Waiting_Call
      then Some (Done_Call (Fail e)) else map_of (rc_calls rc) k)" "rc_pending rc' = []" for k
    using deliver_all_calls [OF d, of "Fail e" "rc\<lparr>rc_pending := []\<rparr>" k] by (simp_all add: rc' recv_error_def)
  show ?thesis using inv unfolding rc_inv_def c by simp blast
next
  case (RC_Response r)
  let ?i = "cs_RequestID r"
  have c: "rc' = rc \<or> (\<forall>k. map_of (rc_calls rc') k = (if k = ?i \<and> map_of (rc_calls rc) ?i = Some Waiting_Call
      then Some (Done_Call (Return r)) else map_of (rc_calls rc) k)) \<and> rc_pending rc' = removeAll ?i (rc_pending rc)"
    using RC_Response assms(2) deliver_calls [of "Return r" ?i "rc\<lparr>rc_pending := removeAll ?i (rc_pending rc)\<rparr>"]
    by (auto simp: recv_response_def Let_def split: if_splits)
  then show ?thesis using inv unfolding rc_inv_def by (elim disjE) (auto simp: distinct_removeAll split: if_splits)
next
  case (RC_Send e i)
  then obtain c where n: "map_of (rc_calls rc) i = None" and c: "rc' = set_call i c rc" "c = Sent_Call \<or> (\<exists>e. c = Done_Call (Fail e))"
    using assms(2) by (auto simp: Compile_send_def split: if_splits option.splits)
  have "i \<notin> set (rc_pending rc)" using inv n unfolding rc_inv_def by force
  with c inv show ?thesis unfolding rc_inv_def by (auto simp: set_call_def update_conv')
next
  case (RC_Store i)
  then have n: "map_of (rc_calls rc) i = Some Sent_Call" and c: "rc' = (set_call i Waiting_Call rc)\<lparr>rc_pending := i # rc_pending rc\<rparr>"
    using assms(2) by (auto simp: Compile_store_def split: if_splits)
  have "i \<notin> set (rc_pending rc)" using inv n unfolding rc_inv_def by force
  with inv show ?thesis unfolding rc_inv_def c by (auto simp: set_call_def update_conv')
next
  case (RC_Cancel e i)
  then have "map_of (rc_calls rc) i = Some Waiting_Call" and c: "rc' = set_call i (Done_Call (Fail e)) rc"
    using assms(2) by (auto simp: Compile_cancel_def split: if_splits)
  with inv show ?thesis unfolding rc_inv_def c by (auto simp: set_call_def update_conv')
qed (use assms in \<open>auto simp: rc_inv_def LoadNewStream_def\<close>)

lemma rc_new_inv: "rc_inv (NewCompileRequestClient stream)"
  by (simp add: rc_inv_def NewCompileRequestClient_def)

lemma rc_reachable_inv: "rc_reachable rc \<Longrightarrow> rc_inv rc"
  by (erule client_sys.invariant) (auto simp: rc_live_step_def intro: rc_new_inv rc_step_inv split: if_splits)

text \<open>C18: calls end with their own responses. In every reachable state of the client, a call that
  returned a response returned one with the id of its request; a call that waits is ended by the
  response with its id, and when the stream breaks every waiting call is ended.\<close>

theorem request_client_matches:
  assumes "rc_reachable rc"
  shows "(map_of (rc_calls rc) i = Some (Done_Call (Return resp)) \<longrightarrow> cs_RequestID resp = i) \<and>
    (map_of (rc_calls rc) i = Some Waiting_Call \<longrightarrow>
       (cs_RequestID resp = i \<longrightarrow> map_of (rc_calls (recv_response resp rc)) i = Some (Done_Call (Return resp))) \<and>
       map_of (rc_calls (recv_error err rc)) i = Some (Done_Call (Fail err)))"
proof -
  have inv: "rc_inv rc" by (rule rc_reachable_inv [OF assms])
  have p: "i \<in> set (rc_pending rc)" if "map_of (rc_calls rc) i = Some Waiting_Call" using inv that unfolding rc_inv_def by blast
  have "map_of (rc_calls (recv_response resp rc)) i = Some (Done_Call (Return resp))"
    if "map_of (rc_calls rc) i = Some Waiting_Call" "cs_RequestID resp = i"
    using that p by (simp add: recv_response_def Let_def deliver_calls)
  moreover have "map_of (rc_calls (recv_error err rc)) i = Some (Done_Call (Fail err))" if "map_of (rc_calls rc) i = Some Waiting_Call"
    using that p inv deliver_all_calls [of "rc_pending rc" "Fail err" "rc\<lparr>rc_pending := []\<rparr>" i] by (simp add: recv_error_def rc_inv_def)
  moreover have "map_of (rc_calls rc) i = Some (Done_Call (Return resp)) \<longrightarrow> cs_RequestID resp = i" using inv unfolding rc_inv_def by blast
  ultimately show ?thesis by blast
qed

definition sample_response :: "string \<Rightarrow> CompileResponse" where
  "sample_response i = \<lparr>cs_RequestID = i, cs_CompileResult = Res_Success, cs_CpuSecondsUsed = 0, cs_Data = D_CompiledSource ''x''\<rparr>"

theorem request_client_matches_witness:
  "\<exists>rc. rc_reachable rc \<and> map_of (rc_calls rc) ''1'' = Some Waiting_Call \<and>
     map_of (rc_calls (recv_response (sample_response ''1'') rc)) ''1'' = Some (Done_Call (Return (sample_response ''1'')))"
proof -
  have "map_option (\<lambda>rc. map_of (rc_calls rc) ''1'') (rc_run [RC_Load, RC_Send None ''1'', RC_Store ''1''] (NewCompileRequestClient False)) =
    Some (Some Waiting_Call)" by code_simp
  then obtain rc where rc: "rc_run [RC_Load, RC_Send None ''1'', RC_Store ''1''] (NewCompileRequestClient False) = Some rc"
    "map_of (rc_calls rc) ''1'' = Some Waiting_Call" by auto
  have r: "rc_reachable rc" by (rule rc_run_reachable [OF rc_init rc(1)])
  from request_client_matches [OF r, of "''1''" "sample_response ''1''"] r rc(2) show ?thesis by (auto simp: sample_response_def)
qed

text \<open>The request is sent before its channel is registered: a response that is faster is dropped, and
  the call waits for ever.\<close>

lemma early_response_lost:
  "map_option (\<lambda>rc. (map_of (rc_calls rc) ''1'', rc_pending rc))
     (rc_run [RC_Load, RC_Send None ''1'', RC_Response (sample_response ''1''), RC_Store ''1''] (NewCompileRequestClient False)) =
   Some (Some Waiting_Call, [''1''])"
  by code_simp

text \<open>A call that gives up closes its channel and stays registered; its response crashes the daemon.\<close>

lemma late_response_crashes:
  "map_option rc_crashed
     (rc_run [RC_Load, RC_Send None ''1'', RC_Store ''1'', RC_Cancel (Error ''context canceled'') ''1'', RC_Response (sample_response ''1'')]
       (NewCompileRequestClient False)) = Some True"
  by code_simp

section \<open>Metrics providers\<close>

text \<open>The queue of a provider, with the posts that wait for room. \<open>mp_receiving\<close>: the stream handler is
  at its select, so that a channel without a buffer takes a message.\<close>

record 'm metricsProvider =
  mp_queue :: "'m list"
  mp_capacity :: nat
  mp_waiting :: "'m list"
  mp_receiving :: bool
  mp_buffered :: bool        \<comment> \<open>the flags of \<open>queueStrategy\<close>\<close>
  mp_discard :: bool

text \<open>\<open>NewMetricsProvider\<close> sizes the queue by its strategy, but leaves the field \<open>queueStrategy\<close> zero.\<close>

definition NewMetricsProvider :: "bool \<Rightarrow> bool \<Rightarrow> 'm metricsProvider" where
  "NewMetricsProvider buffered discard =
     \<lparr>mp_queue = [], mp_capacity = (if buffered then 1000000 else 0), mp_waiting = [], mp_receiving = False,
      mp_buffered = False, mp_discard = False\<rparr>"

definition has_room :: "'m metricsProvider \<Rightarrow> bool" where
  "has_room p = (length (mp_queue p) < mp_capacity p \<or> mp_receiving p \<and> mp_queue p = [])"

definition enqueue :: "'m \<Rightarrow> 'm metricsProvider \<Rightarrow> 'm metricsProvider" where
  "enqueue m p = (if has_room p then p\<lparr>mp_queue := mp_queue p @ [m]\<rparr> else p\<lparr>mp_waiting := mp_waiting p @ [m]\<rparr>)"

definition provider_Post :: "'m \<Rightarrow> 'm metricsProvider \<Rightarrow> 'm metricsProvider" where
  "provider_Post m p =
     (if \<not> mp_discard p then enqueue m p
      else if has_room p then p\<lparr>mp_queue := mp_queue p @ [m]\<rparr>
      else if \<not> mp_buffered p then p
      else enqueue m (p\<lparr>mp_queue := drop (mp_capacity p div 4) (mp_queue p)\<rparr>))"

text \<open>\<open>HandleStream\<close> takes the head of the queue, and a waiting post proceeds.\<close>

definition provider_take :: "'m metricsProvider \<Rightarrow> ('m \<times> 'm metricsProvider) option" where
  "provider_take p =
     (case mp_queue p of
        [] \<Rightarrow> None
      | m # ms \<Rightarrow> Some (m, case mp_waiting p of
          [] \<Rightarrow> p\<lparr>mp_queue := ms\<rparr>
        | w # ws \<Rightarrow> p\<lparr>mp_queue := ms @ [w], mp_waiting := ws\<rparr>))"

text \<open>A round of \<open>HandleStream\<close>: the head of the queue is packed and sent under the key of its type, or the
  round ends the stream. A message that cannot be packed or sent is lost.\<close>

datatype provider_select = Take_Metric | Stream_Done | Context_Done

datatype 'v provider_round = Sent_Metric Key 'v | Ended go_error

definition HandleStream_round ::
    "string \<Rightarrow> ('m \<Rightarrow> go_error + string \<times> 'v) \<Rightarrow> (Key \<Rightarrow> 'v \<Rightarrow> go_error option) \<Rightarrow> go_error \<Rightarrow> go_error \<Rightarrow> go_error \<Rightarrow>
     provider_select \<Rightarrow> 'm metricsProvider \<Rightarrow> ('v provider_round \<times> 'm metricsProvider) option" where
  "HandleStream_round uuid pack send eof recvErr ctxErr sel p =
     (case sel of
        Stream_Done \<Rightarrow> Some (Ended recvErr, p)
      | Context_Done \<Rightarrow> Some (Ended ctxErr, p)
      | Take_Metric \<Rightarrow>
          map_option (\<lambda>(m, p').
            (case pack m of
               Inl e \<Rightarrow> Ended e
             | Inr (url, v) \<Rightarrow>
                 (let key = \<lparr>key_Bucket = uuid, key_Name = url\<rparr>
                  in case send key v of
                       None \<Rightarrow> Sent_Metric key v
                     | Some e \<Rightarrow> Ended (if e = eof then recvErr else e)), p')) (provider_take p))"

text \<open>\<open>PostContext\<close>: the map holds the local context of the last registration of every key; a goroutine
  waits for the context of the caller, for its local context or for the context of the provider, and
  then removes the key.\<close>

record registration =
  reg_key :: string
  reg_ctx :: nat         \<comment> \<open>the context of the caller\<close>
  reg_local :: nat       \<comment> \<open>the local context\<close>

record 'm contextProvider =
  cp_provider :: "'m metricsProvider"
  cp_map :: "(string \<times> nat) list"
  cp_canceled :: "nat list"
  cp_waiting :: "registration list"
  cp_next :: nat

definition PostContext :: "('m \<Rightarrow> string) \<Rightarrow> 'm \<Rightarrow> nat \<Rightarrow> 'm contextProvider \<Rightarrow> 'm contextProvider" where
  "PostContext type_of metric ctx p =
     (let key = type_of metric; l = cp_next p
      in p\<lparr>cp_provider := provider_Post metric (cp_provider p),
           cp_canceled := (case map_of (cp_map p) key of Some old \<Rightarrow> old # cp_canceled p | None \<Rightarrow> cp_canceled p),
           cp_map := AList.update key l (cp_map p),
           cp_waiting := cp_waiting p @ [\<lparr>reg_key = key, reg_ctx = ctx, reg_local = l\<rparr>], cp_next := l + 1\<rparr>)"

datatype wake = Wake_Caller | Wake_Local | Wake_Provider

definition registration_done :: "(string \<Rightarrow> 'm) \<Rightarrow> nat list \<Rightarrow> wake \<Rightarrow> nat \<Rightarrow> 'm contextProvider \<Rightarrow> 'm contextProvider option" where
  "registration_done deleter doneCtxs w i p =
     (if i < length (cp_waiting p) then
        (let r = cp_waiting p ! i;
             p' = p\<lparr>cp_waiting := take i (cp_waiting p) @ drop (Suc i) (cp_waiting p), cp_map := AList.delete (reg_key r) (cp_map p)\<rparr>
         in case w of
              Wake_Caller \<Rightarrow>
                if reg_ctx r \<in> set doneCtxs then Some (p'\<lparr>cp_provider := provider_Post (deleter (reg_key r)) (cp_provider p')\<rparr>) else None
            | Wake_Local \<Rightarrow> if reg_local r \<in> set (cp_canceled p) then Some p' else None
            | Wake_Provider \<Rightarrow> Some p')
      else None)"

text \<open>The goroutine of a replaced registration removes the key of the one that replaced it.\<close>

lemma newer_registration_lost:
  "map_option cp_map
     (registration_done deleter [] Wake_Local 0
       (PostContext (\<lambda>_. ''k'') m2 2 (PostContext (\<lambda>_. ''k'') m1 1
          \<lparr>cp_provider = p, cp_map = [], cp_canceled = [], cp_waiting = [], cp_next = 0\<rparr>))) = Some []"
  by (simp add: registration_done_def PostContext_def Let_def)

text \<open>With the zero strategy nothing is dropped: a full queue makes posts wait, also for providers that
  asked for \<open>Discard\<close>.\<close>

lemma posts_never_dropped:
  "mset (mp_queue (provider_Post m p)) + mset (mp_waiting (provider_Post m p)) = add_mset m (mset (mp_queue p) + mset (mp_waiting p))"
  if "\<not> mp_discard p"
  using that by (simp add: provider_Post_def enqueue_def)

lemma discard_keeps_newest:
  assumes "mp_discard p" "mp_buffered p" "4 \<le> mp_capacity p" "length (mp_queue p) = mp_capacity p"
  shows "mp_queue (provider_Post m p) = drop (mp_capacity p div 4) (mp_queue p) @ [m]"
  using assms by (auto simp: provider_Post_def enqueue_def has_room_def)

section \<open>Keyed buffer\<close>

text \<open>\<open>runWaitReceiver\<close>: while the stream is down it drains the queue and keeps the latest message of
  every type; when the stream is back it puts them into the queue.\<close>

record 'm waitReceiver =
  wr_enabled :: bool
  wr_latest :: "(string \<times> 'm) list"

definition wait_take :: "('m \<Rightarrow> string) \<Rightarrow> 'm metricsProvider \<Rightarrow> 'm waitReceiver \<Rightarrow> ('m metricsProvider \<times> 'm waitReceiver) option" where
  "wait_take type_of p w =
     (if \<not> wr_enabled w then None
      else map_option (\<lambda>(m, p'). (p', w\<lparr>wr_latest := AList.update (type_of m) m (wr_latest w)\<rparr>)) (provider_take p))"

definition set_enabled :: "bool \<Rightarrow> 'm metricsProvider \<Rightarrow> 'm waitReceiver \<Rightarrow> 'm metricsProvider \<times> 'm waitReceiver" where
  "set_enabled e p w =
     (if e then (p, w\<lparr>wr_enabled := True\<rparr>)
      else if \<not> wr_enabled w then (p, w)
      else (fold enqueue (map snd (wr_latest w)) p, w\<lparr>wr_enabled := False, wr_latest := []\<rparr>))"

definition OnConnected :: "'m metricsProvider \<Rightarrow> 'm waitReceiver \<Rightarrow> 'm metricsProvider \<times> 'm waitReceiver" where
  "OnConnected p w = set_enabled False p w"

definition OnLostConnection :: "'m metricsProvider \<Rightarrow> 'm waitReceiver \<Rightarrow> 'm metricsProvider \<times> 'm waitReceiver" where
  "OnLostConnection p w = set_enabled True p w"

lemma enqueue_all: "mset (mp_queue (fold enqueue ms p)) + mset (mp_waiting (fold enqueue ms p)) = mset ms + mset (mp_queue p) + mset (mp_waiting p)"
  by (induction ms arbitrary: p) (auto simp: enqueue_def)

lemma reconnect_flushes:
  assumes "wr_enabled w" "OnConnected p w = (p', w')"
  shows "mset (mp_queue p') + mset (mp_waiting p') = mset (map snd (wr_latest w)) + mset (mp_queue p) + mset (mp_waiting p) \<and> wr_latest w' = []"
  using assms enqueue_all [of "map snd (wr_latest w)" p] by (auto simp: OnConnected_def set_enabled_def)

section \<open>Listeners\<close>

text \<open>\<open>doUpdate\<close> of \<open>OnProviderAdded\<close>: the contexts that are canceled, the handlers that are started, and
  the providers that are known afterwards.\<close>

definition doUpdate :: "string list \<Rightarrow> string list \<Rightarrow> string list \<times> string list \<times> string list" where
  "doUpdate known updated =
     (let removed = filter (\<lambda>u. u \<notin> set updated) known; added = filter (\<lambda>u. u \<notin> set known) updated
      in (removed, added, filter (\<lambda>u. u \<in> set updated) known @ added))"

fun doUpdates :: "string list \<Rightarrow> string list list \<Rightarrow> string list" where
  "doUpdates known [] = known"
| "doUpdates known (us # uss) = doUpdates (snd (snd (doUpdate known us))) uss"

lemma doUpdate_known:
  assumes "doUpdate known updated = (removed, added, known')"
  shows "set known' = set updated" "set removed = set known - set updated" "set added = set updated - set known"
  using assms by (auto simp: doUpdate_def Let_def)

lemma doUpdate_distinct: "distinct known \<Longrightarrow> distinct updated \<Longrightarrow> distinct (snd (snd (doUpdate known updated)))"
  by (auto simp: doUpdate_def Let_def)

text \<open>A round of \<open>changeListener.HandleStream\<close>: the handler is called, or the stream ends with or
  without an error. \<open>expired\<close> is what the handler for expired keys answers, if there is one.\<close>

datatype listen_round = Call_Handler | End_Stream "go_error option"

definition changeListener_round ::
    "(go_error + 'a) \<Rightarrow> ('a \<Rightarrow> go_error option) \<Rightarrow> bool \<Rightarrow> bool option \<Rightarrow> listen_round" where
  "changeListener_round recv decode ctxCanceled expired =
     (case recv of
        Inr any \<Rightarrow> (case decode any of Some e \<Rightarrow> End_Stream (Some e) | None \<Rightarrow> Call_Handler)
      | Inl (Status c msg) \<Rightarrow>
          (if c \<in> {Aborted, Unavailable, Canceled} then
             (if c = Canceled \<and> ctxCanceled then End_Stream None
              else if expired = Some True then End_Stream (Some (Status c msg)) else End_Stream None)
           else End_Stream (Some (Status c msg)))
      | Inl e \<Rightarrow> End_Stream (Some e))"

text \<open>A bucket that closes ends the listener for good unless the handler asks for a retry.\<close>

lemma closed_bucket_ends:
  "changeListener_round (Inl (Status Aborted msg)) decode c expired = End_Stream None \<longleftrightarrow> expired \<noteq> Some True"
  by (simp add: changeListener_round_def)

end
