(* ===== verification/Consumerd.thy ===== *)
theory Consumerd
  imports SplitQueue CompileTasks Clients
begin

text \<open>
  \<open>src/pkg/consumerd/server.go\<close>: the daemon that takes the compiler calls of a host, finds out the
  toolchain, runs each call through the split queue and repeats it as the scheduler tells it to. The
  queue decides for a task that is not exclusive on which side it runs; the compilers and the client
  of the scheduler are those of \<open>CompileTasks\<close> and \<open>Clients\<close>.
\<close>

section \<open>The toolchain of a request\<close>

text \<open>The error, the request with its toolchain, the store, and whether an update of the store is
  signalled. \<open>errors.As\<close> is called with a pointer to a struct that is no error and panics, so every
  error of \<open>UpdateIfNeeded\<close> ends in a panic.\<close>

record 'q applied =
  ap_error :: "go_error option"
  ap_request :: RunRequest
  ap_store :: "'q Store"
  ap_update :: bool

definition applyToolchainToReq :: "'q host \<Rightarrow> 'q \<Rightarrow> RunRequest \<Rightarrow> 'q Store \<Rightarrow> 'q applied outcome" where
  "applyToolchainToReq h execQuerier req s =
     (if rr_Path req = [] then
        Return \<lparr>ap_error = Some (Status InvalidArgument ''No compiler path given''), ap_request = req, ap_store = s, ap_update = False\<rparr>
      else case store_Find h (rr_Path req) s of
        Panic \<Rightarrow> Panic
      | Fail _ \<Rightarrow>
          (case store_Add h (rr_Path req) execQuerier s of
             (Panic, s') \<Rightarrow> Panic
           | (Fail e, s') \<Rightarrow>
               Return \<lparr>ap_error = Some (Status InvalidArgument (error_text (WithMessage e ''Could not add toolchain''))),
                       ap_request = req\<lparr>rr_Toolchain := None\<rparr>, ap_store = s', ap_update = False\<rparr>
           | (Return tc, s') \<Rightarrow>
               Return \<lparr>ap_error = None, ap_request = req\<lparr>rr_Toolchain := Some tc\<rparr>, ap_store = s', ap_update = True\<rparr>)
      | Return tc \<Rightarrow>
          (case UpdateIfNeeded h tc s of
             Panic \<Rightarrow> Panic
           | Fail e \<Rightarrow> Fail e
           | Return (Some _, _, _) \<Rightarrow> Panic
           | Return (None, updated, s') \<Rightarrow>
               Return \<lparr>ap_error = None,
                       ap_request = req\<lparr>rr_Toolchain := (case map_of s' (tc_Executable tc) of Some d \<Rightarrow> Some (td_toolchain d) | None \<Rightarrow> Some tc)\<rparr>,
                       ap_store = s', ap_update = updated\<rparr>))"

section \<open>Running a request\<close>

text \<open>The attempts of one request: the side that the queue takes for attempt \<open>k\<close> when it may choose, the
  client as it answers then, and the id of the request it is sent.\<close>

record attempts =
  at_remote :: "nat \<Rightarrow> bool"
  at_client :: "nat \<Rightarrow> CompileRequest \<Rightarrow> CompileResponse outcome"
  at_id :: "nat \<Rightarrow> string"

definition on_remote :: "attempts \<Rightarrow> SplitTaskLocation \<Rightarrow> nat \<Rightarrow> bool" where
  "on_remote att e k = (e \<noteq> Loc_Local \<and> (e = Loc_Remote \<or> at_remote att k))"

definition attempt :: "system \<Rightarrow> attempts \<Rightarrow> Toolchain \<Rightarrow> RunRequest \<Rightarrow> ArgParser \<Rightarrow> SplitTaskLocation \<Rightarrow> nat \<Rightarrow> RunResponse outcome" where
  "attempt sys att tc req ap e k =
     (let tmpArgParser = DeepCopy ap
      in if on_remote att e k then fst (send_Process sys (at_client att k) tc (at_id att k) req tmpArgParser)
         else local_Process sys tc req tmpArgParser)"

text \<open>The loop of \<open>Run\<close>; \<open>None\<close> when it never ends.\<close>

partial_function (option) run_loop ::
    "system \<Rightarrow> attempts \<Rightarrow> Toolchain \<Rightarrow> RunRequest \<Rightarrow> ArgParser \<Rightarrow> SplitTaskLocation \<Rightarrow> nat \<Rightarrow> RunResponse outcome option" where
  [code]: "run_loop sys att tc req ap e k =
     (let r = attempt sys att tc req ap e k
      in if r = Fail ErrNoAgentsRetry then run_loop sys att tc req ap e (Suc k)
         else if r = Fail ErrNoAgentsRunLocal then run_loop sys att tc req ap Loc_Local (Suc k)
         else Some r)"

definition run_checked :: "unit ToolchainRunnerStore \<Rightarrow> system \<Rightarrow> attempts \<Rightarrow> RunRequest \<Rightarrow> RunResponse outcome option" where
  "run_checked runStore sys att req =
     (if rr_UID req = 0 \<or> rr_GID req = 0 then Some (Fail (Status InvalidArgument ''UID or GID cannot be 0''))
      else case rr_Toolchain req of
             None \<Rightarrow> Some Panic
           | Some tc \<Rightarrow>
               (case runner_Get (tc_Kind tc) runStore of
                  None \<Rightarrow> Some (Fail (Status Unavailable ''No toolchain runner available''))
                | Some _ \<Rightarrow>
                    (case Parse (NewArgParser (rr_Args req)) of
                       Panic \<Rightarrow> Some Panic
                     | Fail e \<Rightarrow> Some (Fail e)
                     | Return ap \<Rightarrow> run_loop sys att tc req ap (if CanRunRemote ap then Loc_Unknown else Loc_Local) 0)))"

definition consumerd_Run ::
    "'q host \<Rightarrow> 'q \<Rightarrow> unit ToolchainRunnerStore \<Rightarrow> system \<Rightarrow> attempts \<Rightarrow> go_error option \<Rightarrow> RunRequest \<Rightarrow> 'q Store \<Rightarrow>
     RunResponse outcome option \<times> 'q Store" where
  "consumerd_Run h execQuerier runStore sys att metaErr req s =
     (case metaErr of
        Some e \<Rightarrow> (Some (Fail e), s)
      | None \<Rightarrow>
          (case applyToolchainToReq h execQuerier req s of
             Panic \<Rightarrow> (Some Panic, s)
           | Fail e \<Rightarrow> (Some (Fail e), s)
           | Return a \<Rightarrow>
               (case ap_error a of
                  Some e \<Rightarrow> (Some (Fail e), ap_store a)
                | None \<Rightarrow> (run_checked runStore sys att (ap_request a), ap_store a))))"

text \<open>\<open>RemoteUsageManager\<close>: the limit of the scheduler sizes the remote pool, and the pool shrinks to
  nothing when the scheduler goes away.\<close>

definition remote_Manage :: "int option \<Rightarrow> SplitQueue \<Rightarrow> SplitQueue" where
  "remote_Manage limit sq = set_pool True (Resize (case limit of Some n \<Rightarrow> n | None \<Rightarrow> 0) (pool_of True sq)) sq"

section \<open>Metrics of the daemon\<close>

datatype consumerd_metric =
    CM_UsageLimits "nat \<times> nat"
  | CM_TaskStatus TaskStatus
  | CM_LocalTasksCompleted int
  | CM_DelegatedTasksCompleted int
  | CM_Toolchains "Toolchain list"

definition consumerd_postUsageLimits :: "SplitQueue \<Rightarrow> consumerd_metric list" where
  "consumerd_postUsageLimits sq = [CM_UsageLimits (CompleteUsageLimits sq)]"

definition consumerd_postTaskStatus :: "SplitQueue \<Rightarrow> consumerd_metric list" where
  "consumerd_postTaskStatus sq = [CM_TaskStatus (CompleteTaskStatus sq)]"

definition consumerd_postTotals :: "SplitQueue \<Rightarrow> consumerd_metric list" where
  "consumerd_postTotals sq =
     [CM_LocalTasksCompleted (CompleteLocalTasksCompleted sq), CM_DelegatedTasksCompleted (CompleteDelegatedTasksCompleted sq)]"

definition consumerd_postToolchains :: "'q Store \<Rightarrow> consumerd_metric list" where
  "consumerd_postToolchains st = [CM_Toolchains (store_Items st)]"

definition consumerd_GetToolchains :: "'q Store \<Rightarrow> Toolchain list" where
  "consumerd_GetToolchains st = store_Items st"

text \<open>\<open>HandleStream\<close>: the client is given the new stream when the manager is connected.\<close>

definition consumerd_connected :: "StreamManager \<times> CompileRequestClient \<Rightarrow> (StreamManager \<times> CompileRequestClient) option" where
  "consumerd_connected s = map_option (\<lambda>sm. (sm, LoadNewStream True (snd s))) (connected (fst s))"

section \<open>Lemmas\<close>

lemma run_loop_retries:
  assumes "\<And>j. k \<le> j \<Longrightarrow> j < k + n \<Longrightarrow> attempt sys att tc req ap e j = Fail ErrNoAgentsRetry"
  shows "run_loop sys att tc req ap e k = run_loop sys att tc req ap e (k + n)"
  using assms
proof (induction n arbitrary: k)
  case (Suc n)
  have "attempt sys att tc req ap e k = Fail ErrNoAgentsRetry" by (rule Suc.prems) auto
  then have "run_loop sys att tc req ap e k = run_loop sys att tc req ap e (Suc k)" by (subst run_loop.simps) simp
  also have "\<dots> = run_loop sys att tc req ap e (Suc k + n)" by (rule Suc.IH) (use Suc.prems in auto)
  finally show ?case by simp
qed simp

lemma run_loop_done:
  assumes "r = attempt sys att tc req ap e k" "r \<noteq> Fail ErrNoAgentsRetry" "r \<noteq> Fail ErrNoAgentsRunLocal"
  shows "run_loop sys att tc req ap e k = Some r"
  using assms by (subst run_loop.simps) simp

lemma local_attempt: "attempt sys att tc req ap Loc_Local k = local_Process sys tc req ap"
  by (simp add: attempt_def on_remote_def DeepCopy_def)

text \<open>A system whose own errors are not the two errors of the remote manager.\<close>

definition plain_errors :: "system \<Rightarrow> bool" where
  "plain_errors sys = (\<forall>c. proc_start (sys_exec sys c) \<noteq> Some ErrNoAgentsRetry \<and> proc_start (sys_exec sys c) \<noteq> Some ErrNoAgentsRunLocal)"

lemma local_Process_plain:
  assumes "plain_errors sys"
  shows "local_Process sys tc req ap \<noteq> Fail ErrNoAgentsRetry" "local_Process sys tc req ap \<noteq> Fail ErrNoAgentsRunLocal"
  using assms
  by (auto simp: local_Process_def compileTask_Run_def replace_output_def plain_errors_def task_failed_def compiler_failed_def
      NewCompilerError_def Let_def split: option.splits outcome.splits task_error.splits)

lemma run_loop_local:
  assumes "plain_errors sys"
  shows "run_loop sys att tc req ap Loc_Local k = Some (local_Process sys tc req ap)"
  using local_Process_plain [OF assms] by (intro run_loop_done) (simp_all add: local_attempt)

lemma run_loop_ends:
  "run_loop sys att tc req ap e k = Some r \<Longrightarrow> \<exists>j\<ge>k. attempt sys att tc req ap e j \<noteq> Fail ErrNoAgentsRetry"
proof (rule run_loop.raw_induct [where P = "\<lambda>sys att tc req ap e k _. \<exists>j\<ge>k. attempt sys att tc req ap e j \<noteq> Fail ErrNoAgentsRetry"])
  fix loop sys att tc req ap e k r
  assume IH: "\<And>sys att tc req ap e k y. loop sys att tc req ap e k = Some y \<Longrightarrow> \<exists>j\<ge>k. attempt sys att tc req ap e j \<noteq> Fail ErrNoAgentsRetry"
    and l: "(let r = attempt sys att tc req ap e k
      in if r = Fail ErrNoAgentsRetry then loop sys att tc req ap e (Suc k)
         else if r = Fail ErrNoAgentsRunLocal then loop sys att tc req ap Loc_Local (Suc k) else Some r) = Some r"
  show "\<exists>j\<ge>k. attempt sys att tc req ap e j \<noteq> Fail ErrNoAgentsRetry"
  proof (cases "attempt sys att tc req ap e k = Fail ErrNoAgentsRetry")
    case True
    with l have "loop sys att tc req ap e (Suc k) = Some r" by simp
    from IH [OF this] show ?thesis by (meson Suc_leD)
  qed auto
qed

section \<open>Properties\<close>


definition sample_run :: RunRequest where
  "sample_run = sample_request\<lparr>rr_Toolchain := Some (gcc ''/bin/gcc''), rr_Args := [''-c'', ''a.c'']\<rparr>"

text \<open>The scheduler asks for a retry and then gives up.\<close>

definition sample_attempts :: attempts where
  "sample_attempts =
     \<lparr>at_remote = (\<lambda>_. True),
      at_client = (\<lambda>k r. Return \<lparr>cs_RequestID = cr_RequestID r, cs_CompileResult = Res_Retry, cs_CpuSecondsUsed = 0,
        cs_Data = D_RetryAction (if k = 0 then Retry else DoNotRetry)\<rparr>),
      at_id = (\<lambda>_. ''id'')\<rparr>"


end
