(* ===== verification/CacheServer.thy ===== *)
theory CacheServer
  imports ChainStorage Status
begin

text \<open>
  \<open>src/pkg/cachesrv/server.go\<close>: the gRPC server of the cache in front of a storage provider. The
  operations of the provider are arguments, as in \<open>ChainStorage\<close>, and so is the message of an error, which
  gRPC formats; a server without a provider is
  created, reports an invalid configuration, and panics when it is called.
\<close>

section \<open>Model\<close>

datatype cache_metric = CacheMetric_Usage CacheUsage | CacheMetric_Hits "CacheHitsMetric option"

record 's CacheServer =
  cas_provider :: "'s option"
  cas_status :: StatusController
  cas_posted :: "cache_metric list"

definition NewCacheServer :: "(go_error \<Rightarrow> string) \<Rightarrow> ('s \<Rightarrow> unit outcome \<times> 's) \<Rightarrow> 's option \<Rightarrow> 's CacheServer outcome" where
  "NewCacheServer err_Error configure provider =
     (let st = BeginInitialize 0
      in case provider of
           None \<Rightarrow>
             Return \<lparr>cas_provider = None,
                     cas_status = EndInitialize (ApplyCondition 1 InvalidConfiguration [''No storage provider set''] st), cas_posted = []\<rparr>
         | Some p \<Rightarrow>
             (case configure p of
                (Return _, p') \<Rightarrow> Return \<lparr>cas_provider = Some p', cas_status = EndInitialize st, cas_posted = []\<rparr>
              | (Fail e, p') \<Rightarrow>
                  Return \<lparr>cas_provider = Some p',
                          cas_status = EndInitialize (ApplyCondition 1 InvalidConfiguration [err_Error e] st),
                          cas_posted = []\<rparr>
              | (Panic, _) \<Rightarrow> Panic))"

definition cache_Push ::
    "('e \<Rightarrow> string \<Rightarrow> CacheObject \<Rightarrow> 's \<Rightarrow> unit outcome \<times> CacheObject \<times> 's) \<Rightarrow> 'e \<Rightarrow> string \<Rightarrow> CacheObject \<Rightarrow> 's CacheServer \<Rightarrow>
     unit outcome \<times> 's CacheServer" where
  "cache_Push put e key obj s =
     (case cas_provider s of
        None \<Rightarrow> (Panic, s)
      | Some p \<Rightarrow> (case put e key obj p of (r, _, p') \<Rightarrow> (r, s\<lparr>cas_provider := Some p'\<rparr>)))"

definition cache_Pull ::
    "('e \<Rightarrow> string \<Rightarrow> 's \<Rightarrow> CacheObject outcome \<times> 's) \<Rightarrow> 'e \<Rightarrow> string \<Rightarrow> 's CacheServer \<Rightarrow> CacheObject outcome \<times> 's CacheServer" where
  "cache_Pull get e key s =
     (case cas_provider s of
        None \<Rightarrow> (Panic, s)
      | Some p \<Rightarrow> (case get e key p of (r, p') \<Rightarrow> (r, s\<lparr>cas_provider := Some p'\<rparr>)))"

definition cache_Query :: "(string list \<Rightarrow> 's \<Rightarrow> CacheObjectMeta option list outcome) \<Rightarrow> string list \<Rightarrow> 's CacheServer \<Rightarrow> CacheObjectMeta option list outcome" where
  "cache_Query query keys s = (case cas_provider s of None \<Rightarrow> Panic | Some p \<Rightarrow> query keys p)"

definition cache_Sync :: "unit outcome" where
  "cache_Sync = Fail (Status Unimplemented ''method Sync not implemented'')"

definition postStorageInfo :: "('s \<Rightarrow> CacheUsage) \<Rightarrow> 's CacheServer \<Rightarrow> 's CacheServer outcome" where
  "postStorageInfo usageInfo s =
     (case cas_provider s of None \<Rightarrow> Panic | Some p \<Rightarrow> Return (s\<lparr>cas_posted := cas_posted s @ [CacheMetric_Usage (usageInfo p)]\<rparr>))"

definition postCacheHits :: "('s \<Rightarrow> CacheHitsMetric option) \<Rightarrow> 's CacheServer \<Rightarrow> 's CacheServer outcome" where
  "postCacheHits cacheHits s =
     (case cas_provider s of None \<Rightarrow> Panic | Some p \<Rightarrow> Return (s\<lparr>cas_posted := cas_posted s @ [CacheMetric_Hits (cacheHits p)]\<rparr>))"

section \<open>Storing through the server\<close>

context durable_provider
begin

lemma push_holds:
  assumes "cas_provider s = Some p" "valid p" "key_ok k" "cache_Push put e k obj s = (Return u, s')"
  shows "\<exists>p'. cas_provider s' = Some p' \<and> valid p' \<and> holds p' k (co_Data obj)"
proof -
  obtain obj' p' where p': "put e k obj p = (Return u, obj', p')" "s' = s\<lparr>cas_provider := Some p'\<rparr>"
    using assms(1,4) by (auto simp: cache_Push_def split: prod.splits)
  with put_Return [OF assms(2,3) p'(1)] put_valid [OF assms(2) p'(1)] show ?thesis by simp
qed

lemma pull_held:
  assumes "cas_provider s = Some p" "valid p" "key_ok k" "cache_Pull get e k s = (Return obj, s')"
  shows "holds p k (co_Data obj)"
proof -
  obtain p' where "get e k p = (Return obj, p')" using assms(1,4) by (auto simp: cache_Pull_def split: prod.splits)
  with get_Return [OF assms(2,3)] show ?thesis by blast
qed

end

text \<open>A server that is not configured is unavailable, and a configured one is ready.\<close>

lemma cache_server_health:
  assumes "NewCacheServer err_Error configure provider = Return s"
  shows "health_Status (health (cas_status s)) =
    (case provider of None \<Rightarrow> Unavailable_Status
     | Some p \<Rightarrow> if fst (configure p) = Return () then Ready else Unavailable_Status)"
proof -
  have c: "health_Status (health (EndInitialize (ApplyCondition 1 InvalidConfiguration ms (BeginInitialize 0)))) = Unavailable_Status" for ms
    by (simp add: health_def health_loop_status BeginInitialize_def EndInitialize_def ApplyCondition_def ClearCondition_def critical_def)
  have r: "health_Status (health (EndInitialize (BeginInitialize 0))) = Ready"
    by (simp add: health_def health_loop_status BeginInitialize_def EndInitialize_def ApplyCondition_def ClearCondition_def)
  show ?thesis
  proof (cases provider)
    case None
    then show ?thesis using assms c by (auto simp: NewCacheServer_def Let_def)
  next
    case (Some p)
    then show ?thesis using assms c r by (cases "configure p") (auto simp: NewCacheServer_def Let_def split: outcome.splits)
  qed
qed

end
