(* ===== verification/Meta.thy ===== *)
theory Meta
  imports Types "HOL-Library.AList"
begin

text \<open>
  \<open>src/pkg/meta/context.go\<close>, \<open>src/pkg/meta/metadata.go\<close>, \<open>src/pkg/meta/interceptors.go\<close>,
  \<open>src/pkg/meta/mdkeys/mdkeys.go\<close>, \<open>src/pkg/identity/providers.go\<close> and the providers of
  \<open>src/pkg/host/hardware.go\<close>, \<open>src/internal/logkc/log.go\<close> and \<open>src/pkg/tracing/tracing.go\<close>: the metadata that
  travels with a call. A gRPC metadata map is the list of its pairs in order; \<open>Get\<close> collects the
  values of a key. Loggers, tracers and the JSON codec of the system info are parameters.
\<close>

section \<open>Keys and providers\<close>

definition ComponentKey :: string where "ComponentKey = ''kubecc-component''"

definition UUIDKey :: string where "UUIDKey = ''kubecc-uuid''"

definition LogKey :: string where "LogKey = ''kubecc-log''"

definition TracingKey :: string where "TracingKey = ''kubecc-tracing''"

definition SystemInfoKey :: string where "SystemInfoKey = ''kubecc-systeminfo''"

lemmas mdkeys = ComponentKey_def UUIDKey_def LogKey_def TracingKey_def SystemInfoKey_def

record 'v Provider =
  pr_key :: string
  pr_type :: string                               \<comment> \<open>\<open>reflect.TypeOf\<close>\<close>
  pr_Marshal :: "'v option \<Rightarrow> string outcome"
  pr_Unmarshal :: "string \<Rightarrow> 'v option outcome"

record 'v contextImpl =
  ci_Context :: "string \<Rightarrow> 'v option"           \<comment> \<open>the values of the parent\<close>
  ci_providers :: "(string \<times> 'v Provider) list"
  ci_values :: "(string \<times> 'v option) list"

definition ci_Value :: "'v contextImpl \<Rightarrow> string \<Rightarrow> 'v option" where
  "ci_Value ci key = (case map_of (ci_values ci) key of Some v \<Rightarrow> v | None \<Rightarrow> ci_Context ci key)"

type_synonym md = "(string \<times> string) list"

definition ToLower :: "string \<Rightarrow> string" where
  "ToLower s = map (\<lambda>c. let n = of_char c :: nat in if 65 \<le> n \<and> n \<le> 90 then char_of (n + 32) else c) s"

definition md_Get :: "md \<Rightarrow> string \<Rightarrow> string list" where
  "md_Get md k = map snd (filter (\<lambda>(k', _). ToLower k' = ToLower k) md)"

section \<open>Contexts\<close>

text \<open>\<open>addProvider\<close> of \<open>ImportFromIncoming\<close>. A value that cannot be decoded is an internal error.\<close>

type_synonym 'v imported = "(string \<times> 'v Provider) list \<times> (string \<times> 'v option) list"

definition addProvider :: "(go_error \<Rightarrow> string) \<Rightarrow> md \<Rightarrow> 'v Provider \<Rightarrow> 'v imported \<Rightarrow> 'v imported outcome" where
  "addProvider err_Error md mp acc =
     (case md_Get md (pr_key mp) of
        s # _ \<Rightarrow>
          (case pr_Unmarshal mp s of
             Return v \<Rightarrow> Return (AList.update (pr_key mp) mp (fst acc), AList.update (pr_key mp) v (snd acc))
           | Fail e \<Rightarrow> Fail (Status Internal (''Failed to unmarshal required metadata for provider '' @ pr_type mp @ '': '' @ err_Error e))
           | Panic \<Rightarrow> Panic)
      | [] \<Rightarrow> Fail (Status InvalidArgument (''Expected metadata provider '' @ pr_type mp @ '' was not found'')))"

fun import_required :: "(go_error \<Rightarrow> string) \<Rightarrow> md \<Rightarrow> 'v Provider list \<Rightarrow> 'v imported \<Rightarrow> 'v imported outcome" where
  "import_required err_Error md [] acc = Return acc"
| "import_required err_Error md (mp # mps) acc =
     (case addProvider err_Error md mp acc of
        Return acc' \<Rightarrow> import_required err_Error md mps acc'
      | Fail e \<Rightarrow> Fail e
      | Panic \<Rightarrow> Panic)"

fun import_optional :: "(go_error \<Rightarrow> string) \<Rightarrow> md \<Rightarrow> 'v Provider list \<Rightarrow> 'v imported \<Rightarrow> 'v imported outcome" where
  "import_optional err_Error md [] acc = Return acc"
| "import_optional err_Error md (mp # mps) acc =
     (case addProvider err_Error md mp acc of
        Return acc' \<Rightarrow> import_optional err_Error md mps acc'
      | Fail (Status Internal m) \<Rightarrow> Fail (Status Internal m)
      | Fail _ \<Rightarrow> import_optional err_Error md mps acc
      | Panic \<Rightarrow> Panic)"

record 'v ImportOptions =
  io_Required :: "'v Provider list"
  io_Optional :: "'v Provider list"
  io_Inherit :: "('v contextImpl option \<times> 'v Provider list) option"   \<comment> \<open>\<open>InheritFrom\<close>, \<open>Providers\<close>\<close>

definition inherit :: "'v contextImpl \<Rightarrow> 'v Provider list \<Rightarrow> 'v imported \<Rightarrow> 'v imported" where
  "inherit from mps acc =
     fold (\<lambda>mp acc. (AList.update (pr_key mp) mp (fst acc),
                     AList.update (pr_key mp) (case map_of (ci_values from) (pr_key mp) of Some v \<Rightarrow> v | None \<Rightarrow> None) (snd acc))) mps acc"

definition ImportFromIncoming ::
    "(go_error \<Rightarrow> string) \<Rightarrow> (string \<Rightarrow> 'v option) \<Rightarrow> md option \<Rightarrow> 'v ImportOptions \<Rightarrow> 'v contextImpl outcome" where
  "ImportFromIncoming err_Error ctx incoming opts =
     (case incoming of
        None \<Rightarrow> Panic
      | Some md \<Rightarrow>
          (case import_required err_Error md (io_Required opts) ([], []) of
             Fail e \<Rightarrow> Fail e
           | Panic \<Rightarrow> Panic
           | Return acc \<Rightarrow>
               (case import_optional err_Error md (io_Optional opts) acc of
                  Fail e \<Rightarrow> Fail e
                | Panic \<Rightarrow> Panic
                | Return acc' \<Rightarrow>
                    (case io_Inherit opts of
                       None \<Rightarrow> Return \<lparr>ci_Context = ctx, ci_providers = fst acc', ci_values = snd acc'\<rparr>
                     | Some (None, _) \<Rightarrow> Panic
                     | Some (Some from, mps) \<Rightarrow>
                         (let acc'' = inherit from mps acc'
                          in Return \<lparr>ci_Context = ctx, ci_providers = fst acc'', ci_values = snd acc''\<rparr>)))))"

text \<open>\<open>ExportToOutgoing\<close>: the pairs appended to the metadata that the context already has.\<close>

definition MetadataProviders :: "'v contextImpl \<Rightarrow> 'v Provider list" where
  "MetadataProviders c = map snd (ci_providers c)"

fun marshal_all :: "'v contextImpl \<Rightarrow> 'v Provider list \<Rightarrow> md outcome" where
  "marshal_all c [] = Return []"
| "marshal_all c (mp # mps) =
     (case pr_Marshal mp (ci_Value c (pr_key mp)) of
        Return s \<Rightarrow> (case marshal_all c mps of Return kv \<Rightarrow> Return ((pr_key mp, s) # kv) | Fail e \<Rightarrow> Fail e | Panic \<Rightarrow> Panic)
      | Fail e \<Rightarrow> Fail e
      | Panic \<Rightarrow> Panic)"

definition ExportToOutgoing :: "md \<Rightarrow> 'v contextImpl option \<Rightarrow> md outcome" where
  "ExportToOutgoing outgoing ctx =
     (case ctx of
        None \<Rightarrow> Panic
      | Some c \<Rightarrow> (case marshal_all c (MetadataProviders c) of Return kv \<Rightarrow> Return (outgoing @ kv) | Fail e \<Rightarrow> Fail e | Panic \<Rightarrow> Panic))"

text \<open>\<open>WithProvider\<close> and \<open>NewContextWithParent\<close>: the initial values are computed in order, each in the
  context built so far.\<close>

record 'v providerInitInfo =
  pi_KeyProvider :: "'v Provider"
  pi_initializer :: "'v contextImpl \<Rightarrow> 'v option outcome"

definition WithProvider ::
    "'v Provider \<Rightarrow> ('v contextImpl \<Rightarrow> 'v option outcome) option \<Rightarrow> 'v option option \<Rightarrow> 'v providerInitInfo outcome" where
  "WithProvider kp initialValue withValue =
     (case withValue of
        Some v \<Rightarrow> Return \<lparr>pi_KeyProvider = kp, pi_initializer = (\<lambda>_. Return v)\<rparr>
      | None \<Rightarrow> (case initialValue of
          Some f \<Rightarrow> Return \<lparr>pi_KeyProvider = kp, pi_initializer = f\<rparr>
        | None \<Rightarrow> Panic))"

fun init_values :: "'v providerInitInfo list \<Rightarrow> 'v contextImpl \<Rightarrow> 'v contextImpl outcome" where
  "init_values [] ctx = Return ctx"
| "init_values (mp # mps) ctx =
     (case pi_initializer mp ctx of
        Return v \<Rightarrow> init_values mps (ctx\<lparr>ci_values := AList.update (pr_key (pi_KeyProvider mp)) v (ci_values ctx)\<rparr>)
      | Fail e \<Rightarrow> Fail e
      | Panic \<Rightarrow> Panic)"

definition NewContextWithParent :: "(string \<Rightarrow> 'v option) \<Rightarrow> 'v providerInitInfo list \<Rightarrow> 'v contextImpl outcome" where
  "NewContextWithParent parent mps =
     init_values mps
       \<lparr>ci_Context = parent,
        ci_providers = fold (\<lambda>mp ps. AList.update (pr_key (pi_KeyProvider mp)) (pi_KeyProvider mp) ps) mps [],
        ci_values = []\<rparr>"

definition CheckContext :: "(string \<Rightarrow> 'v option) \<Rightarrow> go_error option" where
  "CheckContext lookup =
     (if lookup ComponentKey = None \<or> lookup UUIDKey = None
      then Some (Status InvalidArgument ''Context is not a meta.Context (are you using the correct interceptors?)'')
      else None)"

section \<open>Providers of the program\<close>

datatype ('i, 'l, 't) meta_value =
    MV_Component Component | MV_UUID string | MV_SystemInfo 'i | MV_Log 'l | MV_Tracer 't

fun Component_name :: "Component \<Rightarrow> string" where
  "Component_name Comp_Unknown = ''Component_Unknown''"
| "Component_name Agent = ''Component_Agent''"
| "Component_name Scheduler = ''Component_Scheduler''"
| "Component_name Controller = ''Component_Controller''"
| "Component_name Consumer = ''Component_Consumer''"
| "Component_name Consumerd = ''Component_Consumerd''"
| "Component_name Make = ''Component_Make''"
| "Component_name TestComponent = ''Component_Test''"
| "Component_name Dashboard = ''Component_Dashboard''"
| "Component_name CLI = ''Component_CLI''"
| "Component_name Monitor = ''Component_Monitor''"
| "Component_name Cache = ''Component_Cache''"

text \<open>The generated map \<open>Component_value\<close>; an unknown name gives the zero value.\<close>

definition Component_value :: "string \<Rightarrow> Component" where
  "Component_value s =
     (case find (\<lambda>c. Component_name c = s)
        [Comp_Unknown, Agent, Scheduler, Controller, Consumer, Consumerd, Make, TestComponent, Dashboard, CLI, Monitor, Cache] of
        Some c \<Rightarrow> c | None \<Rightarrow> Comp_Unknown)"

definition componentMDP :: "('i, 'l, 't) meta_value Provider" where
  "componentMDP =
     \<lparr>pr_key = ComponentKey, pr_type = ''identity.componentMDP'',
      pr_Marshal = (\<lambda>i. case i of Some (MV_Component c) \<Rightarrow> Return (Component_name c) | _ \<Rightarrow> Panic),
      pr_Unmarshal = (\<lambda>s. Return (Some (MV_Component (Component_value s))))\<rparr>"

definition uuidMDP :: "('i, 'l, 't) meta_value Provider" where
  "uuidMDP =
     \<lparr>pr_key = UUIDKey, pr_type = ''identity.uuidMDP'',
      pr_Marshal = (\<lambda>i. case i of Some (MV_UUID u) \<Rightarrow> Return u | _ \<Rightarrow> Panic),
      pr_Unmarshal = (\<lambda>s. Return (Some (MV_UUID s)))\<rparr>"

definition systemInfoProvider :: "('i \<Rightarrow> string option) \<Rightarrow> (string \<Rightarrow> 'i outcome) \<Rightarrow> ('i, 'l, 't) meta_value Provider" where
  "systemInfoProvider toJson fromJson =
     \<lparr>pr_key = SystemInfoKey, pr_type = ''host.systemInfoProvider'',
      pr_Marshal = (\<lambda>i. case i of Some (MV_SystemInfo x) \<Rightarrow> (case toJson x of Some s \<Rightarrow> Return s | None \<Rightarrow> Panic) | _ \<Rightarrow> Panic),
      pr_Unmarshal = (\<lambda>s. case fromJson s of Return x \<Rightarrow> Return (Some (MV_SystemInfo x)) | Fail e \<Rightarrow> Fail e | Panic \<Rightarrow> Panic)\<rparr>"

definition logProvider :: "('i, 'l, 't) meta_value Provider" where
  "logProvider = \<lparr>pr_key = LogKey, pr_type = ''logkc.logProvider'', pr_Marshal = (\<lambda>_. Return []), pr_Unmarshal = (\<lambda>_. Return None)\<rparr>"

definition tracingProvider :: "('i, 'l, 't) meta_value Provider" where
  "tracingProvider = \<lparr>pr_key = TracingKey, pr_type = ''tracing.tracingProvider'', pr_Marshal = (\<lambda>_. Return []), pr_Unmarshal = (\<lambda>_. Return None)\<rparr>"

lemmas providers = componentMDP_def uuidMDP_def systemInfoProvider_def logProvider_def tracingProvider_def

text \<open>The accessors panic without a value.\<close>

definition meta_Component :: "(string \<Rightarrow> ('i, 'l, 't) meta_value option) \<Rightarrow> Component outcome" where
  "meta_Component lookup = (case lookup ComponentKey of Some (MV_Component c) \<Rightarrow> Return c | _ \<Rightarrow> Panic)"

definition meta_UUID :: "(string \<Rightarrow> ('i, 'l, 't) meta_value option) \<Rightarrow> string outcome" where
  "meta_UUID lookup = (case lookup UUIDKey of Some (MV_UUID u) \<Rightarrow> Return u | _ \<Rightarrow> Panic)"

definition meta_Log :: "(string \<Rightarrow> ('i, 'l, 't) meta_value option) \<Rightarrow> 'l outcome" where
  "meta_Log lookup = (case lookup LogKey of Some (MV_Log l) \<Rightarrow> Return l | _ \<Rightarrow> Panic)"

definition meta_Tracer :: "(string \<Rightarrow> ('i, 'l, 't) meta_value option) \<Rightarrow> 't outcome" where
  "meta_Tracer lookup = (case lookup TracingKey of Some (MV_Tracer t) \<Rightarrow> Return t | _ \<Rightarrow> Panic)"

definition meta_SystemInfo :: "(string \<Rightarrow> ('i, 'l, 't) meta_value option) \<Rightarrow> 'i outcome" where
  "meta_SystemInfo lookup = (case lookup SystemInfoKey of Some (MV_SystemInfo i) \<Rightarrow> Return i | _ \<Rightarrow> Panic)"

text \<open>The import options of \<open>NewServer\<close>, and a call through the interceptors of client and server.\<close>

definition server_imports ::
    "('i \<Rightarrow> string option) \<Rightarrow> (string \<Rightarrow> 'i outcome) \<Rightarrow> ('i, 'l, 't) meta_value contextImpl option \<Rightarrow> ('i, 'l, 't) meta_value ImportOptions" where
  "server_imports toJson fromJson srv =
     \<lparr>io_Required = [componentMDP, uuidMDP], io_Optional = [systemInfoProvider toJson fromJson],
      io_Inherit = Some (srv, [logProvider, tracingProvider])\<rparr>"

definition intercepted_call ::
    "(go_error \<Rightarrow> string) \<Rightarrow> (string \<Rightarrow> 'v option) \<Rightarrow> 'v ImportOptions \<Rightarrow> ('v contextImpl \<Rightarrow> 'r outcome) \<Rightarrow> md \<Rightarrow> 'v contextImpl option \<Rightarrow> 'r outcome" where
  "intercepted_call err_Error base opts handler outgoing ctx =
     (case ExportToOutgoing outgoing ctx of
        Return md \<Rightarrow>
          (case ImportFromIncoming err_Error base (Some md) opts of
             Return c \<Rightarrow> handler c
           | Fail e \<Rightarrow> Fail e
           | Panic \<Rightarrow> Panic)
      | Fail e \<Rightarrow> Fail e
      | Panic \<Rightarrow> Panic)"

section \<open>Lemmas\<close>

lemma Component_value_name: "Component_value (Component_name c) = c"
  by (cases c) (simp_all add: Component_value_def)

lemma marshal_all_Return:
  assumes "marshal_all c mps = Return kv"
  shows "map fst kv = map pr_key mps \<and> (\<forall>mp\<in>set mps. \<exists>s. pr_Marshal mp (ci_Value c (pr_key mp)) = Return s \<and> (pr_key mp, s) \<in> set kv)"
  using assms by (induction mps arbitrary: kv) (auto split: outcome.splits)

lemma md_Get_single:
  assumes "distinct (map fst kv)" "(k, s) \<in> set kv" "\<And>k'. k' \<in> set (map fst kv) \<Longrightarrow> ToLower k' = k'"
  shows "md_Get kv k = [s]"
proof -
  have k: "ToLower k = k" using assms(2,3) by force
  have "filter (\<lambda>(k', _). ToLower k' = ToLower k) kv = filter (\<lambda>p. fst p = k) kv"
    using assms(3) k by (intro filter_cong) (auto, force)
  moreover have "filter (\<lambda>p. fst p = k) kv = [(k, s)]"
    using assms(1,2)
  proof (induction kv)
    case (Cons p kv)
    show ?case
    proof (cases "fst p = k")
      case True
      with Cons.prems have k: "k \<notin> set (map fst kv)" by auto
      then have "filter (\<lambda>p. fst p = k) kv = []" by (auto simp: filter_empty_conv)
      moreover have "p = (k, s)" using Cons.prems(2) k by (cases p) (auto simp: image_iff)
      ultimately show ?thesis by simp
    qed (use Cons in auto)
  qed simp
  ultimately show ?thesis by (simp add: md_Get_def)
qed

lemma md_Get_absent:
  assumes "k \<notin> set (map fst kv)" "ToLower k = k" "\<And>k'. k' \<in> set (map fst kv) \<Longrightarrow> ToLower k' = k'"
  shows "md_Get kv k = []"
  using assms by (auto simp: md_Get_def filter_empty_conv) force

lemma in_update: "x \<in> set (AList.update a b ps) \<Longrightarrow> x = (a, b) \<or> x \<in> set ps"
  by (induction ps) (auto split: if_splits)

text \<open>The providers of a new context are stored under their own keys.\<close>

lemma new_providers:
  fixes mps :: "'v providerInitInfo list"
  defines "f \<equiv> \<lambda>mp ps. AList.update (pr_key (pi_KeyProvider mp)) (pi_KeyProvider mp) ps"
  assumes "distinct (map fst ps0)" "\<forall>(k, p)\<in>set ps0. k = pr_key p \<and> p \<in> S" "pi_KeyProvider ` set mps \<subseteq> S"
  shows "distinct (map fst (fold f mps ps0)) \<and> (\<forall>(k, p)\<in>set (fold f mps ps0). k = pr_key p \<and> p \<in> S) \<and>
    fst ` set (fold f mps ps0) = fst ` set ps0 \<union> (\<lambda>mp. pr_key (pi_KeyProvider mp)) ` set mps"
  using assms(2-4)
proof (induction mps arbitrary: ps0)
  case (Cons mp mps)
  let ?ps = "f mp ps0"
  have d: "distinct (map fst ?ps)" using Cons.prems(1) by (simp add: f_def distinct_update)
  have s: "\<forall>(k, p)\<in>set ?ps. k = pr_key p \<and> p \<in> S"
    using Cons.prems by (auto simp: f_def dest!: in_update)
  show ?case using Cons.IH [OF d s] Cons.prems(3) by (auto simp: f_def dom_update)
qed simp

lemma init_values_keeps: "init_values mps ctx = Return ctx' \<Longrightarrow> ci_providers ctx' = ci_providers ctx"
  by (induction mps arbitrary: ctx) (auto split: outcome.splits)

definition standard :: "('i \<Rightarrow> string option) \<Rightarrow> (string \<Rightarrow> 'i outcome) \<Rightarrow> ('i, 'l, 't) meta_value Provider set" where
  "standard toJson fromJson = {componentMDP, uuidMDP, systemInfoProvider toJson fromJson, logProvider, tracingProvider}"

lemma lower_keys:
  "ToLower ComponentKey = ComponentKey" "ToLower UUIDKey = UUIDKey" "ToLower LogKey = LogKey" "ToLower TracingKey = TracingKey"
  "ToLower SystemInfoKey = SystemInfoKey"
  by code_simp+

lemma provider_keys:
  "pr_key componentMDP = ComponentKey" "pr_key uuidMDP = UUIDKey" "pr_key (systemInfoProvider toJson fromJson) = SystemInfoKey"
  "pr_key logProvider = LogKey" "pr_key tracingProvider = TracingKey"
  by (simp_all add: providers)

lemma distinct_keys: "distinct [ComponentKey, UUIDKey, SystemInfoKey, LogKey, TracingKey]"
  by (simp add: mdkeys)

lemma standard_lower: "p \<in> standard toJson fromJson \<Longrightarrow> ToLower (pr_key p) = pr_key p"
  by (auto simp: standard_def provider_keys lower_keys)

lemma standard_inj: "p \<in> standard toJson fromJson \<Longrightarrow> q \<in> standard toJson fromJson \<Longrightarrow> pr_key p = pr_key q \<Longrightarrow> p = q"
  using distinct_keys by (auto simp: standard_def provider_keys)

text \<open>What a new context exports: one pair for each of its providers and nothing else.\<close>

lemma exported:
  assumes new: "NewContextWithParent parent inits = Return ci" and std: "pi_KeyProvider ` set inits \<subseteq> standard toJson fromJson"
    and export: "ExportToOutgoing [] (Some ci) = Return md" and p: "p \<in> standard toJson fromJson"
  shows "md_Get md (pr_key p) = [] \<and> p \<notin> pi_KeyProvider ` set inits \<or>
    (\<exists>s. md_Get md (pr_key p) = [s] \<and> pr_Marshal p (ci_Value ci (pr_key p)) = Return s)"
proof -
  let ?ps = "ci_providers ci"
  have ps: "?ps = fold (\<lambda>mp ps. AList.update (pr_key (pi_KeyProvider mp)) (pi_KeyProvider mp) ps) inits []"
    using init_values_keeps [OF new [unfolded NewContextWithParent_def]] by simp
  have wf: "distinct (map fst ?ps)" "\<And>k q. (k, q) \<in> set ?ps \<Longrightarrow> k = pr_key q \<and> q \<in> standard toJson fromJson"
    "fst ` set ?ps = (\<lambda>mp. pr_key (pi_KeyProvider mp)) ` set inits"
    using new_providers [of "[]" "standard toJson fromJson" inits] std unfolding ps by auto
  have keys: "map pr_key (MetadataProviders ci) = map fst ?ps" using wf(2) by (auto simp: MetadataProviders_def)
  have md: "marshal_all ci (MetadataProviders ci) = Return md" using export by (simp add: ExportToOutgoing_def split: outcome.splits)
  note m = marshal_all_Return [OF md]
  have fsts: "map fst md = map fst ?ps" using m keys by simp
  have lower: "ToLower k = k" if "k \<in> set (map fst md)" for k
    using that wf(2) standard_lower unfolding fsts by fastforce
  show ?thesis
  proof (cases "pr_key p \<in> fst ` set ?ps")
    case True
    then obtain q where q: "(pr_key p, q) \<in> set ?ps" by auto
    then have "q = p" using wf(2) standard_inj p by metis
    then have "p \<in> set (MetadataProviders ci)" using q by (force simp: MetadataProviders_def)
    then obtain s where s: "pr_Marshal p (ci_Value ci (pr_key p)) = Return s" "(pr_key p, s) \<in> set md" using m by blast
    have "md_Get md (pr_key p) = [s]" by (rule md_Get_single [OF _ s(2) lower]) (simp_all add: fsts wf(1))
    with s(1) show ?thesis by blast
  next
    case False
    have "md_Get md (pr_key p) = []" by (rule md_Get_absent [OF _ standard_lower [OF p] lower]) (use False fsts in auto)
    moreover have "p \<notin> pi_KeyProvider ` set inits" using False wf(3) by auto
    ultimately show ?thesis by blast
  qed
qed

lemma key_neq:
  "ComponentKey \<noteq> UUIDKey" "ComponentKey \<noteq> SystemInfoKey" "ComponentKey \<noteq> LogKey" "ComponentKey \<noteq> TracingKey"
  "UUIDKey \<noteq> SystemInfoKey" "UUIDKey \<noteq> LogKey" "UUIDKey \<noteq> TracingKey" "SystemInfoKey \<noteq> LogKey"
  "SystemInfoKey \<noteq> TracingKey" "LogKey \<noteq> TracingKey"
  by (simp_all add: mdkeys)

lemmas keys_neq = key_neq key_neq [symmetric]

lemma Unmarshal_simps:
  "pr_Unmarshal componentMDP s = Return (Some (MV_Component (Component_value s)))"
  "pr_Unmarshal uuidMDP s = Return (Some (MV_UUID s))"
  by (simp_all add: componentMDP_def uuidMDP_def)

lemma Marshal_simps:
  "pr_Marshal componentMDP (Some (MV_Component c)) = Return (Component_name c)" "pr_Marshal uuidMDP (Some (MV_UUID u)) = Return u"
  "pr_Marshal logProvider v = Return []" "pr_Marshal tracingProvider v = Return []"
  by (simp_all add: componentMDP_def uuidMDP_def logProvider_def tracingProvider_def)

lemma required_ids:
  assumes "md_Get md ComponentKey = [Component_name c]" "md_Get md UUIDKey = [u]"
  shows "import_required err_Error md [componentMDP, uuidMDP] ([], []) =
    Return ([(ComponentKey, componentMDP), (UUIDKey, uuidMDP)], [(ComponentKey, Some (MV_Component c)), (UUIDKey, Some (MV_UUID u))])"
  by (simp add: addProvider_def provider_keys assms Unmarshal_simps Component_value_name keys_neq)

lemma optional_info:
  fixes toJson :: "'i \<Rightarrow> string option" and fromJson :: "string \<Rightarrow> 'i outcome"
  defines "p \<equiv> systemInfoProvider toJson fromJson"
  assumes "map_of (snd acc) SystemInfoKey = None"
    and "md_Get md SystemInfoKey = [] \<or> (\<exists>s x. md_Get md SystemInfoKey = [s] \<and> fromJson s = Return x)"
  shows "\<exists>acc'. import_optional err_Error md [p] acc = Return acc' \<and>
    (\<forall>k. k \<noteq> SystemInfoKey \<longrightarrow> map_of (snd acc') k = map_of (snd acc) k) \<and>
    (\<forall>s x. md_Get md SystemInfoKey = [s] \<longrightarrow> fromJson s = Return x \<longrightarrow> map_of (snd acc') SystemInfoKey = Some (Some (MV_SystemInfo x)))"
proof (cases "md_Get md SystemInfoKey")
  case Nil
  then show ?thesis by (simp add: addProvider_def provider_keys p_def)
next
  case (Cons s ss)
  then obtain x where "fromJson s = Return x" "ss = []" using assms(3) by auto
  then have "import_optional err_Error md [p] acc =
    Return (AList.update SystemInfoKey p (fst acc), AList.update SystemInfoKey (Some (MV_SystemInfo x)) (snd acc))"
    using Cons by (simp add: addProvider_def provider_keys p_def) (simp add: systemInfoProvider_def)
  then show ?thesis using Cons \<open>fromJson s = Return x\<close> by (simp add: update_conv')
qed

lemma server_import:
  fixes toJson :: "'i \<Rightarrow> string option" and srv :: "('i, 'l, 't) meta_value contextImpl"
  assumes comp: "md_Get md ComponentKey = [Component_name c]" and uuid: "md_Get md UUIDKey = [u]"
    and sys: "md_Get md SystemInfoKey = [] \<or> (\<exists>s x. md_Get md SystemInfoKey = [s] \<and> fromJson s = Return x)"
  shows "\<exists>ctx. ImportFromIncoming err_Error base (Some md) (server_imports toJson fromJson (Some srv)) = Return ctx \<and>
    ci_Value ctx ComponentKey = Some (MV_Component c) \<and> ci_Value ctx UUIDKey = Some (MV_UUID u) \<and>
    (\<forall>s x. md_Get md SystemInfoKey = [s] \<longrightarrow> fromJson s = Return x \<longrightarrow> ci_Value ctx SystemInfoKey = Some (MV_SystemInfo x)) \<and>
    ci_Value ctx LogKey = Option.bind (map_of (ci_values srv) LogKey) id \<and>
    ci_Value ctx TracingKey = Option.bind (map_of (ci_values srv) TracingKey) id"
proof -
  let ?acc = "([(ComponentKey, componentMDP), (UUIDKey, uuidMDP)], [(ComponentKey, Some (MV_Component c)), (UUIDKey, Some (MV_UUID u))])
    :: ('i, 'l, 't) meta_value imported"
  have none: "map_of (snd ?acc) SystemInfoKey = None" by (simp add: keys_neq)
  obtain acc' where acc': "import_optional err_Error md [systemInfoProvider toJson fromJson] ?acc = Return acc'"
    "\<And>k. k \<noteq> SystemInfoKey \<Longrightarrow> map_of (snd acc') k = map_of (snd ?acc) k"
    "\<And>s x. md_Get md SystemInfoKey = [s] \<Longrightarrow> fromJson s = Return x \<Longrightarrow> map_of (snd acc') SystemInfoKey = Some (Some (MV_SystemInfo x))"
    using optional_info [OF none sys, of err_Error toJson] by blast
  let ?vs = "snd (inherit srv [logProvider, tracingProvider] acc')"
  have vs: "map_of ?vs k = (if k = LogKey \<or> k = TracingKey then Some (Option.bind (map_of (ci_values srv) k) id) else map_of (snd acc') k)" for k
    by (simp add: inherit_def provider_keys update_conv' keys_neq split: option.split)
  show ?thesis
    by (auto simp: ImportFromIncoming_def server_imports_def required_ids [OF comp uuid] acc' vs keys_neq ci_Value_def Let_def
        simp del: import_required.simps import_optional.simps)
qed

section \<open>Properties\<close>

text \<open>C28: a call from a context made of the providers of the program, with component and UUID among
  them, reaches the handler of a server. The context the handler gets passes \<open>CheckContext\<close>, identifies
  the caller by the component and UUID of the caller's context, carries the caller's system info if
  there is one, and has the logger and the tracer of the server.\<close>

theorem identity_survives_call:
  assumes new: "NewContextWithParent parent inits = Return ci" and std: "pi_KeyProvider ` set inits \<subseteq> standard toJson fromJson"
    and ids: "componentMDP \<in> pi_KeyProvider ` set inits" "uuidMDP \<in> pi_KeyProvider ` set inits"
    and export: "ExportToOutgoing [] (Some ci) = Return md"
    and codec: "\<And>x s. toJson x = Some s \<Longrightarrow> fromJson s = Return x"
  shows "\<exists>ctx. intercepted_call err_Error base (server_imports toJson fromJson (Some srv)) handler [] (Some ci) = handler ctx \<and>
    CheckContext (ci_Value ctx) = None \<and> meta_Component (ci_Value ctx) = meta_Component (ci_Value ci) \<and>
    meta_UUID (ci_Value ctx) = meta_UUID (ci_Value ci) \<and>
    (systemInfoProvider toJson fromJson \<in> pi_KeyProvider ` set inits \<longrightarrow> meta_SystemInfo (ci_Value ctx) = meta_SystemInfo (ci_Value ci)) \<and>
    ci_Value ctx LogKey = Option.bind (map_of (ci_values srv) LogKey) id \<and>
    ci_Value ctx TracingKey = Option.bind (map_of (ci_values srv) TracingKey) id"
proof -
  note ex = exported [OF new std export]
  obtain c where c: "md_Get md ComponentKey = [Component_name c]" "ci_Value ci ComponentKey = Some (MV_Component c)"
    using ex [of componentMDP] ids(1)
    by (auto simp: standard_def provider_keys componentMDP_def split: option.splits meta_value.splits)
  obtain u where u: "md_Get md UUIDKey = [u]" "ci_Value ci UUIDKey = Some (MV_UUID u)"
    using ex [of uuidMDP] ids(2)
    by (auto simp: standard_def provider_keys uuidMDP_def split: option.splits meta_value.splits)
  let ?p = "systemInfoProvider toJson fromJson :: ('a, 'b, 'c) meta_value Provider"
  have sys: "md_Get md SystemInfoKey = [] \<and> ?p \<notin> pi_KeyProvider ` set inits \<or>
    (\<exists>s x. md_Get md SystemInfoKey = [s] \<and> ci_Value ci SystemInfoKey = Some (MV_SystemInfo x) \<and> fromJson s = Return x)"
    using ex [of ?p] codec
    by (auto simp: standard_def provider_keys systemInfoProvider_def split: option.splits meta_value.splits)
  obtain ctx where ctx: "ImportFromIncoming err_Error base (Some md) (server_imports toJson fromJson (Some srv)) = Return ctx"
    "ci_Value ctx ComponentKey = Some (MV_Component c)" "ci_Value ctx UUIDKey = Some (MV_UUID u)"
    "\<And>s x. md_Get md SystemInfoKey = [s] \<Longrightarrow> fromJson s = Return x \<Longrightarrow> ci_Value ctx SystemInfoKey = Some (MV_SystemInfo x)"
    "ci_Value ctx LogKey = Option.bind (map_of (ci_values srv) LogKey) id"
    "ci_Value ctx TracingKey = Option.bind (map_of (ci_values srv) TracingKey) id"
    using server_import [OF c(1) u(1), of fromJson err_Error base toJson srv] sys by blast
  show ?thesis
  proof (intro exI [of _ ctx] conjI impI)
    assume "?p \<in> pi_KeyProvider ` set inits"
    then show "meta_SystemInfo (ci_Value ctx) = meta_SystemInfo (ci_Value ci)"
      using sys ctx(4) by (auto simp: meta_SystemInfo_def)
  qed (use c u ctx in \<open>auto simp: intercepted_call_def export CheckContext_def meta_Component_def meta_UUID_def\<close>)
qed

definition sample_inits :: "(string, string, string) meta_value providerInitInfo list" where
  "sample_inits =
     [\<lparr>pi_KeyProvider = componentMDP, pi_initializer = (\<lambda>_. Return (Some (MV_Component Agent)))\<rparr>,
      \<lparr>pi_KeyProvider = uuidMDP, pi_initializer = (\<lambda>_. Return (Some (MV_UUID ''42'')))\<rparr>,
      \<lparr>pi_KeyProvider = logProvider, pi_initializer = (\<lambda>_. Return (Some (MV_Log ''agent'')))\<rparr>]"

definition sample_server :: "(string, string, string) meta_value contextImpl" where
  "sample_server =
     \<lparr>ci_Context = (\<lambda>_. None), ci_providers = [],
      ci_values = [(LogKey, Some (MV_Log ''sched'')), (TracingKey, Some (MV_Tracer ''noop''))]\<rparr>"

lemma sample_context:
  "NewContextWithParent (\<lambda>_. None) sample_inits =
    Return \<lparr>ci_Context = \<lambda>_. None, ci_providers = [(ComponentKey, componentMDP), (UUIDKey, uuidMDP), (LogKey, logProvider)],
            ci_values = [(ComponentKey, Some (MV_Component Agent)), (UUIDKey, Some (MV_UUID ''42'')), (LogKey, Some (MV_Log ''agent''))]\<rparr>"
  by (simp add: NewContextWithParent_def sample_inits_def provider_keys keys_neq)

lemma sample_export:
  "ExportToOutgoing [] (Some \<lparr>ci_Context = \<lambda>_. None, ci_providers = [(ComponentKey, componentMDP), (UUIDKey, uuidMDP), (LogKey, logProvider)],
     ci_values = [(ComponentKey, Some (MV_Component Agent)), (UUIDKey, Some (MV_UUID ''42'')), (LogKey, Some (MV_Log ''agent''))]\<rparr>) =
   Return [(ComponentKey, ''Component_Agent''), (UUIDKey, ''42''), (LogKey, [])]"
  by (simp add: ExportToOutgoing_def MetadataProviders_def provider_keys ci_Value_def keys_neq Marshal_simps)

theorem identity_survives_call_witness:
  "\<exists>ctx :: (string, string, string) meta_value contextImpl. CheckContext (ci_Value ctx) = None \<and>
     meta_Component (ci_Value ctx) = Return Agent \<and> meta_UUID (ci_Value ctx) = Return ''42'' \<and> meta_Log (ci_Value ctx) = Return ''sched''"
proof -
  have std: "pi_KeyProvider ` set sample_inits \<subseteq> standard (\<lambda>x. Some x) Return" by (auto simp: sample_inits_def standard_def)
  have ids: "componentMDP \<in> pi_KeyProvider ` set sample_inits" "uuidMDP \<in> pi_KeyProvider ` set sample_inits"
    by (simp_all add: sample_inits_def)
  show ?thesis
    using identity_survives_call [OF sample_context std ids sample_export, of err_Error base sample_server "\<lambda>c. Return c"]
    by (auto simp: ci_Value_def meta_Component_def meta_UUID_def meta_Log_def sample_server_def keys_neq)
qed

text \<open>What a server accepts is well typed, whatever the caller sent.\<close>

lemma addProvider_Return:
  "addProvider err_Error md p acc = Return acc' \<Longrightarrow>
     \<exists>s v. md_Get md (pr_key p) \<noteq> [] \<and> pr_Unmarshal p s = Return v \<and>
       acc' = (AList.update (pr_key p) p (fst acc), AList.update (pr_key p) v (snd acc))"
  by (auto simp: addProvider_def split: list.splits outcome.splits)

lemma required_typed:
  assumes "import_required err_Error md [componentMDP, uuidMDP] acc = Return acc'"
  shows "\<exists>c u. map_of (snd acc') = (map_of (snd acc))(ComponentKey \<mapsto> Some (MV_Component c), UUIDKey \<mapsto> Some (MV_UUID u))"
  using assms
  by (auto split: outcome.splits dest!: addProvider_Return simp: provider_keys Unmarshal_simps update_conv') blast

lemma optional_typed:
  assumes "import_optional err_Error md [systemInfoProvider toJson fromJson] acc = Return acc'"
  shows "md_Get md SystemInfoKey = [] \<and> acc' = acc \<or>
    md_Get md SystemInfoKey \<noteq> [] \<and> (\<exists>x. map_of (snd acc') = (map_of (snd acc))(SystemInfoKey \<mapsto> Some (MV_SystemInfo x)))"
proof (cases "addProvider err_Error md (systemInfoProvider toJson fromJson) acc")
  case (Return a)
  then show ?thesis using assms addProvider_Return [OF Return]
    by (auto simp: provider_keys update_conv') (auto simp: systemInfoProvider_def split: outcome.splits)
next
  case (Fail e)
  then show ?thesis using assms
    by (auto simp: addProvider_def provider_keys split: list.splits outcome.splits)
qed (use assms in simp)

text \<open>C29: whatever metadata a caller sends, the context that a server with a logger and a tracer makes
  of it has a component, a UUID, a logger and a tracer of the right types, so that the accessors of
  the handlers do not panic. Only the system info may be missing: the accessor panics when the caller
  sent none.\<close>

theorem imported_context_typed:
  assumes import: "ImportFromIncoming err_Error base (Some md) (server_imports toJson fromJson (Some srv)) = Return ctx"
    and srv: "map_of (ci_values srv) LogKey = Some (Some (MV_Log l))" "map_of (ci_values srv) TracingKey = Some (Some (MV_Tracer t))"
  shows "CheckContext (ci_Value ctx) = None \<and> (\<exists>c. meta_Component (ci_Value ctx) = Return c) \<and> (\<exists>u. meta_UUID (ci_Value ctx) = Return u) \<and>
    meta_Log (ci_Value ctx) = Return l \<and> meta_Tracer (ci_Value ctx) = Return t \<and>
    (if md_Get md SystemInfoKey = [] then base SystemInfoKey = None \<longrightarrow> meta_SystemInfo (ci_Value ctx) = Panic
     else \<exists>i. meta_SystemInfo (ci_Value ctx) = Return i)"
proof -
  obtain acc acc' where acc: "import_required err_Error md [componentMDP, uuidMDP] ([], []) = Return acc"
    "import_optional err_Error md [systemInfoProvider toJson fromJson] acc = Return acc'"
    "ctx = \<lparr>ci_Context = base, ci_providers = fst (inherit srv [logProvider, tracingProvider] acc'),
            ci_values = snd (inherit srv [logProvider, tracingProvider] acc')\<rparr>"
    using import by (auto simp: ImportFromIncoming_def server_imports_def Let_def simp del: import_required.simps import_optional.simps
        split: outcome.splits)
  obtain c u where cu: "map_of (snd acc) = [ComponentKey \<mapsto> Some (MV_Component c), UUIDKey \<mapsto> Some (MV_UUID u)]"
    using required_typed [OF acc(1)] by auto
  have vs: "map_of (ci_values ctx) = (map_of (snd acc'))(LogKey \<mapsto> Some (MV_Log l), TracingKey \<mapsto> Some (MV_Tracer t))"
    by (simp add: acc(3) inherit_def provider_keys update_conv' srv)
  have ctx: "ci_Context ctx = base" by (simp add: acc(3))
  from optional_typed [OF acc(2)] show ?thesis
    by (elim disjE conjE exE) (simp_all add: ci_Value_def vs ctx cu keys_neq meta_Component_def meta_UUID_def meta_Log_def
        meta_Tracer_def meta_SystemInfo_def CheckContext_def)
qed

theorem imported_context_typed_witness:
  "\<exists>ctx :: (string, string, string) meta_value contextImpl.
     ImportFromIncoming (\<lambda>_. []) (\<lambda>_. None) (Some [(ComponentKey, ''x''), (UUIDKey, ''42'')])
       (server_imports (\<lambda>x. Some x) Return (Some sample_server)) = Return ctx \<and> meta_SystemInfo (ci_Value ctx) = Panic \<and>
     (\<exists>u. meta_UUID (ci_Value ctx) = Return u)"
proof -
  let ?md = "[(ComponentKey, ''x''), (UUIDKey, ''42'')]"
  have g: "md_Get ?md ComponentKey = [''x'']" "md_Get ?md UUIDKey = [''42'']" "md_Get ?md SystemInfoKey = []"
    by (simp_all add: md_Get_def lower_keys keys_neq)
  obtain ctx :: "(string, string, string) meta_value contextImpl" where ctx: "ImportFromIncoming (\<lambda>_. []) (\<lambda>_. None) (Some ?md)
    (server_imports (\<lambda>x. Some x) Return (Some sample_server)) = Return ctx"
    by (simp add: ImportFromIncoming_def server_imports_def addProvider_def provider_keys g Unmarshal_simps Let_def)
  show ?thesis
    using imported_context_typed [OF ctx, of "''sched''" "''noop''"] ctx by (auto simp: g sample_server_def keys_neq)
qed

end
