(* ===== verification/Contexts.thy ===== *)
theory Contexts
  imports Prelude
begin

text \<open>
  Contexts that combine others: \<open>PairContext\<close> of \<open>src/pkg/run/task.go\<close> and \<open>CancelAny\<close> of
  \<open>src/pkg/util/context.go\<close>; the goroutines of \<open>src/pkg/util/timer.go\<close>. A context is seen through its
  interface: a deadline, the error it has once it is done, and its values. The channel returned by
  \<open>Done\<close> is closed when the context has an error.
\<close>

section \<open>Model\<close>

record 'v gocontext =
  gc_Deadline :: "int option"
  gc_Err :: "go_error option"
  gc_Value :: "string \<Rightarrow> 'v option"

definition ctx_Done :: "'v gocontext \<Rightarrow> bool" where
  "ctx_Done c = (gc_Err c \<noteq> None)"

record 'v PairContext =
  pc_ServerContext :: "'v gocontext"
  pc_ClientContext :: "'v gocontext"

definition pair_Deadline :: "'v PairContext \<Rightarrow> int option" where
  "pair_Deadline pc =
     (case (gc_Deadline (pc_ClientContext pc), gc_Deadline (pc_ServerContext pc)) of
        (Some timeA, Some timeB) \<Rightarrow> if timeA < timeB then Some timeA else Some timeB
      | (Some timeA, None) \<Rightarrow> Some timeA
      | (None, Some timeB) \<Rightarrow> Some timeB
      | (None, None) \<Rightarrow> None)"

definition pair_Done :: "'v PairContext \<Rightarrow> bool" where
  "pair_Done pc = (ctx_Done (pc_ClientContext pc) \<or> ctx_Done (pc_ServerContext pc))"

definition pair_Err :: "'v PairContext \<Rightarrow> go_error option" where
  "pair_Err pc = (case gc_Err (pc_ServerContext pc) of Some err \<Rightarrow> Some err | None \<Rightarrow> gc_Err (pc_ClientContext pc))"

definition pair_Value :: "'v PairContext \<Rightarrow> string \<Rightarrow> 'v option" where
  "pair_Value pc key =
     (case gc_Value (pc_ServerContext pc) key of Some v \<Rightarrow> Some v | None \<Rightarrow> gc_Value (pc_ClientContext pc) key)"

text \<open>\<open>CancelAny\<close>: without contexts the result is canceled from the start.\<close>

definition canceled_ctx :: "'v gocontext" where
  "canceled_ctx = \<lparr>gc_Deadline = None, gc_Err = Some (Error ''context canceled''), gc_Value = (\<lambda>_. None)\<rparr>"

fun deadlines :: "'v gocontext list \<Rightarrow> int list" where
  "deadlines [] = []"
| "deadlines (ctx # ctxs) = (case gc_Deadline ctx of Some t \<Rightarrow> t # deadlines ctxs | None \<Rightarrow> deadlines ctxs)"

definition any_Deadline :: "'v gocontext list \<Rightarrow> int option" where
  "any_Deadline ctxs = (case sort (deadlines ctxs) of [] \<Rightarrow> None | t # _ \<Rightarrow> Some t)"

definition any_Done :: "'v gocontext list \<Rightarrow> bool" where
  "any_Done ctxs = list_ex ctx_Done ctxs"

fun any_Err :: "'v gocontext list \<Rightarrow> go_error option" where
  "any_Err [] = None"
| "any_Err (ctx # ctxs) = (case gc_Err ctx of Some err \<Rightarrow> Some err | None \<Rightarrow> any_Err ctxs)"

fun any_Value :: "'v gocontext list \<Rightarrow> string \<Rightarrow> 'v option" where
  "any_Value [] key = None"
| "any_Value (ctx # ctxs) key = (case gc_Value ctx key of Some v \<Rightarrow> Some v | None \<Rightarrow> any_Value ctxs key)"

definition CancelAny :: "'v gocontext list \<Rightarrow> 'v gocontext" where
  "CancelAny ctxs =
     (if ctxs = [] then canceled_ctx
      else \<lparr>gc_Deadline = any_Deadline ctxs, gc_Err = any_Err ctxs, gc_Value = any_Value ctxs\<rparr>)"

section \<open>The contract of a context\<close>

text \<open>The documented laws of \<open>context.Context\<close> that its users rely on: \<open>Err\<close> is not nil exactly when
  \<open>Done\<close> is closed, and a parent's end is the end of the child, whose deadline is no later.\<close>

locale combined_context =
  fixes parents :: "'c \<Rightarrow> 'v gocontext list"
    and deadline :: "'c \<Rightarrow> int option" and is_done :: "'c \<Rightarrow> bool" and err :: "'c \<Rightarrow> go_error option"
    and lookup :: "'c \<Rightarrow> string \<Rightarrow> 'v option"
  assumes done_err: "is_done c \<longleftrightarrow> err c \<noteq> None"
    and done_parent: "is_done c \<longleftrightarrow> (\<exists>p\<in>set (parents c). ctx_Done p)"
    and err_parent: "err c = Some e \<Longrightarrow> \<exists>p\<in>set (parents c). gc_Err p = Some e"
    and deadline_Some: "deadline c = Some t \<longleftrightarrow>
      (\<exists>p\<in>set (parents c). gc_Deadline p = Some t) \<and> (\<forall>p\<in>set (parents c). \<forall>u. gc_Deadline p = Some u \<longrightarrow> t \<le> u)"
    and lookup_parent: "lookup c k = Some v \<Longrightarrow> \<exists>p\<in>set (parents c). gc_Value p k = Some v"
    and lookup_None: "lookup c k = None \<longleftrightarrow> (\<forall>p\<in>set (parents c). gc_Value p k = None)"
begin

definition view :: "'c \<Rightarrow> 'v gocontext" where
  "view c = \<lparr>gc_Deadline = deadline c, gc_Err = err c, gc_Value = lookup c\<rparr>"

lemma view_alive: "gc_Err (view c) = None \<longleftrightarrow> (\<forall>p\<in>set (parents c). gc_Err p = None)"
  using done_err [of c] done_parent [of c] by (auto simp: view_def ctx_Done_def)

lemma view_deadline_le: "p \<in> set (parents c) \<Longrightarrow> gc_Deadline p = Some u \<Longrightarrow> \<exists>t\<le>u. gc_Deadline (view c) = Some t"
proof -
  assume p: "p \<in> set (parents c)" "gc_Deadline p = Some u"
  let ?T = "{t. \<exists>p\<in>set (parents c). gc_Deadline p = Some t}"
  have "?T = (\<lambda>p. the (gc_Deadline p)) ` {p \<in> set (parents c). gc_Deadline p \<noteq> None}" by force
  then have fin: "finite ?T" by simp
  have "Min ?T \<in> ?T" "Min ?T \<le> u" "\<forall>t\<in>?T. Min ?T \<le> t" using p Min_in [OF fin] Min_le [OF fin] by blast+
  then have "deadline c = Some (Min ?T)" by (subst deadline_Some) blast
  then show ?thesis using \<open>Min ?T \<le> u\<close> by (auto simp: view_def)
qed

end

lemma deadlines_iff: "t \<in> set (deadlines ctxs) \<longleftrightarrow> (\<exists>p\<in>set ctxs. gc_Deadline p = Some t)"
  by (induction ctxs) (auto split: option.splits)

lemma any_Deadline_Some:
  "any_Deadline ctxs = Some t \<longleftrightarrow> t \<in> set (deadlines ctxs) \<and> (\<forall>u\<in>set (deadlines ctxs). t \<le> u)"
proof (cases "sort (deadlines ctxs)")
  case Nil
  then have "set (deadlines ctxs) = {}" by (metis list.set(1) set_sort)
  with Nil show ?thesis by (simp add: any_Deadline_def)
next
  case (Cons x xs)
  have "set (deadlines ctxs) = set (x # xs)" using arg_cong [OF Cons, of set] by simp
  moreover have "sorted (x # xs)" unfolding Cons [symmetric] by simp
  ultimately show ?thesis using Cons by (auto simp: any_Deadline_def)
qed

lemma any_Err_None: "any_Err ctxs = None \<longleftrightarrow> (\<forall>p\<in>set ctxs. gc_Err p = None)"
  by (induction ctxs) (auto split: option.splits)

lemma any_Err_Some: "any_Err ctxs = Some e \<Longrightarrow> \<exists>p\<in>set ctxs. gc_Err p = Some e"
  by (induction ctxs) (auto split: option.splits)

lemma any_Value_None: "any_Value ctxs k = None \<longleftrightarrow> (\<forall>p\<in>set ctxs. gc_Value p k = None)"
  by (induction ctxs) (auto split: option.splits)

lemma any_Value_Some: "any_Value ctxs k = Some v \<Longrightarrow> \<exists>p\<in>set ctxs. gc_Value p k = Some v"
  by (induction ctxs) (auto split: option.splits)

interpretation any: combined_context "\<lambda>ctxs. ctxs" any_Deadline any_Done any_Err any_Value
proof (unfold_locales, goal_cases)
  case (1 c)
  show ?case using any_Err_None [of c] by (auto simp: any_Done_def list_ex_iff ctx_Done_def)
next
  case (2 c)
  show ?case by (simp add: any_Done_def list_ex_iff)
next
  case (4 c t)
  show ?case using deadlines_iff [of _ c] unfolding any_Deadline_Some by blast
qed (auto simp: any_Err_Some any_Value_Some any_Value_None)

text \<open>A pair is \<open>CancelAny\<close> of the server and the client.\<close>

lemma pair_is_any:
  fixes pc :: "'v PairContext"
  defines "ctxs \<equiv> [pc_ServerContext pc, pc_ClientContext pc]"
  shows "pair_Deadline pc = any_Deadline ctxs" "pair_Done pc = any_Done ctxs" "pair_Err pc = any_Err ctxs" "pair_Value pc = any_Value ctxs"
  by (auto simp: ctxs_def pair_Deadline_def any_Deadline_def pair_Done_def any_Done_def pair_Err_def pair_Value_def fun_eq_iff
      split: option.splits)

interpretation pair: combined_context "\<lambda>pc. [pc_ServerContext pc, pc_ClientContext pc]" pair_Deadline pair_Done pair_Err pair_Value
proof (unfold_locales, goal_cases)
  case (1 c)
  show ?case unfolding pair_is_any by (rule any.done_err)
next
  case (2 c)
  show ?case unfolding pair_is_any by (rule any.done_parent)
next
  case (3 c e)
  then show ?case unfolding pair_is_any by (rule any.err_parent)
next
  case (4 c t)
  show ?case unfolding pair_is_any by (rule any.deadline_Some)
next
  case (5 c k v)
  then show ?case unfolding pair_is_any by (rule any.lookup_parent)
next
  case (6 c k)
  show ?case unfolding pair_is_any by (rule any.lookup_None)
qed

section \<open>Timers\<close>

text \<open>\<open>RunPeriodic\<close>: what a tick of \<open>JitterUntil\<close> starts; \<open>shouldRun\<close> is false before the first tick unless
  the functions run at once. \<open>RunOnNotify\<close>: what a receive of the channel starts, or the end.\<close>

definition RunPeriodic_start :: "bool \<Rightarrow> bool" where
  "RunPeriodic_start now = now"

definition RunPeriodic_tick :: "'f list \<Rightarrow> bool \<Rightarrow> 'f list \<times> bool" where
  "RunPeriodic_tick funcs shouldRun = (if \<not> shouldRun then ([], True) else (funcs, True))"

fun periodic_runs :: "'f list \<Rightarrow> nat \<Rightarrow> bool \<Rightarrow> 'f list" where
  "periodic_runs funcs 0 shouldRun = []"
| "periodic_runs funcs (Suc n) shouldRun = (let (started, s) = RunPeriodic_tick funcs shouldRun in started @ periodic_runs funcs n s)"

datatype notification = Notified | Channel_Closed | Ctx_Done

fun RunOnNotify :: "'f list \<Rightarrow> notification list \<Rightarrow> 'f list" where
  "RunOnNotify funcs [] = []"
| "RunOnNotify funcs (Notified # ns) = funcs @ RunOnNotify funcs ns"
| "RunOnNotify funcs (Channel_Closed # ns) = []"
| "RunOnNotify funcs (Ctx_Done # ns) = []"

lemma periodic_runs_count:
  "periodic_runs funcs n s = concat (replicate (if s then n else n - 1) funcs)"
  proof (induction n arbitrary: s)
  case (Suc n)
  have True: "periodic_runs funcs n True = concat (replicate n funcs)" using Suc.IH [of True] by simp
  then show ?case by (simp add: RunPeriodic_tick_def)
qed simp

end
