(* ===== verification/Consumer.thy ===== *)
theory Consumer
  imports Consumerd "HOL-Library.Word"
begin

text \<open>
  \<open>src/pkg/consumer/path_search.go\<close> and \<open>src/pkg/consumer/dispatch.go\<close>: the program that takes the place
  of the compiler. It looks for the real compiler in the search path, leaving itself out, and hands
  the command to the daemon. What the operating system answers is a parameter.
\<close>

unbundle bit_operations_syntax

section \<open>Model\<close>

record os_view =
  os_Stat :: "string \<Rightarrow> go_error + 32 word"          \<comment> \<open>the \<open>FileMode\<close> of a file\<close>
  os_EvalSymlinks :: "string \<Rightarrow> string option"
  os_PATH :: string

definition samePath :: "os_view \<Rightarrow> string \<Rightarrow> string \<Rightarrow> bool" where
  "samePath sys a b =
     (if a = b then True
      else case os_EvalSymlinks sys a of
             None \<Rightarrow> False
           | Some a' \<Rightarrow> (case os_EvalSymlinks sys b of None \<Rightarrow> False | Some b' \<Rightarrow> a' = b'))"

definition ErrPermission :: go_error where
  "ErrPermission = Error ''permission denied''"

definition findExecutable :: "os_view \<Rightarrow> string \<Rightarrow> go_error option" where
  "findExecutable sys file =
     (case os_Stat sys file of
        Inl err \<Rightarrow> Some err
      | Inr m \<Rightarrow> if \<not> bit m 31 \<and> m AND 73 \<noteq> 0 then None else Some ErrPermission)"

definition SplitList :: "string \<Rightarrow> string list" where
  "SplitList path = (if path = [] then [] else Split (CHR '':'') path)"

text \<open>The loop of \<open>lookPath\<close> over the directories.\<close>

fun look_dirs :: "os_view \<Rightarrow> string \<Rightarrow> string \<Rightarrow> string list \<Rightarrow> string option" where
  "look_dirs sys file self [] = None"
| "look_dirs sys file self (dir # dirs) =
     (let path = Join [if dir = [] then ''.'' else dir, file]
      in if samePath sys path self then look_dirs sys file self dirs
         else if findExecutable sys path = None then Some path
         else look_dirs sys file self dirs)"

definition lookPath :: "os_view \<Rightarrow> string \<Rightarrow> string \<Rightarrow> (string \<times> go_error) + string" where
  "lookPath sys file self =
     (if CHR ''/'' \<in> set file then
        (case findExecutable sys file of None \<Rightarrow> Inr file | Some err \<Rightarrow> Inl (file, err))
      else case look_dirs sys file self (SplitList (os_PATH sys)) of
             Some path \<Rightarrow> Inr path
           | None \<Rightarrow> Inl (file, Error ''executable file not found in $PATH''))"

text \<open>\<open>Fatal\<close> ends the process; it is \<open>None\<close>.\<close>

definition findCompilerOrDie :: "os_view \<Rightarrow> string \<Rightarrow> string option \<Rightarrow> string option" where
  "findCompilerOrDie sys arg0 executable =
     (case executable of
        None \<Rightarrow> None
      | Some exe \<Rightarrow>
          (case os_EvalSymlinks sys exe of
             None \<Rightarrow> None
           | Some self \<Rightarrow> (case lookPath sys (Base arg0) self of Inr compiler \<Rightarrow> Some compiler | Inl _ \<Rightarrow> None)))"

record consumer_process =
  cp_args :: "string list"
  cp_environ :: "string list"
  cp_uid :: int
  cp_gid :: int
  cp_wd :: "string option"
  cp_terminal :: bool
  cp_stdin :: "bytes option"            \<comment> \<open>\<open>None\<close>: reading it fails\<close>
  cp_executable :: "string option"

record consumer_exit =
  ce_stdout :: bytes
  ce_stderr :: bytes
  ce_code :: int

text \<open>\<open>DispatchAndWait\<close> over the \<open>Run\<close> call of the daemon; \<open>None\<close> when the process ends with a fatal
  error.\<close>

definition dispatch_request :: "os_view \<Rightarrow> consumer_process \<Rightarrow> RunRequest option" where
  "dispatch_request sys p =
     (case (cp_wd p, if cp_terminal p then Some [] else cp_stdin p, cp_args p) of
        (Some wd, Some stdin, arg0 # args) \<Rightarrow>
          (case findCompilerOrDie sys arg0 (cp_executable p) of
             None \<Rightarrow> None
           | Some path \<Rightarrow>
               Some \<lparr>rr_Path = path, rr_Toolchain = None, rr_Args = args, rr_Env = cp_environ p, rr_UID = cp_uid p, rr_GID = cp_gid p,
                     rr_Stdin = stdin, rr_WorkDir = wd\<rparr>)
      | _ \<Rightarrow> None)"

definition DispatchAndWait :: "os_view \<Rightarrow> (RunRequest \<Rightarrow> RunResponse outcome) \<Rightarrow> consumer_process \<Rightarrow> consumer_exit option" where
  "DispatchAndWait sys run p =
     (case dispatch_request sys p of
        None \<Rightarrow> None
      | Some req \<Rightarrow>
          (case run req of
             Return resp \<Rightarrow> Some \<lparr>ce_stdout = rs_Stdout resp, ce_stderr = rs_Stderr resp, ce_code = rs_ReturnCode resp\<rparr>
           | _ \<Rightarrow> None))"

section \<open>Lemmas\<close>

definition candidate :: "string \<Rightarrow> string \<Rightarrow> string" where
  "candidate file dir = Join [if dir = [] then ''.'' else dir, file]"

definition suitable :: "os_view \<Rightarrow> string \<Rightarrow> string \<Rightarrow> bool" where
  "suitable sys self path \<longleftrightarrow> \<not> samePath sys path self \<and> findExecutable sys path = None"

lemma look_dirs_find:
  "look_dirs sys file self dirs = find (suitable sys self) (map (candidate file) dirs)"
  by (induction dirs) (auto simp: candidate_def suitable_def Let_def)

lemma lookPath_find:
  "CHR ''/'' \<notin> set file \<Longrightarrow> lookPath sys file self =
     (case find (suitable sys self) (map (candidate file) (SplitList (os_PATH sys))) of
        Some path \<Rightarrow> Inr path | None \<Rightarrow> Inl (file, Error ''executable file not found in $PATH''))"
  by (simp add: lookPath_def look_dirs_find)

lemma samePath_sym: "samePath sys a b = samePath sys b a"
  by (auto simp: samePath_def split: option.splits)

lemma samePath_resolved: "os_EvalSymlinks sys a = Some c \<Longrightarrow> os_EvalSymlinks sys b = Some c \<Longrightarrow> samePath sys a b"
  by (simp add: samePath_def)

lemma Base_no_slash:
  assumes "c \<in> set p" "c \<noteq> CHR ''/''"
  shows "CHR ''/'' \<notin> set (Base p)"
proof -
  let ?b = "takeWhile (\<lambda>c. c \<noteq> CHR ''/'') (dropWhile (\<lambda>c. c = CHR ''/'') (rev p))"
  have "CHR ''/'' \<notin> set ?b" by (auto dest: set_takeWhileD)
  moreover have "?b \<noteq> []"
  proof
    assume e: "?b = []"
    have "dropWhile (\<lambda>c. c = CHR ''/'') (rev p) \<noteq> []" using assms by (auto simp: dropWhile_eq_Nil_conv)
    with hd_dropWhile [OF this] e show False by (cases "dropWhile (\<lambda>c. c = CHR ''/'') (rev p)") (auto split: if_splits)
  qed
  ultimately show ?thesis using assms(1) by (auto simp: Base_def Let_def)
qed

section \<open>Properties\<close>

text \<open>The program does not run itself. Started under a name, it takes the first file of that name
  along the search path that is an executable file and is not the running executable under another
  name; symbolic links of what it takes do not lead back to it. When there is no such file it ends
  without a request.\<close>

theorem compiler_is_not_self:
  assumes "c \<in> set arg0" "c \<noteq> CHR ''/''" and self: "os_EvalSymlinks sys exe = Some self" "os_EvalSymlinks sys self = Some self"
  shows "findCompilerOrDie sys arg0 (Some exe) =
      find (\<lambda>path. \<not> samePath sys path self \<and> findExecutable sys path = None)
        (map (\<lambda>dir. Join [if dir = [] then ''.'' else dir, Base arg0]) (SplitList (os_PATH sys))) \<and>
    (\<forall>path. findCompilerOrDie sys arg0 (Some exe) = Some path \<longrightarrow> path \<noteq> self \<and> os_EvalSymlinks sys path \<noteq> Some self)"
proof -
  let ?ps = "map (candidate (Base arg0)) (SplitList (os_PATH sys))"
  have f: "findCompilerOrDie sys arg0 (Some exe) = find (suitable sys self) ?ps"
    using Base_no_slash [OF assms(1,2)] self(1) by (simp add: findCompilerOrDie_def lookPath_find split: option.splits)
  have "path \<noteq> self \<and> os_EvalSymlinks sys path \<noteq> Some self" if "find (suitable sys self) ?ps = Some path" for path
    using that self(2) samePath_resolved [of sys path self self]
    by (auto simp: find_Some_iff suitable_def samePath_def)
  moreover have "suitable sys self = (\<lambda>path. \<not> samePath sys path self \<and> findExecutable sys path = None)"
    "candidate (Base arg0) = (\<lambda>dir. Join [if dir = [] then ''.'' else dir, Base arg0])"
    by (simp_all add: suitable_def candidate_def fun_eq_iff)
  ultimately show ?thesis using f by simp
qed

definition sample_os :: os_view where
  "sample_os =
     \<lparr>os_Stat = (\<lambda>f. if f = ''/opt/gcc'' \<or> f = ''/usr/bin/gcc'' then Inr 493 else Inl (Error ''no such file'')),
      os_EvalSymlinks = (\<lambda>f. if f = ''/opt/gcc'' then Some ''/opt/kubecc'' else Some f), os_PATH = ''/opt::/usr/bin''\<rparr>"

theorem compiler_is_not_self_witness:
  "findCompilerOrDie sample_os ''gcc'' (Some ''/opt/kubecc'') = Some ''/usr/bin/gcc'' \<and> os_EvalSymlinks sample_os ''/usr/bin/gcc'' \<noteq> Some ''/opt/kubecc''"
proof -
  have c: "findCompilerOrDie sample_os ''gcc'' (Some ''/opt/kubecc'') = Some ''/usr/bin/gcc''" by code_simp
  have "os_EvalSymlinks sample_os ''/opt/kubecc'' = Some ''/opt/kubecc''" by (simp add: sample_os_def)
  with compiler_is_not_self [of "CHR ''g''" "''gcc''" sample_os "''/opt/kubecc''" "''/opt/kubecc''"] c show ?thesis by simp
qed

end
