(* ===== verification/Config.thy ===== *)
theory Config
  imports Prelude
begin

text \<open>
  \<open>src/pkg/config/spec.go\<close> and \<open>src/pkg/config/config.go\<close>: the configuration of the components, the
  merging of the global fields into them, and the search for the configuration file. The decoders
  of JSON and YAML are parameters; they give the value of the specification after decoding, also
  when they report an error, which is only printed.
\<close>

section \<open>Specifications\<close>

record GlobalSpec =
  gs_LogLevel :: string
  gs_LogFile :: string

text \<open>A nil \<open>UsageLimitsSpec\<close> is \<open>None\<close>.\<close>

type_synonym UsageLimitsSpec = "int option"

definition GetConcurrentProcessLimit :: "UsageLimitsSpec \<Rightarrow> int" where
  "GetConcurrentProcessLimit ul = (case ul of None \<Rightarrow> -1 | Some n \<Rightarrow> n)"

record StorageLimitsSpec =
  sl_Memory :: string
  sl_Disk :: string

record LocalStorageSpec =
  lss_Limits :: StorageLimitsSpec
  lss_Path :: string

record RemoteStorageSpec =
  rss_Endpoint :: string
  rss_AccessKey :: string
  rss_SecretKey :: string
  rss_TLS :: bool
  rss_CertPath :: string
  rss_Bucket :: string
  rss_Region :: string
  rss_ExpirationDays :: int

record AgentSpec =
  agent_Global :: GlobalSpec
  agent_UsageLimits :: UsageLimitsSpec
  agent_SchedulerAddress :: string
  agent_MonitorAddress :: string

record ConsumerSpec =
  consumer_Global :: GlobalSpec
  consumer_ConsumerdAddress :: string

record ConsumerdSpec =
  consumerd_Global :: GlobalSpec
  consumerd_UsageLimits :: UsageLimitsSpec
  consumerd_SchedulerAddress :: string
  consumerd_MonitorAddress :: string
  consumerd_ListenAddress :: string
  consumerd_DisableTLS :: bool

record SchedulerSpec =
  scheduler_Global :: GlobalSpec
  scheduler_MonitorAddress :: string
  scheduler_CacheAddress :: string
  scheduler_ListenAddress :: string

record MonitorSpec =
  monitor_Global :: GlobalSpec
  monitor_ListenAddress :: string
  monitor_ServePrometheusMetrics :: bool

record CacheSpec =
  cache_Global :: GlobalSpec
  cache_VolatileStorage :: "StorageLimitsSpec option"
  cache_LocalStorage :: "LocalStorageSpec option"
  cache_RemoteStorage :: "RemoteStorageSpec option"
  cache_ListenAddress :: string
  cache_MonitorAddress :: string

record KcctlSpec =
  kcctl_Global :: GlobalSpec
  kcctl_MonitorAddress :: string
  kcctl_SchedulerAddress :: string
  kcctl_DisableTLS :: bool

record KubeccSpec =
  ks_Global :: GlobalSpec
  ks_Agent :: AgentSpec
  ks_Consumer :: ConsumerSpec
  ks_Consumerd :: ConsumerdSpec
  ks_Scheduler :: SchedulerSpec
  ks_Monitor :: MonitorSpec
  ks_Cache :: CacheSpec
  ks_Kcctl :: KcctlSpec

section \<open>Loading\<close>

text \<open>\<open>Merge\<close>: empty fields are filled in.\<close>

definition Merge :: "GlobalSpec \<Rightarrow> GlobalSpec \<Rightarrow> GlobalSpec" where
  "Merge override global =
     \<lparr>gs_LogLevel = (if gs_LogLevel override = [] then gs_LogLevel global else gs_LogLevel override),
      gs_LogFile = (if gs_LogFile override = [] then gs_LogFile global else gs_LogFile override)\<rparr>"

definition ApplyGlobals :: "KubeccSpec \<Rightarrow> KubeccSpec" where
  "ApplyGlobals cfg =
     (let g = ks_Global cfg
      in cfg\<lparr>ks_Agent := (ks_Agent cfg)\<lparr>agent_Global := Merge (agent_Global (ks_Agent cfg)) g\<rparr>,
             ks_Consumer := (ks_Consumer cfg)\<lparr>consumer_Global := Merge (consumer_Global (ks_Consumer cfg)) g\<rparr>,
             ks_Consumerd := (ks_Consumerd cfg)\<lparr>consumerd_Global := Merge (consumerd_Global (ks_Consumerd cfg)) g\<rparr>,
             ks_Scheduler := (ks_Scheduler cfg)\<lparr>scheduler_Global := Merge (scheduler_Global (ks_Scheduler cfg)) g\<rparr>,
             ks_Monitor := (ks_Monitor cfg)\<lparr>monitor_Global := Merge (monitor_Global (ks_Monitor cfg)) g\<rparr>,
             ks_Cache := (ks_Cache cfg)\<lparr>cache_Global := Merge (cache_Global (ks_Cache cfg)) g\<rparr>,
             ks_Kcctl := (ks_Kcctl cfg)\<lparr>kcctl_Global := Merge (kcctl_Global (ks_Kcctl cfg)) g\<rparr>\<rparr>)"

record config_files =
  cf_ReadFile :: "string \<Rightarrow> bytes option"
  cf_json :: "bytes \<Rightarrow> KubeccSpec"
  cf_yaml :: "bytes \<Rightarrow> KubeccSpec"
  cf_HomeDir :: string

definition HasSuffix :: "string \<Rightarrow> string \<Rightarrow> bool" where
  "HasSuffix s suf = (length suf \<le> length s \<and> drop (length s - length suf) s = suf)"

definition LoadFile :: "config_files \<Rightarrow> string \<Rightarrow> KubeccSpec" where
  "LoadFile fs path =
     (let contents = (case cf_ReadFile fs path of Some b \<Rightarrow> b | None \<Rightarrow> [])
      in ApplyGlobals ((if HasSuffix path ''.json'' then cf_json fs else cf_yaml fs) contents))"

definition config_candidates :: "config_files \<Rightarrow> string list" where
  "config_candidates fs =
     concat (map (\<lambda>p. map (\<lambda>f. Join [p, f]) [''config.yaml'', ''config.yml'', ''config.json''])
       [''/etc/kubecc'', Join [cf_HomeDir fs, ''.kubecc'']])"

text \<open>\<open>Load\<close> takes the first file that exists and exits without one.\<close>

definition config_Load :: "(string \<Rightarrow> bool) \<Rightarrow> config_files \<Rightarrow> KubeccSpec option" where
  "config_Load exists fs = map_option (LoadFile fs) (find exists (config_candidates fs))"

section \<open>Lemmas\<close>

lemma Merge_idem [simp]: "Merge (Merge o1 g) g = Merge o1 g"
  by (simp add: Merge_def)

lemma Merge_overrides:
  "gs_LogLevel o1 \<noteq> [] \<Longrightarrow> gs_LogLevel (Merge o1 g) = gs_LogLevel o1" "gs_LogFile o1 \<noteq> [] \<Longrightarrow> gs_LogFile (Merge o1 g) = gs_LogFile o1"
  by (simp_all add: Merge_def)

lemma ApplyGlobals_idem: "ApplyGlobals (ApplyGlobals cfg) = ApplyGlobals cfg"
  by (simp add: ApplyGlobals_def Let_def)

text \<open>With a global log level no component is left without one.\<close>

lemma ApplyGlobals_levels:
  assumes "gs_LogLevel (ks_Global cfg) \<noteq> []" "c = ApplyGlobals cfg"
  shows "\<forall>g\<in>{agent_Global (ks_Agent c), consumer_Global (ks_Consumer c), consumerd_Global (ks_Consumerd c), scheduler_Global (ks_Scheduler c),
      monitor_Global (ks_Monitor c), cache_Global (ks_Cache c), kcctl_Global (ks_Kcctl c)}. gs_LogLevel g \<noteq> []"
  using assms by (simp add: ApplyGlobals_def Let_def Merge_def)

lemma Load_prefers_etc:
  assumes "exists ''/etc/kubecc/config.yaml''"
  shows "config_Load exists fs = Some (LoadFile fs ''/etc/kubecc/config.yaml'')"
proof -
  have j: "Join [''/etc/kubecc'', ''config.yaml''] = ''/etc/kubecc/config.yaml''" by code_simp
  then show ?thesis using assms by (simp add: config_Load_def config_candidates_def)
qed

end
