(* ===== verification/Operator.thy ===== *)
theory Operator
  imports Config
begin

text \<open>
  The operator: \<open>src/pkg/resources/buildcluster/*.go\<close>, \<open>src/pkg/resources/resources.go\<close> and
  \<open>src/controllers/buildcluster_controller.go\<close>. The objects of Kubernetes have the fields that the
  operator sets; resource requirements and node affinities are opaque values. The Kubernetes client,
  the reconciler of single objects and the YAML encoder are parameters. Owner references are left out.
\<close>

section \<open>The custom resource\<close>

record ToolchainSpec =
  ts_Name :: "string option"
  ts_Kind :: string
  ts_Version :: string
  ts_Arch :: string
  ts_CustomImage :: "string option"

record ('r, 'n) ComponentsSpec =
  cs_agent_NodeAffinity :: "'n option"
  cs_agent_Resources :: 'r
  cs_scheduler_Resources :: 'r
  cs_monitor_Resources :: 'r
  cs_cache_Enabled :: bool
  cs_cache_Resources :: 'r
  cs_cache_VolatileStorage :: "StorageLimitsSpec option"
  cs_cache_LocalStorage :: "LocalStorageSpec option"
  cs_cache_RemoteStorage :: "RemoteStorageSpec option"

record ('r, 'n) BuildCluster =
  bc_Namespace :: string
  bc_Image :: string
  bc_ImagePullPolicy :: string
  bc_Components :: "('r, 'n) ComponentsSpec"
  bc_Toolchains :: "ToolchainSpec list"
  bc_DeployToolbox :: bool
  bc_DefaultImageName :: string            \<comment> \<open>of the status\<close>

section \<open>Objects\<close>

type_synonym labels = "(string \<times> string) list"

record VolumeMount =
  vm_Name :: string
  vm_MountPath :: string
  vm_SubPath :: string

datatype VolumeSource = ConfigMapVolume string "(string \<times> string) list" | EmptyDir

record 'r Container =
  ct_Name :: string
  ct_Image :: string
  ct_ImagePullPolicy :: string
  ct_Command :: "string list"
  ct_Args :: "string list"
  ct_Env :: "(string \<times> string) list"     \<comment> \<open>name and field path\<close>
  ct_Ports :: "(string \<times> int) list"
  ct_VolumeMounts :: "VolumeMount list"
  ct_Resources :: "'r option"

record ('r, 'n) PodSpec =
  ps_PriorityClassName :: string
  ps_AntiAffinity :: "labels \<times> string"   \<comment> \<open>labels and topology key of the required term\<close>
  ps_NodeAffinity :: "'n option"
  ps_Containers :: "'r Container list"
  ps_InitContainers :: "'r Container list"
  ps_Volumes :: "(string \<times> VolumeSource) list"

record ('r, 'n) Workload =
  wl_Name :: string
  wl_Namespace :: string
  wl_Labels :: labels
  wl_Selector :: labels
  wl_PodLabels :: labels
  wl_Pod :: "('r, 'n) PodSpec"

record Service =
  svc_Name :: string
  svc_Namespace :: string
  svc_Selector :: labels
  svc_Ports :: "(string \<times> int) list"

datatype ('r, 'n) k8s_object =
    O_PriorityClass string int
  | O_ConfigMap string string "(string \<times> string) list"
  | O_Service Service
  | O_Deployment "('r, 'n) Workload"
  | O_DaemonSet "('r, 'n) Workload"

datatype DesiredState = StateAbsent | StatePresent | StateCreated

type_synonym ('r, 'n) Resource = "('r, 'n) k8s_object \<times> DesiredState"

definition Absent :: "('r, 'n) k8s_object \<Rightarrow> ('r, 'n) Resource" where "Absent obj = (obj, StateAbsent)"

definition Present :: "('r, 'n) k8s_object \<Rightarrow> ('r, 'n) Resource" where "Present obj = (obj, StatePresent)"

definition Created :: "('r, 'n) k8s_object \<Rightarrow> ('r, 'n) Resource" where "Created obj = (obj, StateCreated)"

section \<open>Shared parts\<close>

definition genericService :: "string \<Rightarrow> string \<Rightarrow> labels \<Rightarrow> Service" where
  "genericService name namespace ls = \<lparr>svc_Name = name, svc_Namespace = namespace, svc_Selector = ls, svc_Ports = [(''grpc'', 9090)]\<rparr>"

definition downwardApiEnv :: "(string \<times> string) list" where
  "downwardApiEnv =
     [(''KUBECC_POD_NAME'', ''metadata.name''), (''KUBECC_NAMESPACE'', ''metadata.namespace''), (''KUBECC_NODE'', ''spec.nodeName'')]"

definition grpcPort :: "string \<times> int" where
  "grpcPort = (''grpc'', 9090)"

definition configVolumeMount :: VolumeMount where
  "configVolumeMount = \<lparr>vm_Name = ''config'', vm_MountPath = ''/etc/kubecc'', vm_SubPath = []\<rparr>"

definition configVolume :: "string \<times> VolumeSource" where
  "configVolume = (''config'', ConfigMapVolume ''kubecc'' [(''config.yaml'', ''config.yaml'')])"

definition binaryMount :: VolumeMount where
  "binaryMount = \<lparr>vm_Name = ''kubecc-binary'', vm_MountPath = ''/usr/bin/kubecc'', vm_SubPath = ''kubecc''\<rparr>"

definition kubeccImage :: "('r, 'n) BuildCluster \<Rightarrow> go_error + string \<times> string" where
  "kubeccImage bc =
     (if bc_Image bc \<noteq> [] then Inr (bc_Image bc, bc_ImagePullPolicy bc)
      else if bc_DefaultImageName bc \<noteq> [] then Inr (bc_DefaultImageName bc, bc_ImagePullPolicy bc)
      else Inl (Error ''failed to get default image name, retrying''))"

definition agentAntiAffinity :: "labels \<times> string" where
  "agentAntiAffinity = ([(''kubecc-role'', ''agent'')], ''kubernetes.io/hostname'')"

definition controlPlaneAntiAffinity :: "labels \<times> string" where
  "controlPlaneAntiAffinity = ([(''kubecc-role'', ''control-plane'')], ''kubernetes.io/hostname'')"

section \<open>Components\<close>

definition priorityClasses :: "('r, 'n) Resource list" where
  "priorityClasses = [Present (O_PriorityClass ''kubecc-high-priority'' 1000), Present (O_PriorityClass ''kubecc-low-priority'' 500)]"

definition address :: "string \<Rightarrow> string \<Rightarrow> string" where
  "address service namespace = service @ ''.'' @ namespace @ ''.svc.cluster.local:9090''"

definition cluster_config :: "('r, 'n) BuildCluster \<Rightarrow> KubeccSpec" where
  "cluster_config bc =
     (let ns = bc_Namespace bc; none = \<lparr>gs_LogLevel = [], gs_LogFile = []\<rparr>; c = bc_Components bc
      in \<lparr>ks_Global = \<lparr>gs_LogLevel = ''info'', gs_LogFile = []\<rparr>,
          ks_Agent = \<lparr>agent_Global = none, agent_UsageLimits = Some (-1), agent_SchedulerAddress = address ''kubecc-scheduler'' ns,
                      agent_MonitorAddress = address ''kubecc-monitor'' ns\<rparr>,
          ks_Consumer = \<lparr>consumer_Global = none, consumer_ConsumerdAddress = []\<rparr>,
          ks_Consumerd = \<lparr>consumerd_Global = none, consumerd_UsageLimits = None, consumerd_SchedulerAddress = [],
                          consumerd_MonitorAddress = [], consumerd_ListenAddress = [], consumerd_DisableTLS = False\<rparr>,
          ks_Scheduler = \<lparr>scheduler_Global = none, scheduler_MonitorAddress = address ''kubecc-monitor'' ns,
                          scheduler_CacheAddress = address ''kubecc-cache'' ns, scheduler_ListenAddress = '':9090''\<rparr>,
          ks_Monitor = \<lparr>monitor_Global = none, monitor_ListenAddress = '':9090'', monitor_ServePrometheusMetrics = False\<rparr>,
          ks_Cache = \<lparr>cache_Global = none, cache_VolatileStorage = cs_cache_VolatileStorage c, cache_LocalStorage = cs_cache_LocalStorage c,
                      cache_RemoteStorage = cs_cache_RemoteStorage c, cache_ListenAddress = '':9090'',
                      cache_MonitorAddress = address ''kubecc-monitor'' ns\<rparr>,
          ks_Kcctl = \<lparr>kcctl_Global = none, kcctl_MonitorAddress = address ''kubecc-monitor'' ns,
                      kcctl_SchedulerAddress = address ''kubecc-scheduler'' ns, kcctl_DisableTLS = True\<rparr>\<rparr>)"

definition configMap :: "(KubeccSpec \<Rightarrow> go_error + string) \<Rightarrow> ('r, 'n) BuildCluster \<Rightarrow> go_error + ('r, 'n) Resource list" where
  "configMap yaml_Marshal bc =
     (case yaml_Marshal (cluster_config bc) of
        Inl err \<Rightarrow> Inl err
      | Inr configData \<Rightarrow> Inr [Present (O_ConfigMap ''kubecc'' (bc_Namespace bc) [(''config.yaml'', configData)])])"

text \<open>The deployment that \<open>monitor\<close>, \<open>scheduler\<close> and \<open>cacheSrv\<close> build.\<close>

definition control_plane_deployment :: "string \<Rightarrow> string \<Rightarrow> string \<Rightarrow> string \<Rightarrow> string \<Rightarrow> 'r \<Rightarrow> ('r, 'n) Workload" where
  "control_plane_deployment name cmd img pullPolicy namespace res =
     (let ls = [(''app'', name), (''kubecc-role'', ''control-plane'')]
      in \<lparr>wl_Name = name, wl_Namespace = namespace, wl_Labels = [], wl_Selector = ls, wl_PodLabels = ls,
          wl_Pod = \<lparr>ps_PriorityClassName = ''kubecc-low-priority'', ps_AntiAffinity = agentAntiAffinity, ps_NodeAffinity = None,
            ps_Containers = [\<lparr>ct_Name = name, ct_Image = img, ct_ImagePullPolicy = pullPolicy, ct_Command = [''/kubecc'', ''run'', cmd],
              ct_Args = [], ct_Env = downwardApiEnv, ct_Ports = [grpcPort], ct_VolumeMounts = [configVolumeMount], ct_Resources = Some res\<rparr>],
            ps_InitContainers = [], ps_Volumes = [configVolume]\<rparr>\<rparr>)"

definition op_monitor :: "('r, 'n) BuildCluster \<Rightarrow> go_error + ('r, 'n) Resource list" where
  "op_monitor bc =
     (case kubeccImage bc of
        Inl err \<Rightarrow> Inl err
      | Inr (img, pullPolicy) \<Rightarrow>
          Inr [Created (O_Service (genericService ''kubecc-monitor'' (bc_Namespace bc) [(''app'', ''kubecc-monitor''), (''kubecc-role'', ''control-plane'')])),
               Present (O_Deployment (control_plane_deployment ''kubecc-monitor'' ''monitor'' img pullPolicy (bc_Namespace bc)
                 (cs_monitor_Resources (bc_Components bc))))])"

definition op_scheduler :: "('r, 'n) BuildCluster \<Rightarrow> go_error + ('r, 'n) Resource list" where
  "op_scheduler bc =
     (case kubeccImage bc of
        Inl err \<Rightarrow> Inl err
      | Inr (img, pullPolicy) \<Rightarrow>
          Inr [Created (O_Service (genericService ''kubecc-scheduler'' (bc_Namespace bc) [(''app'', ''kubecc-scheduler''), (''kubecc-role'', ''control-plane'')])),
               Present (O_Deployment (control_plane_deployment ''kubecc-scheduler'' ''scheduler'' img pullPolicy (bc_Namespace bc)
                 (cs_scheduler_Resources (bc_Components bc))))])"

definition op_cacheSrv :: "('r, 'n) BuildCluster \<Rightarrow> go_error + ('r, 'n) Resource list" where
  "op_cacheSrv bc =
     (case kubeccImage bc of
        Inl err \<Rightarrow> Inl err
      | Inr (img, pullPolicy) \<Rightarrow>
          (let deployment = O_Deployment (control_plane_deployment ''kubecc-cache'' ''cache'' img pullPolicy (bc_Namespace bc)
                 (cs_cache_Resources (bc_Components bc)))
           in Inr [Created (O_Service (genericService ''kubecc-cache'' (bc_Namespace bc) [(''app'', ''kubecc-cache''), (''kubecc-role'', ''control-plane'')])),
                   if cs_cache_Enabled (bc_Components bc) then Present deployment else Absent deployment]))"

definition copy_binaries :: "string \<Rightarrow> string \<Rightarrow> 'r Container" where
  "copy_binaries img pullPolicy =
     \<lparr>ct_Name = ''copy-binaries'', ct_Image = img, ct_ImagePullPolicy = pullPolicy, ct_Command = [''/bin/sh'', ''-c'', ''cp /kubecc /tmp/kubecc-bin''],
      ct_Args = [], ct_Env = [], ct_Ports = [],
      ct_VolumeMounts = [\<lparr>vm_Name = ''kubecc-binary'', vm_MountPath = ''/tmp/kubecc-bin'', vm_SubPath = []\<rparr>], ct_Resources = None\<rparr>"

definition op_toolbox :: "('r, 'n) BuildCluster \<Rightarrow> go_error + ('r, 'n) Resource list" where
  "op_toolbox bc =
     (case kubeccImage bc of
        Inl err \<Rightarrow> Inl err
      | Inr (img, pullPolicy) \<Rightarrow>
          (let ls = [(''app'', ''kubecc-toolbox''), (''kubecc-role'', ''control-plane'')];
               toolbox = O_Deployment \<lparr>wl_Name = ''kubecc-toolbox'', wl_Namespace = bc_Namespace bc, wl_Labels = ls, wl_Selector = ls, wl_PodLabels = ls,
                 wl_Pod = \<lparr>ps_PriorityClassName = ''kubecc-low-priority'', ps_AntiAffinity = agentAntiAffinity, ps_NodeAffinity = None,
                   ps_Containers = [\<lparr>ct_Name = ''kubecc-toolbox'', ct_Image = ''alpine:latest'', ct_ImagePullPolicy = [], ct_Command = [''sleep''],
                     ct_Args = [''infinity''], ct_Env = [], ct_Ports = [], ct_VolumeMounts = [configVolumeMount, binaryMount], ct_Resources = None\<rparr>],
                   ps_InitContainers = [copy_binaries img pullPolicy],
                   ps_Volumes = [configVolume, (''kubecc-binary'', EmptyDir)]\<rparr>\<rparr>
           in Inr [if bc_DeployToolbox bc then Present toolbox else Absent toolbox]))"

definition toolchain_name :: "ToolchainSpec \<Rightarrow> string" where
  "toolchain_name tc = (case ts_Name tc of None \<Rightarrow> ''kubecc-agent-'' @ ts_Kind tc @ ''-'' @ ts_Version tc | Some n \<Rightarrow> n)"

definition compiler_image :: "ToolchainSpec \<Rightarrow> go_error + string" where
  "compiler_image tc =
     (if ts_Kind tc = ''gcc'' then Inr (case ts_CustomImage tc of None \<Rightarrow> ''docker.io/gcc:'' @ ts_Version tc | Some i \<Rightarrow> i)
      else if ts_Kind tc = ''custom'' then
        (case ts_CustomImage tc of
           None \<Rightarrow> Inl (Error ''toolchain kind is custom, but customImage is not set'')
         | Some i \<Rightarrow> Inr (i @ '':'' @ ts_Version tc))
      else Inl (Error ''toolchain kind is not supported''))"

definition op_toolchain :: "ToolchainSpec \<Rightarrow> ('r, 'n) BuildCluster \<Rightarrow> go_error + ('r, 'n) Resource list" where
  "op_toolchain tc bc =
     (case compiler_image tc of
        Inl err \<Rightarrow> Inl err
      | Inr compilerImage \<Rightarrow>
          (case kubeccImage bc of
             Inl err \<Rightarrow> Inl err
           | Inr (img, pullPolicy) \<Rightarrow>
               (let name = toolchain_name tc; ls = [(''app'', ''kubecc-agent''), (''kubecc-role'', ''agent''), (''toolchain'', name)];
                    c = bc_Components bc
                in Inr [Present (O_DaemonSet \<lparr>wl_Name = name, wl_Namespace = bc_Namespace bc, wl_Labels = ls, wl_Selector = ls, wl_PodLabels = ls,
                     wl_Pod = \<lparr>ps_PriorityClassName = ''kubecc-high-priority'', ps_AntiAffinity = controlPlaneAntiAffinity,
                       ps_NodeAffinity = cs_agent_NodeAffinity c,
                       ps_Containers = [\<lparr>ct_Name = ''compiler'', ct_Image = compilerImage, ct_ImagePullPolicy = [],
                         ct_Command = [''/usr/bin/kubecc'', ''run'', ''agent''], ct_Args = [], ct_Env = downwardApiEnv, ct_Ports = [grpcPort],
                         ct_VolumeMounts = [configVolumeMount, binaryMount], ct_Resources = Some (cs_agent_Resources c)\<rparr>],
                       ps_InitContainers = [copy_binaries img pullPolicy],
                       ps_Volumes = [configVolume, (''kubecc-binary'', EmptyDir)]\<rparr>\<rparr>)])))"

section \<open>Reconciling\<close>

text \<open>The resources that \<open>Reconcile\<close> collects, up to the first error.\<close>

fun collect :: "(go_error + 'a list) list \<Rightarrow> go_error + 'a list" where
  "collect [] = Inr []"
| "collect (Inl err # rest) = Inl err"
| "collect (Inr items # rest) = (case collect rest of Inl err \<Rightarrow> Inl err | Inr items' \<Rightarrow> Inr (items @ items'))"

definition op_items :: "(KubeccSpec \<Rightarrow> go_error + string) \<Rightarrow> ('r, 'n) BuildCluster \<Rightarrow> go_error + ('r, 'n) Resource list" where
  "op_items yaml_Marshal bc =
     collect ([Inr priorityClasses, configMap yaml_Marshal bc, op_monitor bc, op_scheduler bc, op_cacheSrv bc, op_toolbox bc] @
       map (\<lambda>tc. op_toolchain tc bc) (bc_Toolchains bc))"

text \<open>What the Kubernetes API answers: the containers of the operator's own deployment, the stored
  cluster, the update of its status after retries, and the reconciler of one object, which gives an
  error or whether to queue again.\<close>

record ('r, 'n, 's) kube =
  k_containers :: "go_error + (string \<times> string) list"
  k_stored :: "go_error + ('r, 'n) BuildCluster"
  k_update :: "('r, 'n) BuildCluster \<Rightarrow> go_error option"
  k_reconcile :: "('r, 'n) Resource \<Rightarrow> 's \<Rightarrow> (go_error + bool) \<times> 's"

text \<open>The last container with the name \<open>manager\<close> gives the image; an empty image is a panic.\<close>

definition configureDefaultImage :: "('r, 'n, 's) kube \<Rightarrow> ('r, 'n) BuildCluster \<Rightarrow> bool outcome \<times> ('r, 'n) BuildCluster" where
  "configureDefaultImage k bc =
     (case k_containers k of
        Inl err \<Rightarrow> (Fail err, bc)
      | Inr cs \<Rightarrow>
          (let found = fold (\<lambda>(name, image) acc. if name = ''manager'' then image else acc) cs [];
               imageName = (if bc_Image bc \<noteq> [] then bc_Image bc else found)
           in if found = [] then (Panic, bc)
              else if bc_DefaultImageName bc \<noteq> imageName then
                (case k_stored k of
                   Inl err \<Rightarrow> (Fail err, bc)
                 | Inr stored \<Rightarrow>
                     (let bc' = stored\<lparr>bc_DefaultImageName := imageName\<rparr>
                      in case k_update k bc' of Some err \<Rightarrow> (Fail err, bc') | None \<Rightarrow> (Return True, bc')))
              else (Return False, bc)))"

fun reconcile_items :: "('r, 'n, 's) kube \<Rightarrow> ('r, 'n) Resource list \<Rightarrow> 's \<Rightarrow> bool outcome \<times> 's" where
  "reconcile_items k [] s = (Return False, s)"
| "reconcile_items k (o1 # os) s =
     (case k_reconcile k o1 s of
        (Inl err, s') \<Rightarrow> (Fail err, s')
      | (Inr True, s') \<Rightarrow> (Return True, s')
      | (Inr False, s') \<Rightarrow> reconcile_items k os s')"

definition op_Reconcile ::
    "(KubeccSpec \<Rightarrow> go_error + string) \<Rightarrow> ('r, 'n, 's) kube \<Rightarrow> ('r, 'n) BuildCluster \<Rightarrow> 's \<Rightarrow> bool outcome \<times> ('r, 'n) BuildCluster \<times> 's" where
  "op_Reconcile yaml_Marshal k bc s =
     (case configureDefaultImage k bc of
        (Fail err, bc') \<Rightarrow> (Fail err, bc', s)
      | (Panic, bc') \<Rightarrow> (Panic, bc', s)
      | (Return True, bc') \<Rightarrow> (Return True, bc', s)
      | (Return False, bc') \<Rightarrow>
          (case op_items yaml_Marshal bc' of
             Inl err \<Rightarrow> (Fail err, bc', s)
           | Inr items \<Rightarrow> (case reconcile_items k items s of (r, s') \<Rightarrow> (r, bc', s'))))"

text \<open>\<open>BuildClusterReconciler.Reconcile\<close>: a cluster that is gone needs nothing.\<close>

definition controller_Reconcile ::
    "(KubeccSpec \<Rightarrow> go_error + string) \<Rightarrow> ('r, 'n, 's) kube \<Rightarrow> (go_error + ('r, 'n) BuildCluster) \<Rightarrow> (go_error \<Rightarrow> bool) \<Rightarrow> 's \<Rightarrow> bool outcome \<times> 's" where
  "controller_Reconcile yaml_Marshal k fetched isNotFound s =
     (case fetched of
        Inl err \<Rightarrow> (if isNotFound err then Return False else Fail err, s)
      | Inr bc \<Rightarrow> (case op_Reconcile yaml_Marshal k bc s of (r, _, s') \<Rightarrow> (r, s')))"

section \<open>Lemmas\<close>

lemma collect_Inr: "collect rs = Inr items \<Longrightarrow> Inr is1 \<in> set rs \<Longrightarrow> set is1 \<subseteq> set items"
  by (induction rs arbitrary: items rule: collect.induct) (auto split: sum.splits)

lemma collect_no_Inl: "collect rs = Inr items \<Longrightarrow> Inl e \<notin> set rs"
  by (induction rs arbitrary: items rule: collect.induct) (auto split: sum.splits)

text \<open>After the image is recorded, the next round goes on to the resources.\<close>

lemma image_settles:
  assumes "configureDefaultImage k bc = (Return True, bc')" "bc_Image bc' = bc_Image bc"
  shows "configureDefaultImage k bc' = (Return False, bc')" "\<exists>ip. kubeccImage bc' = Inr ip"
  using assms by (auto simp: configureDefaultImage_def kubeccImage_def Let_def split: sum.splits if_splits option.splits)

lemma reconcile_items_all:
  assumes "\<And>o1 s. o1 \<in> set os \<Longrightarrow> fst (k_reconcile k o1 s) = Inr False"
  shows "reconcile_items k os s = (Return False, fold (\<lambda>o1 s. snd (k_reconcile k o1 s)) os s)"
  using assms
proof (induction os arbitrary: s)
  case (Cons o1 os)
  then have "fst (k_reconcile k o1 s) = Inr False" by simp
  with Cons show ?case by (cases "k_reconcile k o1 s") simp
qed simp

section \<open>Properties\<close>

text \<open>A service at an address, and the deployment behind it that runs a component.\<close>

definition serves :: "('r, 'n) Resource list \<Rightarrow> string \<Rightarrow> string \<Rightarrow> bool" where
  "serves rs addr cmd \<longleftrightarrow>
     (\<exists>svc w ct. (O_Service svc, StateCreated) \<in> set rs \<and> (O_Deployment w, StatePresent) \<in> set rs \<and>
        addr = svc_Name svc @ ''.'' @ svc_Namespace svc @ ''.svc.cluster.local:9090'' \<and> svc_Ports svc = [(''grpc'', 9090)] \<and>
        svc_Selector svc = wl_PodLabels w \<and> wl_Namespace w = svc_Namespace svc \<and> ct \<in> set (ps_Containers (wl_Pod w)) \<and>
        ct_Command ct = [''/kubecc'', ''run'', cmd] \<and> (''grpc'', 9090) \<in> set (ct_Ports ct) \<and>
        configVolumeMount \<in> set (ct_VolumeMounts ct) \<and> configVolume \<in> set (ps_Volumes (wl_Pod w)))"

lemma serves_deployment:
  assumes "(O_Service (genericService name ns [(''app'', name), (''kubecc-role'', ''control-plane'')]), StateCreated) \<in> set rs"
    and "(O_Deployment (control_plane_deployment name cmd img pp ns res), StatePresent) \<in> set rs"
  shows "serves rs (address name ns) cmd"
  unfolding serves_def
  by (rule exI, rule exI, rule exI, intro conjI, rule assms(1), rule assms(2))
    (auto simp: address_def genericService_def control_plane_deployment_def Let_def grpcPort_def)

text \<open>C32: the components that the operator deploys find each other. When all resources can be built, a
  component whose container mounts the config map of the cluster loads the configuration that the
  operator wrote, filled with the global log level. In it, the addresses of the scheduler and the
  monitor are those of services of the cluster whose selectors match a deployment that runs that
  component on the same port, on which the component listens; this also holds for the cache if it is
  enabled.\<close>

theorem operator_wires_components:
  assumes items: "op_items yaml_Marshal bc = Inr rs"
    and yaml: "\<And>c d. yaml_Marshal c = Inr d \<Longrightarrow> cf_yaml fs d = c"
    and mount: "\<And>data. (O_ConfigMap ''kubecc'' (bc_Namespace bc) data, StatePresent) \<in> set rs \<Longrightarrow>
      cf_ReadFile fs ''/etc/kubecc/config.yaml'' = map_of data ''config.yaml''"
    and exists: "exists ''/etc/kubecc/config.yaml''"
  shows "\<exists>cfg. config_Load exists fs = Some cfg \<and> cfg = ApplyGlobals (cluster_config bc) \<and>
    (\<forall>a\<in>{agent_SchedulerAddress (ks_Agent cfg), kcctl_SchedulerAddress (ks_Kcctl cfg)}. serves rs a ''scheduler'') \<and>
    (\<forall>a\<in>{agent_MonitorAddress (ks_Agent cfg), scheduler_MonitorAddress (ks_Scheduler cfg), cache_MonitorAddress (ks_Cache cfg),
         kcctl_MonitorAddress (ks_Kcctl cfg)}. serves rs a ''monitor'') \<and>
    (cs_cache_Enabled (bc_Components bc) \<longrightarrow> serves rs (scheduler_CacheAddress (ks_Scheduler cfg)) ''cache'') \<and>
    scheduler_ListenAddress (ks_Scheduler cfg) = '':9090'' \<and> monitor_ListenAddress (ks_Monitor cfg) = '':9090'' \<and>
    cache_ListenAddress (ks_Cache cfg) = '':9090''"
proof -
  let ?ns = "bc_Namespace bc"
  let ?parts = "[Inr priorityClasses, configMap yaml_Marshal bc, op_monitor bc, op_scheduler bc, op_cacheSrv bc, op_toolbox bc] @
       map (\<lambda>tc. op_toolchain tc bc) (bc_Toolchains bc)"
  have coll: "collect ?parts = Inr rs" using items by (simp only: op_items_def)
  note part = collect_Inr [OF coll] and ok = collect_no_Inl [OF coll]
  obtain d where d: "yaml_Marshal (cluster_config bc) = Inr d" using ok by (cases "yaml_Marshal (cluster_config bc)") (auto simp: configMap_def)
  have "(O_ConfigMap ''kubecc'' ?ns [(''config.yaml'', d)], StatePresent) \<in> set rs"
    using part [of "[Present (O_ConfigMap ''kubecc'' ?ns [(''config.yaml'', d)])]"] d by (simp add: configMap_def Present_def)
  then have "cf_ReadFile fs ''/etc/kubecc/config.yaml'' = Some d" using mount by fastforce
  moreover have "\<not> HasSuffix ''/etc/kubecc/config.yaml'' ''.json''" by code_simp
  ultimately have load: "config_Load exists fs = Some (ApplyGlobals (cluster_config bc))"
    using Load_prefers_etc [of exists fs] exists yaml [OF d] by (simp add: LoadFile_def)
  obtain img pp where img: "kubeccImage bc = Inr (img, pp)"
    using ok by (cases "kubeccImage bc") (auto simp: op_monitor_def)
  have mon: "serves rs (address ''kubecc-monitor'' ?ns) ''monitor''"
    by (rule serves_deployment [of _ _ _ _ img pp "cs_monitor_Resources (bc_Components bc)"])
      (use part [of "projr (op_monitor bc)"] in \<open>simp_all add: op_monitor_def img Created_def Present_def\<close>)
  have sched: "serves rs (address ''kubecc-scheduler'' ?ns) ''scheduler''"
    by (rule serves_deployment [of _ _ _ _ img pp "cs_scheduler_Resources (bc_Components bc)"])
      (use part [of "projr (op_scheduler bc)"] in \<open>simp_all add: op_scheduler_def img Created_def Present_def\<close>)
  have cache: "serves rs (address ''kubecc-cache'' ?ns) ''cache''" if "cs_cache_Enabled (bc_Components bc)"
    by (rule serves_deployment [of _ _ _ _ img pp "cs_cache_Resources (bc_Components bc)"])
      (use part [of "projr (op_cacheSrv bc)"] that in \<open>simp_all add: op_cacheSrv_def img Created_def Present_def Let_def\<close>)
  show ?thesis
    by (rule exI, intro conjI, rule load) (use mon sched cache in \<open>auto simp: ApplyGlobals_def cluster_config_def Let_def\<close>)
qed

definition sample_cluster :: "(unit, unit) BuildCluster" where
  "sample_cluster =
     \<lparr>bc_Namespace = ''build'', bc_Image = ''kubecc:1'', bc_ImagePullPolicy = ''Always'',
      bc_Components = \<lparr>cs_agent_NodeAffinity = None, cs_agent_Resources = (), cs_scheduler_Resources = (), cs_monitor_Resources = (),
        cs_cache_Enabled = True, cs_cache_Resources = (), cs_cache_VolatileStorage = None, cs_cache_LocalStorage = None,
        cs_cache_RemoteStorage = None\<rparr>,
      bc_Toolchains = [\<lparr>ts_Name = None, ts_Kind = ''gcc'', ts_Version = ''11'', ts_Arch = ''amd64'', ts_CustomImage = None\<rparr>],
      bc_DeployToolbox = False, bc_DefaultImageName = []\<rparr>"

definition sample_yaml :: "KubeccSpec \<Rightarrow> go_error + string" where
  "sample_yaml c = (if c = cluster_config sample_cluster then Inr ''cfg'' else Inl (Error ''unsupported''))"

definition sample_files :: config_files where
  "sample_files = \<lparr>cf_ReadFile = (\<lambda>_. Some ''cfg''), cf_json = (\<lambda>_. cluster_config sample_cluster), cf_yaml = (\<lambda>_. cluster_config sample_cluster),
     cf_HomeDir = ''/root''\<rparr>"

theorem operator_wires_components_witness:
  "\<exists>rs. op_items sample_yaml sample_cluster = Inr rs \<and> length rs = 11 \<and> serves rs ''kubecc-cache.build.svc.cluster.local:9090'' ''cache''"
proof -
  have "map_option length (case op_items sample_yaml sample_cluster of Inr rs \<Rightarrow> Some rs | Inl _ \<Rightarrow> None) = Some 11"
    by code_simp
  then obtain rs where rs: "op_items sample_yaml sample_cluster = Inr rs" "length rs = 11" by (auto split: sum.splits)
  have cm: "data = [(''config.yaml'', ''cfg'')]" if "(O_ConfigMap ''kubecc'' (bc_Namespace sample_cluster) data, StatePresent) \<in> set rs" for data
    using that rs(1) by (auto simp: op_items_def sample_cluster_def configMap_def sample_yaml_def op_monitor_def op_scheduler_def op_cacheSrv_def
        op_toolbox_def op_toolchain_def compiler_image_def kubeccImage_def priorityClasses_def Present_def Created_def Absent_def Let_def)
  have y: "cf_yaml sample_files d = c" if "sample_yaml c = Inr d" for c d
    using that by (simp add: sample_yaml_def sample_files_def split: if_splits)
  have m: "cf_ReadFile sample_files ''/etc/kubecc/config.yaml'' = map_of data ''config.yaml''"
    if "(O_ConfigMap ''kubecc'' (bc_Namespace sample_cluster) data, StatePresent) \<in> set rs" for data
    using cm [OF that] by (simp add: sample_files_def)
  obtain cfg where "cfg = ApplyGlobals (cluster_config sample_cluster)"
    "cs_cache_Enabled (bc_Components sample_cluster) \<longrightarrow> serves rs (scheduler_CacheAddress (ks_Scheduler cfg)) ''cache''"
    using operator_wires_components [OF rs(1) y m, of "\<lambda>_. True"] by blast
  moreover have "cs_cache_Enabled (bc_Components sample_cluster)"
    "scheduler_CacheAddress (ks_Scheduler (ApplyGlobals (cluster_config sample_cluster))) = ''kubecc-cache.build.svc.cluster.local:9090''"
    by (simp_all add: sample_cluster_def ApplyGlobals_def cluster_config_def address_def Let_def)
  ultimately show ?thesis using rs by auto
qed

end
