(* ===== verification/Executor.thy ===== *)
theory Executor
  imports WorkerPool SplitQueue CompileTasks
begin

text \<open>
  \<open>src/pkg/run/executor.go\<close> and the runners of \<open>src/pkg/run/task.go\<close>: packaged requests, the queued
  executor over a worker pool, and the delegating executor; and \<open>src/pkg/sleep\<close>, the controllers of the
  toolchain that only waits.
\<close>

section \<open>Tasks\<close>

text \<open>\<open>PackagedRequest\<close>: the channel of the response is filled once and closed.\<close>

record 'a PackagedRequest =
  pq_err :: NullableError
  pq_channel :: "'a option list"
  pq_closed :: bool

definition PackageRequest :: "'a PackagedRequest" where
  "PackageRequest = \<lparr>pq_err = \<lparr>ne_isSet = False, ne_err = None\<rparr>, pq_channel = [], pq_closed = False\<rparr>"

definition packaged_Run :: "'a option \<times> task_error option \<Rightarrow> 'a PackagedRequest \<Rightarrow> 'a PackagedRequest outcome" where
  "packaged_Run result pr =
     (if pq_closed pr then Panic
      else Return (pr\<lparr>pq_err := SetErr (snd result), pq_channel := pq_channel pr @ [fst result], pq_closed := True\<rparr>))"

section \<open>Executors\<close>

text \<open>The channel of the queue has no buffer: calls wait at it until the manager of the pool takes their
  task, and then for a context that is never done.\<close>

record 't QueuedExecutor =
  qx_UsageLimits :: int
  qx_pool :: "'t WorkerPool"
  qx_numRunning :: int
  qx_numQueued :: int
  qx_offering :: "'t list"
  qx_waiting :: "'t list"

definition NewQueuedExecutor :: "int \<Rightarrow> int option \<Rightarrow> 't QueuedExecutor" where
  "NewQueuedExecutor auto_limit limits =
     (let n = (case limits of None \<Rightarrow> auto_limit | Some l \<Rightarrow> if l = -1 then auto_limit else l)
      in \<lparr>qx_UsageLimits = n, qx_pool = Resize n (NewWorkerPool False), qx_numRunning = 0, qx_numQueued = 0, qx_offering = [], qx_waiting = []\<rparr>)"

definition SetUsageLimits :: "int \<Rightarrow> 't QueuedExecutor \<Rightarrow> 't QueuedExecutor" where
  "SetUsageLimits n x = x\<lparr>qx_UsageLimits := n, qx_pool := Resize n (qx_pool x)\<rparr>"

definition queued_Exec_begin :: "'t \<Rightarrow> 't QueuedExecutor \<Rightarrow> 't QueuedExecutor" where
  "queued_Exec_begin t x = x\<lparr>qx_numQueued := qx_numQueued x + 1, qx_offering := qx_offering x @ [t]\<rparr>"

definition queued_Exec_taken :: "'t \<Rightarrow> 't QueuedExecutor \<Rightarrow> 't QueuedExecutor option" where
  "queued_Exec_taken t x =
     (if t \<in> set (qx_offering x) then
        map_option (\<lambda>wp. x\<lparr>qx_pool := wp, qx_offering := remove1 t (qx_offering x), qx_numQueued := qx_numQueued x - 1,
          qx_numRunning := qx_numRunning x + 1, qx_waiting := qx_waiting x @ [t]\<rparr>) (manager_select t (qx_pool x))
      else None)"

definition queued_TaskStatus :: "'t QueuedExecutor \<Rightarrow> int \<times> int" where
  "queued_TaskStatus x = (qx_numQueued x, qx_numRunning x)"

datatype 't executor_event = QX_Exec 't | QX_Taken 't | QX_Check | QX_Accept nat | QX_Start nat | QX_Finish nat | QX_Limits int

fun qx_step :: "'t executor_event \<Rightarrow> 't QueuedExecutor \<Rightarrow> 't QueuedExecutor option" where
  "qx_step (QX_Exec t) x = Some (queued_Exec_begin t x)"
| "qx_step (QX_Taken t) x = queued_Exec_taken t x"
| "qx_step QX_Check x = map_option (\<lambda>wp. x\<lparr>qx_pool := wp\<rparr>) (manager_check (qx_pool x))"
| "qx_step (QX_Accept i) x = map_option (\<lambda>wp. x\<lparr>qx_pool := wp\<rparr>) (worker_accept i (qx_pool x))"
| "qx_step (QX_Start i) x = map_option (\<lambda>(_, wp). x\<lparr>qx_pool := wp\<rparr>) (worker_start i (qx_pool x))"
| "qx_step (QX_Finish i) x = map_option (\<lambda>(_, wp). x\<lparr>qx_pool := wp\<rparr>) (worker_finish i (qx_pool x))"
| "qx_step (QX_Limits n) x = Some (SetUsageLimits n x)"

abbreviation qx_run :: "'t executor_event list \<Rightarrow> 't QueuedExecutor \<Rightarrow> 't QueuedExecutor option" where
  "qx_run \<equiv> run_events qx_step"

record 't DelegatingExecutor =
  dx_numTasks :: int
  dx_running :: "'t list"

definition delegating_begin :: "'t \<Rightarrow> 't DelegatingExecutor \<Rightarrow> 't DelegatingExecutor" where
  "delegating_begin t x = x\<lparr>dx_numTasks := dx_numTasks x + 1, dx_running := dx_running x @ [t]\<rparr>"

definition delegating_end :: "'t \<Rightarrow> 't DelegatingExecutor \<Rightarrow> 't DelegatingExecutor option" where
  "delegating_end t x =
     (if t \<in> set (dx_running x) then Some (x\<lparr>dx_numTasks := dx_numTasks x - 1, dx_running := remove1 t (dx_running x)\<rparr>) else None)"

section \<open>The sleep toolchain\<close>

definition SleepQuerier :: "(string \<Rightarrow> int \<times> mod_error option) \<Rightarrow> Querier" where
  "SleepQuerier execModTime =
     \<lparr>q_Version = (\<lambda>_. (''1.0'', None)), q_TargetArch = (\<lambda>_. (''internal'', None)), q_IsPicDefault = (\<lambda>_. (True, None)),
      q_IsPieDefault = (\<lambda>_. (True, None)), q_Kind = (\<lambda>_. (Sleep, None)), q_Lang = (\<lambda>_. (Lang_Unknown, None)), q_ModTime = execModTime\<rparr>"

definition plain_options :: "string list \<Rightarrow> string \<Rightarrow> TaskOptions" where
  "plain_options env dir =
     \<lparr>to_Env = env, to_WorkDir = dir, to_Stdin = [], to_UID = 0, to_GID = 0, to_NoTempFile = False, to_Output = False\<rparr>"

text \<open>A response that comes with an error is only read by callers that check the error first.\<close>

definition sleep_local_Process :: "system \<Rightarrow> Toolchain \<Rightarrow> RunRequest \<Rightarrow> RunResponse outcome" where
  "sleep_local_Process sys tc req =
     (case ne_Err (ExecCommandTask_Run sys tc (rr_Args req) (plain_options (rr_Env req) (rr_WorkDir req))) of
        Return None \<Rightarrow> Return \<lparr>rs_ReturnCode = 0, rs_Stdout = [], rs_Stderr = []\<rparr>
      | Return (Some e) \<Rightarrow> Fail (error_of e)
      | Fail e \<Rightarrow> Fail e
      | Panic \<Rightarrow> Panic)"

definition sleep_send_Process :: "(CompileRequest \<Rightarrow> CompileResponse outcome) \<Rightarrow> Toolchain \<Rightarrow> string \<Rightarrow> RunRequest \<Rightarrow> RunResponse outcome" where
  "sleep_send_Process client tc requestID req =
     (case client \<lparr>cr_RequestID = requestID, cr_Toolchain = Some tc, cr_Args = rr_Args req, cr_PreprocessedSource = [], cr_ManagedFields = None\<rparr> of
        Return _ \<Rightarrow> Return \<lparr>rs_ReturnCode = 0, rs_Stdout = [], rs_Stderr = []\<rparr>
      | Fail e \<Rightarrow> Fail e
      | Panic \<Rightarrow> Panic)"

definition sleep_recv_Process :: "system \<Rightarrow> Toolchain \<Rightarrow> CompileRequest \<Rightarrow> CompileResponse outcome" where
  "sleep_recv_Process sys tc req =
     (case ne_Err (ExecCommandTask_Run sys tc (cr_Args req) (plain_options [] [])) of
        Return None \<Rightarrow>
          Return \<lparr>cs_RequestID = cr_RequestID req, cs_CompileResult = Res_Success, cs_CpuSecondsUsed = 0, cs_Data = D_CompiledSource []\<rparr>
      | Return (Some e) \<Rightarrow> Fail (error_of e)
      | Fail e \<Rightarrow> Fail e
      | Panic \<Rightarrow> Panic)"

section \<open>Lemmas\<close>

lemma int_length_remove1: "t \<in> set ts \<Longrightarrow> int (length (remove1 t ts)) = int (length ts) - 1"
  by (induction ts) auto

lemma packaged_once: "packaged_Run r pr = Return pr' \<Longrightarrow> packaged_Run r' pr' = Panic"
  by (auto simp: packaged_Run_def split: if_splits)

text \<open>The counters of the queued executor: queued tasks are those offered, but a task that was taken is
  counted as running for ever, since its call never returns.\<close>

definition qx_inv :: "'t QueuedExecutor \<Rightarrow> bool" where
  "qx_inv x \<longleftrightarrow> qx_numQueued x = int (length (qx_offering x)) \<and> qx_numRunning x = int (length (qx_waiting x))"

lemma qx_step_inv: "qx_step ev x = Some x' \<Longrightarrow> qx_inv x \<Longrightarrow> qx_inv x'"
  by (cases ev) (auto simp: qx_inv_def queued_Exec_begin_def queued_Exec_taken_def SetUsageLimits_def int_length_remove1
      split: if_splits)

lemma qx_step_waiting: "qx_step ev x = Some x' \<Longrightarrow> \<exists>ts. qx_waiting x' = qx_waiting x @ ts"
  by (cases ev) (auto simp: queued_Exec_begin_def queued_Exec_taken_def SetUsageLimits_def split: if_splits)

lemma qx_run_inv: "qx_run evs x = Some x' \<Longrightarrow> qx_inv x \<Longrightarrow> qx_inv x'"
  by (induction evs arbitrary: x) (auto split: option.splits dest: qx_step_inv)

lemma qx_never_returns: "qx_run evs x = Some x' \<Longrightarrow> qx_inv x \<Longrightarrow> qx_numRunning x \<le> qx_numRunning x'"
proof (induction evs arbitrary: x)
  case (Cons ev evs)
  then obtain y where y: "qx_step ev x = Some y" "qx_run evs y = Some x'" by (auto split: option.splits)
  have "qx_inv y" using qx_step_inv [OF y(1) Cons.prems(2)] .
  moreover have "qx_numRunning x \<le> qx_numRunning y"
    using qx_step_waiting [OF y(1)] Cons.prems(2) \<open>qx_inv y\<close> by (auto simp: qx_inv_def)
  ultimately show ?case using Cons.IH [OF y(2)] by simp
qed simp

lemma finished_task_counted:
  "map_option (\<lambda>x. (queued_TaskStatus x, map snd (wp_workers (qx_pool x))))
     (qx_run [QX_Exec (), QX_Check, QX_Accept 0, QX_Taken (), QX_Start 0, QX_Finish 0] (NewQueuedExecutor 1 None)) = Some ((0, 1), [Idle])"
  by code_simp

lemma delegating_counts:
  "dx_numTasks x = int (length (dx_running x)) \<Longrightarrow> dx_numTasks (delegating_begin t x) = int (length (dx_running (delegating_begin t x)))"
  "dx_numTasks x = int (length (dx_running x)) \<Longrightarrow> delegating_end t x = Some x' \<Longrightarrow> dx_numTasks x' = int (length (dx_running x'))"
  by (auto simp: delegating_begin_def delegating_end_def int_length_remove1 split: if_splits)

end
