(* ===== verification/Prometheus.thy ===== *)
theory Prometheus
  imports Types SplitQueue "HOL-Library.AList"
begin

text \<open>
  The exporter of \<open>src/pkg/monitor/prometheus.go\<close>: the gauges that the listeners of the monitor set from
  the metrics of agents, schedulers and consumer daemons. The gauges of the Prometheus library are a map
  from names and labels to the values they were last set to; the HTTP endpoint is left out.
\<close>

section \<open>Model\<close>

record whois_info =
  wi_UUID :: string
  wi_Address :: string
  wi_Component :: Component

datatype prom_metric =
    PM_TaskStatus TaskStatus
  | PM_UsageLimits int
  | PM_AgentCount int
  | PM_AgentTasksTotal string int
  | PM_ConsumerdCount int
  | PM_ConsumerdTasksTotal string int
  | PM_SchedulingRequestsTotal int
  | PM_TasksCompletedTotal int
  | PM_TasksFailedTotal int
  | PM_LocalTasksCompleted int

record exporter =
  ex_gauges :: "(string \<times> string) \<rightharpoonup> int"       \<comment> \<open>name and label; the label is empty without one\<close>
  ex_providerInfo :: "(string \<times> whois_info) list"
  ex_watched :: "whois_info list"

definition set_gauge :: "string \<Rightarrow> string \<Rightarrow> int \<Rightarrow> exporter \<Rightarrow> exporter" where
  "set_gauge name label v x = x\<lparr>ex_gauges := (ex_gauges x)((name, label) \<mapsto> v)\<rparr>"

fun watchAgentKeys :: "whois_info \<Rightarrow> prom_metric \<Rightarrow> exporter \<Rightarrow> exporter" where
  "watchAgentKeys info (PM_TaskStatus ts) x =
     set_gauge ''agent_tasks_queued'' (wi_Address info) (NumQueued ts)
       (set_gauge ''agent_tasks_active'' (wi_Address info) (NumRunning ts) (set_gauge ''agent_tasks_active'' (wi_Address info) (NumRunning ts) x))"
| "watchAgentKeys info (PM_UsageLimits n) x = set_gauge ''agent_tasks_max'' (wi_Address info) n x"
| "watchAgentKeys info _ x = x"

definition set_known :: "string \<Rightarrow> string \<Rightarrow> int \<Rightarrow> exporter \<Rightarrow> exporter" where
  "set_known name uuid v x = (case map_of (ex_providerInfo x) uuid of Some info \<Rightarrow> set_gauge name (wi_Address info) v x | None \<Rightarrow> x)"

fun watchSchedulerKeys :: "prom_metric \<Rightarrow> exporter \<Rightarrow> exporter" where
  "watchSchedulerKeys (PM_AgentCount n) x = set_gauge ''agent_count'' [] n x"
| "watchSchedulerKeys (PM_AgentTasksTotal uuid n) x = set_known ''agent_tasks_total'' uuid n x"
| "watchSchedulerKeys (PM_ConsumerdCount n) x = set_gauge ''cd_count'' [] n x"
| "watchSchedulerKeys (PM_ConsumerdTasksTotal uuid n) x = set_known ''cd_remote_req_total'' uuid n x"
| "watchSchedulerKeys (PM_SchedulingRequestsTotal n) x = set_gauge ''scheduling_requests_total'' [] n x"
| "watchSchedulerKeys (PM_TasksCompletedTotal n) x = set_gauge ''tasks_completed_total'' [] n x"
| "watchSchedulerKeys (PM_TasksFailedTotal n) x = set_gauge ''tasks_failed_total'' [] n x"
| "watchSchedulerKeys _ x = x"

fun watchConsumerdKeys :: "whois_info \<Rightarrow> prom_metric \<Rightarrow> exporter \<Rightarrow> exporter" where
  "watchConsumerdKeys info (PM_TaskStatus ts) x =
     set_gauge ''cd_local_tasks_queued'' (wi_Address info) (NumQueued ts)
       (set_gauge ''cd_remote_tasks_active'' (wi_Address info) (NumDelegated ts)
         (set_gauge ''cd_local_tasks_active'' (wi_Address info) (NumRunning ts) x))"
| "watchConsumerdKeys info (PM_UsageLimits n) x = set_gauge ''cd_tasks_max'' (wi_Address info) n x"
| "watchConsumerdKeys info (PM_LocalTasksCompleted n) x = set_gauge ''cd_local_tasks_total'' (wi_Address info) n x"
| "watchConsumerdKeys info _ x = x"

text \<open>The callback of \<open>OnProviderAdded\<close>: after a failed \<open>Whois\<close> the nil answer is read.\<close>

definition provider_added :: "whois_info outcome \<Rightarrow> string \<Rightarrow> exporter \<Rightarrow> exporter outcome" where
  "provider_added whois uuid x =
     (case whois of
        Return info \<Rightarrow>
          Return (if wi_Component info = Agent \<or> wi_Component info = Consumerd
                  then x\<lparr>ex_providerInfo := AList.update uuid info (ex_providerInfo x), ex_watched := info # ex_watched x\<rparr>
                  else if wi_Component info = Scheduler then x\<lparr>ex_watched := info # ex_watched x\<rparr>
                  else x)
      | _ \<Rightarrow> Panic)"

definition provider_removed :: "string \<Rightarrow> exporter \<Rightarrow> exporter" where
  "provider_removed uuid x = x\<lparr>ex_providerInfo := AList.delete uuid (ex_providerInfo x)\<rparr>"

definition value_changed :: "whois_info \<Rightarrow> prom_metric \<Rightarrow> exporter \<Rightarrow> exporter" where
  "value_changed info m x =
     (case wi_Component info of
        Agent \<Rightarrow> watchAgentKeys info m x
      | Scheduler \<Rightarrow> watchSchedulerKeys m x
      | Consumerd \<Rightarrow> watchConsumerdKeys info m x
      | _ \<Rightarrow> x)"

section \<open>Lemmas\<close>

lemmas gauge_simps = set_gauge_def value_changed_def

text \<open>Values of one provider do not touch the gauges labelled with another address.\<close>

lemma other_address_kept:
  assumes "label \<noteq> []" "wi_Component info \<in> {Agent, Consumerd}" "wi_Address info \<noteq> label"
  shows "ex_gauges (value_changed info m x) (name, label) = ex_gauges x (name, label)"
  using assms by (cases m) (auto simp: gauge_simps)

lemma consumerd_status_shown:
  assumes "wi_Component info = Consumerd"
  shows "ex_gauges (value_changed info (PM_TaskStatus (CompleteTaskStatus sq)) x) (''cd_remote_tasks_active'', wi_Address info) =
    Some (NumDelegated (CompleteTaskStatus sq))"
  using assms by (simp add: gauge_simps)

text \<open>A total of an agent that the exporter does not know, or no longer knows, is dropped.\<close>

lemma unknown_total_dropped:
  "wi_Component info = Scheduler \<Longrightarrow> value_changed info (PM_AgentTasksTotal uuid n) (provider_removed uuid x) = provider_removed uuid x"
  by (simp add: value_changed_def set_known_def provider_removed_def delete_conv')

end
