(* ===== verification/Machine.thy ===== *)
theory Machine
  imports Prelude "HOL-Library.AList" "HOL-Library.List_Lexorder" "HOL-Library.Char_ord"
begin

text \<open>
  The machine that the commands of \<open>src/pkg/kubecc\<close> change: calls that may fail and leave the state they
  reached behind, a file system with plain files, directories and symbolic links, and the calls of
  \<open>os\<close>, \<open>path/filepath\<close> and \<open>os/exec\<close> on it. Paths are resolved against the working directory; a link is
  followed where it is the last element of a path, directories are not reached through links.
\<close>

section \<open>Calls that may fail\<close>

text \<open>\<open>andThen\<close> is the pattern \<open>if err != nil { return err }\<close>: the state survives an error.\<close>

type_synonym ('m, 'a) action = "'m \<Rightarrow> 'a outcome \<times> 'm"

named_theorems action_simps "equations of actions"

definition andThen :: "('m, 'a) action \<Rightarrow> ('a \<Rightarrow> ('m, 'b) action) \<Rightarrow> ('m, 'b) action" where
  "andThen f g m = (case f m of (Return x, m') \<Rightarrow> g x m' | (Fail e, m') \<Rightarrow> (Fail e, m') | (Panic, m') \<Rightarrow> (Panic, m'))"

definition give :: "'a outcome \<Rightarrow> ('m, 'a) action" where
  "give r m = (r, m)"

definition reading :: "('m \<Rightarrow> 'a outcome) \<Rightarrow> ('m, 'a) action" where
  "reading f m = (f m, m)"

lemma andThen_simps [action_simps]:
  "f m = (Return x, m') \<Longrightarrow> andThen f g m = g x m'"
  "f m = (Fail e, m') \<Longrightarrow> andThen f g m = (Fail e, m')"
  "f m = (Panic, m') \<Longrightarrow> andThen f g m = (Panic, m')"
  by (simp_all add: andThen_def)

lemma andThen_give [simp, action_simps]: "andThen (give (Return x)) g = g x"
  by (simp add: andThen_def give_def fun_eq_iff)

lemma andThen_reading [action_simps]: "f m = Return x \<Longrightarrow> andThen (reading f) g m = g x m"
  by (simp add: andThen_def reading_def)

lemma andThen_assoc: "andThen (andThen f g) h = andThen f (\<lambda>x. andThen (g x) h)"
  by (auto simp: andThen_def fun_eq_iff split: prod.splits outcome.splits)

lemma andThen_ReturnE:
  assumes "andThen f g m = (Return y, m'')"
  obtains x m' where "f m = (Return x, m')" and "g x m' = (Return y, m'')"
  using assms by (auto simp: andThen_def split: prod.splits outcome.splits)

lemma give_ReturnE: "give r m = (Return x, m') \<Longrightarrow> r = Return x \<and> m' = m"
  by (simp add: give_def)

lemma reading_ReturnE: "reading f m = (Return x, m') \<Longrightarrow> f m = Return x \<and> m' = m"
  by (auto simp: reading_def)

section \<open>Files\<close>

text \<open>A plain file has its content and whether it may be executed.\<close>

datatype node = Dir_Node | File_Node bytes bool | Link_Node string

type_synonym files = "(string \<times> node) list"

definition ErrNotExist :: go_error where
  "ErrNotExist = Error ''file does not exist''"

definition ErrExist :: go_error where
  "ErrExist = Error ''file already exists''"

definition ENOTDIR :: go_error where
  "ENOTDIR = Error ''not a directory''"

definition EISDIR :: go_error where
  "EISDIR = Error ''is a directory''"

definition ENOTEMPTY :: go_error where
  "ENOTEMPTY = Error ''directory not empty''"

definition ELOOP :: go_error where
  "ELOOP = Error ''too many levels of symbolic links''"

definition EACCES :: go_error where
  "EACCES = Error ''permission denied''"

lemmas errno_defs = ErrNotExist_def ErrExist_def ENOTDIR_def EISDIR_def ENOTEMPTY_def ELOOP_def EACCES_def

definition node_at :: "files \<Rightarrow> string \<Rightarrow> node option" where
  "node_at fs p = (if p = ''/'' then Some Dir_Node else map_of fs p)"

definition set_node :: "string \<Rightarrow> node \<Rightarrow> files \<Rightarrow> files" where
  "set_node p n fs = (if p = ''/'' then fs else AList.update p n fs)"

text \<open>The directories on the way to a path, outermost first, the path itself last.\<close>

definition ancestors :: "string \<Rightarrow> string list" where
  "ancestors p =
     (let ws = filter (\<lambda>w. w \<noteq> []) (Split (CHR ''/'') p)
      in map (\<lambda>k. concat (map (\<lambda>w. CHR ''/'' # w) (take k ws))) [1..<Suc (length ws)])"

definition below :: "string \<Rightarrow> string \<Rightarrow> bool" where
  "below q p = (q = p \<or> HasPrefix q (p @ ''/''))"

text \<open>The error of a path that is not there.\<close>

definition missing :: "files \<Rightarrow> string \<Rightarrow> go_error" where
  "missing fs p =
     (if \<exists>a\<in>set (butlast (ancestors p)). (case node_at fs a of Some (File_Node _ _) \<Rightarrow> True | _ \<Rightarrow> False) then ENOTDIR else ErrNotExist)"

text \<open>Links are followed 40 times at most.\<close>

fun resolve :: "nat \<Rightarrow> files \<Rightarrow> string \<Rightarrow> string option" where
  "resolve 0 fs p = (case node_at fs p of Some (Link_Node _) \<Rightarrow> None | _ \<Rightarrow> Some p)"
| "resolve (Suc k) fs p =
     (case node_at fs p of
        Some (Link_Node t) \<Rightarrow> resolve k fs (if IsAbs t then Clean t else Join [Dir p, t])
      | _ \<Rightarrow> Some p)"

definition stat_node :: "files \<Rightarrow> string \<Rightarrow> node outcome" where
  "stat_node fs p =
     (case resolve 40 fs p of
        None \<Rightarrow> Fail ELOOP
      | Some q \<Rightarrow> (case node_at fs q of None \<Rightarrow> Fail (missing fs q) | Some n \<Rightarrow> Return n))"

text \<open>A new entry in a directory.\<close>

definition create_entry :: "(string \<Rightarrow> bool) \<Rightarrow> string \<Rightarrow> node \<Rightarrow> files \<Rightarrow> files outcome" where
  "create_entry denied p n fs =
     (if node_at fs p \<noteq> None then Fail ErrExist
      else case node_at fs (Dir p) of
             None \<Rightarrow> Fail (missing fs p)
           | Some Dir_Node \<Rightarrow> if denied (Dir p) then Fail EACCES else Return (set_node p n fs)
           | Some _ \<Rightarrow> Fail ENOTDIR)"

definition write_file :: "(string \<Rightarrow> bool) \<Rightarrow> (bytes \<Rightarrow> bytes) \<Rightarrow> bool \<Rightarrow> string \<Rightarrow> files \<Rightarrow> files outcome" where
  "write_file denied f create p fs =
     (case resolve 40 fs p of
        None \<Rightarrow> Fail ELOOP
      | Some q \<Rightarrow>
          (case node_at fs q of
             None \<Rightarrow> if create then create_entry denied q (File_Node (f []) False) fs else Fail (missing fs q)
           | Some (File_Node old x) \<Rightarrow> if denied q then Fail EACCES else Return (set_node q (File_Node (f old) x) fs)
           | Some _ \<Rightarrow> Fail EISDIR))"

text \<open>\<open>MkdirAll\<close> makes what is missing, outermost first, and stops at the first error.\<close>

fun make_dirs :: "(string \<Rightarrow> bool) \<Rightarrow> string list \<Rightarrow> files \<Rightarrow> unit outcome \<times> files" where
  "make_dirs denied [] fs = (Return (), fs)"
| "make_dirs denied (p # ps) fs =
     (case stat_node fs p of
        Return Dir_Node \<Rightarrow> make_dirs denied ps fs
      | Return _ \<Rightarrow> (Fail ENOTDIR, fs)
      | Fail e \<Rightarrow> (case create_entry denied p Dir_Node fs of Return fs' \<Rightarrow> make_dirs denied ps fs' | Fail e' \<Rightarrow> (Fail e', fs) | Panic \<Rightarrow> (Panic, fs))
      | Panic \<Rightarrow> (Panic, fs))"

definition entries :: "files \<Rightarrow> string \<Rightarrow> string list" where
  "entries fs p = filter (\<lambda>q. Dir q = p \<and> q \<noteq> p) (remdups (map fst fs))"

definition remove_entry :: "(string \<Rightarrow> bool) \<Rightarrow> string \<Rightarrow> files \<Rightarrow> files outcome" where
  "remove_entry denied p fs =
     (case node_at fs p of
        None \<Rightarrow> Fail (missing fs p)
      | Some n \<Rightarrow>
          if n = Dir_Node \<and> (p = ''/'' \<or> entries fs p \<noteq> []) then Fail ENOTEMPTY
          else if denied (Dir p) then Fail EACCES
          else Return (AList.delete p fs))"

text \<open>\<open>RemoveAll\<close> removes what it can; an entry stays when something at or below it may not be removed.\<close>

definition stays :: "(string \<Rightarrow> bool) \<Rightarrow> files \<Rightarrow> string \<Rightarrow> bool" where
  "stays denied fs q = (\<exists>r\<in>set (map fst fs). below r q \<and> denied (Dir r))"

definition remove_tree :: "(string \<Rightarrow> bool) \<Rightarrow> string \<Rightarrow> files \<Rightarrow> unit outcome \<times> files" where
  "remove_tree denied p fs =
     (if node_at fs p = None then (Return (), fs)
      else (if stays denied fs p then Fail EACCES else Return (),
            filter (\<lambda>(q, n). below q p \<longrightarrow> stays denied fs q) fs))"

section \<open>The calls of the commands\<close>

record os_world =
  w_Getwd :: string
  w_LookupEnv :: "string \<Rightarrow> string option"
  w_denied :: "string \<Rightarrow> bool"               \<comment> \<open>files and directories that may not be written\<close>

record 's machine =
  m_files :: files
  m_systemd :: 's
  m_prompts :: nat                          \<comment> \<open>questions asked so far\<close>

definition abs_path :: "'w os_world_scheme \<Rightarrow> string \<Rightarrow> string" where
  "abs_path w p = (if IsAbs p then Clean p else Join [w_Getwd w, p])"

definition changing :: "(files \<Rightarrow> files outcome) \<Rightarrow> ('s machine, unit) action" where
  "changing f m =
     (case f (m_files m) of Return fs \<Rightarrow> (Return (), m\<lparr>m_files := fs\<rparr>) | Fail e \<Rightarrow> (Fail e, m) | Panic \<Rightarrow> (Panic, m))"

definition Stat :: "'w os_world_scheme \<Rightarrow> string \<Rightarrow> 's machine \<Rightarrow> node outcome" where
  "Stat w p m = stat_node (m_files m) (abs_path w p)"

definition exists_file :: "'w os_world_scheme \<Rightarrow> string \<Rightarrow> 's machine \<Rightarrow> bool" where
  "exists_file w p m = is_return (Stat w p m)"

definition ReadFile :: "'w os_world_scheme \<Rightarrow> string \<Rightarrow> 's machine \<Rightarrow> bytes outcome" where
  "ReadFile w p m = (case Stat w p m of Return (File_Node d _) \<Rightarrow> Return d | Return _ \<Rightarrow> Fail EISDIR | Fail e \<Rightarrow> Fail e | Panic \<Rightarrow> Panic)"

definition WriteFile :: "'w os_world_scheme \<Rightarrow> string \<Rightarrow> bytes \<Rightarrow> ('s machine, unit) action" where
  "WriteFile w p d = changing (write_file (w_denied w) (\<lambda>_. d) True (abs_path w p))"

definition AppendFile :: "'w os_world_scheme \<Rightarrow> string \<Rightarrow> bytes \<Rightarrow> ('s machine, unit) action" where
  "AppendFile w p d = changing (write_file (w_denied w) (\<lambda>old. old @ d) False (abs_path w p))"

definition CreateExclusive :: "'w os_world_scheme \<Rightarrow> string \<Rightarrow> bytes \<Rightarrow> ('s machine, unit) action" where
  "CreateExclusive w p d = changing (create_entry (w_denied w) (abs_path w p) (File_Node d True))"

definition Symlink :: "'w os_world_scheme \<Rightarrow> string \<Rightarrow> string \<Rightarrow> ('s machine, unit) action" where
  "Symlink w target link = changing (create_entry (w_denied w) (abs_path w link) (Link_Node target))"

definition Remove :: "'w os_world_scheme \<Rightarrow> string \<Rightarrow> ('s machine, unit) action" where
  "Remove w p = changing (remove_entry (w_denied w) (abs_path w p))"

definition RemoveAll :: "'w os_world_scheme \<Rightarrow> string \<Rightarrow> ('s machine, unit) action" where
  "RemoveAll w p m = (case remove_tree (w_denied w) (abs_path w p) (m_files m) of (r, fs) \<Rightarrow> (r, m\<lparr>m_files := fs\<rparr>))"

definition MkdirAll :: "'w os_world_scheme \<Rightarrow> string \<Rightarrow> ('s machine, unit) action" where
  "MkdirAll w p m = (case make_dirs (w_denied w) (ancestors (abs_path w p)) (m_files m) of (r, fs) \<Rightarrow> (r, m\<lparr>m_files := fs\<rparr>))"

text \<open>\<open>ReadDir\<close>: the names in a directory in order, and whether each is a directory.\<close>

definition ReadDir :: "'w os_world_scheme \<Rightarrow> string \<Rightarrow> 's machine \<Rightarrow> (string \<times> bool) list outcome" where
  "ReadDir w p m =
     (case resolve 40 (m_files m) (abs_path w p) of
        None \<Rightarrow> Fail ELOOP
      | Some q \<Rightarrow>
          (case node_at (m_files m) q of
             None \<Rightarrow> Fail (missing (m_files m) q)
           | Some Dir_Node \<Rightarrow>
               Return (map (\<lambda>c. (Base c, node_at (m_files m) c = Some Dir_Node)) (sort_key Base (entries (m_files m) q)))
           | Some _ \<Rightarrow> Fail ENOTDIR))"

text \<open>\<open>exec.LookPath\<close> for a name without a slash.\<close>

definition path_list :: "string \<Rightarrow> string list" where
  "path_list path = (if path = [] then [] else Split (CHR '':'') path)"

definition is_executable :: "'w os_world_scheme \<Rightarrow> 's machine \<Rightarrow> string \<Rightarrow> bool" where
  "is_executable w m p = (case Stat w p m of Return (File_Node _ x) \<Rightarrow> x | _ \<Rightarrow> False)"

definition LookPath :: "'w os_world_scheme \<Rightarrow> string \<Rightarrow> 's machine \<Rightarrow> string option" where
  "LookPath w file m =
     find (is_executable w m)
       (map (\<lambda>dir. Join [if dir = [] then ''.'' else dir, file]) (path_list (case w_LookupEnv w ''PATH'' of Some v \<Rightarrow> v | None \<Rightarrow> [])))"

section \<open>Absolute paths\<close>

text \<open>A cleaned absolute path other than the root.\<close>

definition slashed :: "string list \<Rightarrow> string" where
  "slashed ws = concat (map (\<lambda>w. CHR ''/'' # w) ws)"

definition abs_dir :: "string \<Rightarrow> bool" where
  "abs_dir p \<longleftrightarrow> (\<exists>ws. ws \<noteq> [] \<and> (\<forall>w\<in>set ws. plain_name w) \<and> p = slashed ws)"

lemma slashed_join: "ws \<noteq> [] \<Longrightarrow> slashed ws = ''/'' @ join_with ''/'' ws"
  by (induction ws rule: rev_induct) (auto simp: slashed_def join_with_snoc)

lemma abs_dir_child: "abs_dir p \<Longrightarrow> plain_name n \<Longrightarrow> abs_dir (p @ ''/'' @ n)"
  unfolding abs_dir_def slashed_def by (clarsimp, rule_tac x = "ws @ [n]" in exI) auto

lemma Split_slashed:
  assumes "\<forall>w\<in>set ws. CHR ''/'' \<notin> set w" and "ws \<noteq> []"
  shows "Split (CHR ''/'') (slashed ws) = [] # ws"
  using assms(2,1)
proof (induction ws rule: rev_nonempty_induct)
  case (single w)
  then show ?case by (simp add: slashed_def Split_no_sep)
next
  case (snoc w ws)
  have "slashed (ws @ [w]) = slashed ws @ CHR ''/'' # w" by (simp add: slashed_def)
  with snoc show ?case by (simp add: Split_snoc)
qed

lemma clean_stack_plain: "\<forall>w\<in>set ws. plain_name w \<Longrightarrow> clean_stack rooted st ws = rev st @ ws"
  by (induction ws arbitrary: st) (auto simp: plain_name_def)

lemma Clean_slashed:
  assumes "\<forall>w\<in>set ws. plain_name w" and "ws \<noteq> []"
  shows "Clean (slashed ws) = slashed ws" and "Clean (slashed ws @ ''/'') = slashed ws"
proof -
  have s: "\<forall>w\<in>set ws. CHR ''/'' \<notin> set w" using assms(1) by (simp add: plain_name_def)
  have "slashed ws \<noteq> []" "hd (slashed ws) = CHR ''/''" using assms(2) by (auto simp: slashed_join)
  moreover have "Split (CHR ''/'') (slashed ws @ ''/'') = [] # ws @ [[]]"
    using Split_snoc [of "CHR ''/''" "[]" "slashed ws"] Split_slashed [OF s assms(2)] by simp
  moreover have "clean_stack True [] (ws @ [[]]) = ws"
  proof -
    have "clean_stack True st (ws @ [[]]) = clean_stack True st ws" for st
      by (induction True st ws rule: clean_stack.induct) (auto split: list.splits)
    then show ?thesis using clean_stack_plain [OF assms(1), of True "[]"] by simp
  qed
  ultimately show "Clean (slashed ws) = slashed ws" "Clean (slashed ws @ ''/'') = slashed ws"
    using Split_slashed [OF s assms(2)] clean_stack_plain [OF assms(1), of True "[]"] assms(2)
    by (simp_all add: Clean_def Let_def slashed_join)
qed

lemma abs_dir_Clean: "abs_dir p \<Longrightarrow> Clean p = p" "abs_dir p \<Longrightarrow> Clean (p @ ''/'') = p"
  unfolding abs_dir_def using Clean_slashed by auto

lemma abs_dir_IsAbs: "abs_dir p \<Longrightarrow> IsAbs p \<and> p \<noteq> [] \<and> p \<noteq> ''/''"
proof -
  assume "abs_dir p"
  then obtain ws where ws: "ws \<noteq> []" "\<forall>w\<in>set ws. plain_name w" "p = slashed ws" by (auto simp: abs_dir_def)
  then obtain w vs where "ws = w # vs" by (cases ws) auto
  with ws show ?thesis by (cases w) (auto simp: slashed_def IsAbs_def plain_name_def)
qed

lemma Join_child: "abs_dir p \<Longrightarrow> plain_name n \<Longrightarrow> Join [p, n] = p @ ''/'' @ n"
  using abs_dir_Clean(1) [OF abs_dir_child, of p n] abs_dir_IsAbs [of p] by (simp add: Join_def Let_def plain_name_def)

lemma Base_child [simp]: "plain_name n \<Longrightarrow> Base (p @ ''/'' @ n) = n" "plain_name n \<Longrightarrow> Base (p @ CHR ''/'' # n) = n"
  by (simp_all add: Base_last(1) plain_name_def)

lemma Dir_child: "abs_dir p \<Longrightarrow> plain_name n \<Longrightarrow> Dir (p @ ''/'' @ n) = p"
proof -
  assume "abs_dir p" "plain_name n"
  moreover from this have "dropWhile (\<lambda>c. c \<noteq> CHR ''/'') (rev n @ CHR ''/'' # rev p) = CHR ''/'' # rev p"
    by (subst dropWhile_append2) (auto simp: plain_name_def)
  ultimately show ?thesis using abs_dir_Clean(2) [of p] by (simp add: Dir_def)
qed

lemma abs_path_abs [simp]: "abs_dir p \<Longrightarrow> abs_path w p = p"
  using abs_dir_IsAbs abs_dir_Clean by (simp add: abs_path_def)

section \<open>What the calls change\<close>

lemma node_at_set_node [simp]: "node_at (set_node p n fs) q = (if q = p \<and> p \<noteq> ''/'' then Some n else node_at fs q)"
  by (auto simp: node_at_def set_node_def update_conv')

lemma node_at_delete [simp]: "node_at (AList.delete p fs) q = (if q = p \<and> q \<noteq> ''/'' then None else node_at fs q)"
  by (auto simp: node_at_def delete_conv')

lemma create_entry_nodes:
  assumes "create_entry denied p n fs = Return fs'"
  shows "node_at fs' = (node_at fs)(p \<mapsto> n)" and "node_at fs p = None" and "node_at fs (Dir p) = Some Dir_Node"
proof -
  have "p \<noteq> ''/''" using assms by (auto simp: create_entry_def node_at_def)
  then show "node_at fs' = (node_at fs)(p \<mapsto> n)"
    using assms by (auto simp: create_entry_def fun_eq_iff split: option.splits node.splits if_splits)
qed (use assms in \<open>auto simp: create_entry_def split: option.splits node.splits if_splits\<close>)

lemma resolve_plain [simp]: "(\<And>t. node_at fs p \<noteq> Some (Link_Node t)) \<Longrightarrow> resolve k fs p = Some p"
  by (cases k) (auto split: option.splits node.splits)

lemma write_file_nodes:
  assumes "write_file denied f create p fs = Return fs'"
  obtains q x where "resolve 40 fs p = Some q" "node_at fs' = (node_at fs)(q \<mapsto> File_Node (f (case node_at fs q of Some (File_Node old _) \<Rightarrow> old | _ \<Rightarrow> [])) x)"
proof -
  from assms obtain q where q: "resolve 40 fs p = Some q" by (auto simp: write_file_def split: option.splits)
  show thesis
  proof (cases "node_at fs q")
    case None
    with assms q have "create_entry denied q (File_Node (f []) False) fs = Return fs'" by (auto simp: write_file_def split: if_splits)
    from create_entry_nodes(1) [OF this] that q None show thesis by simp
  next
    case (Some n)
    with assms q obtain old x where "n = File_Node old x" "fs' = set_node q (File_Node (f old) x) fs"
      by (auto simp: write_file_def split: node.splits if_splits)
    moreover from this Some have "q \<noteq> ''/''" by (auto simp: node_at_def)
    ultimately show thesis using that q Some by (auto simp: fun_eq_iff)
  qed
qed

lemma make_dirs_nodes:
  assumes "make_dirs denied ps fs = (r, fs')"
  shows "node_at fs' q = node_at fs q \<or> node_at fs q = None \<and> node_at fs' q = Some Dir_Node \<and> q \<in> set ps"
  using assms
proof (induction denied ps fs rule: make_dirs.induct)
  case (2 denied p ps fs)
  show ?case
  proof (cases "stat_node fs p")
    case (Return n)
    with 2 show ?thesis by (cases n) auto
  next
    case (Fail e)
    show ?thesis
    proof (cases "create_entry denied p Dir_Node fs")
      case (Return fs1)
      with 2 Fail have "node_at fs' q = node_at fs1 q \<or> node_at fs1 q = None \<and> node_at fs' q = Some Dir_Node \<and> q \<in> set ps" by simp
      with create_entry_nodes [OF Return] show ?thesis by (cases "q = p") auto
    qed (use 2 Fail in auto)
  qed (use 2 in auto)
qed simp

lemma remove_entry_nodes: "remove_entry denied p fs = Return fs' \<Longrightarrow> node_at fs' = (node_at fs)(p := None)"
  by (auto simp: remove_entry_def fun_eq_iff node_at_def delete_conv' split: option.splits if_splits)

lemma remove_tree_nodes:
  assumes "remove_tree denied p fs = (r, fs')" and "\<not> below q p"
  shows "node_at fs' q = node_at fs q"
proof -
  have "map_of (filter (\<lambda>(q, n). below q p \<longrightarrow> P q) gs) q = map_of gs q" for gs :: files and P
    by (induction gs) (auto simp: assms(2))
  then show ?thesis using assms(1) by (auto simp: remove_tree_def node_at_def split: if_splits)
qed

lemma below_trans: "below r q \<Longrightarrow> below q p \<Longrightarrow> below r p"
  by (auto simp: below_def HasPrefix_iff_prefix elim!: prefixE)

lemma below_child: "below (p @ ''/'' @ n) p" "below (p @ CHR ''/'' # n) p"
  by (auto simp: below_def HasPrefix_iff_prefix)

lemma remove_tree_gone:
  assumes "remove_tree denied p fs = (Return u, fs')" and "node_at fs p \<noteq> None" and "below q p" and "q \<noteq> ''/''"
  shows "node_at fs' q = None"
proof -
  have ok: "\<not> stays denied fs p" and fs': "fs' = filter (\<lambda>(q, n). below q p \<longrightarrow> stays denied fs q) fs"
    using assms(1,2) by (auto simp: remove_tree_def split: if_splits)
  have "\<not> stays denied fs q" using ok assms(3) below_trans unfolding stays_def by blast
  then have "q \<notin> fst ` set fs'" using assms(3) unfolding fs' by auto
  then show ?thesis using assms(4) by (simp add: node_at_def map_of_eq_None_iff)
qed

lemma stat_node_there: "stat_node fs p = Return n \<Longrightarrow> node_at fs p \<noteq> None"
  by (cases "node_at fs p") (auto simp: stat_node_def)

lemma exists_file_there: "exists_file w p m \<Longrightarrow> node_at (m_files m) (abs_path w p) \<noteq> None"
  using stat_node_there by (auto simp: exists_file_def Stat_def elim!: is_return.elims)

text \<open>Every entry is in a directory.\<close>

definition wf_files :: "files \<Rightarrow> bool" where
  "wf_files fs \<longleftrightarrow> (\<forall>(q, n)\<in>set fs. q \<noteq> ''/'' \<longrightarrow> node_at fs (Dir q) = Some Dir_Node)"

lemma wf_files_child:
  assumes "wf_files fs" and "abs_dir p" and "plain_name n" and "node_at fs (p @ ''/'' @ n) \<noteq> None"
  shows "node_at fs p = Some Dir_Node"
proof -
  have "p @ ''/'' @ n \<noteq> ''/''" using abs_dir_IsAbs [OF abs_dir_child [OF assms(2,3)]] by simp
  moreover from this assms(4) obtain x where "(p @ ''/'' @ n, x) \<in> set fs"
    by (auto simp: node_at_def dest!: map_of_SomeD split: if_splits)
  ultimately show ?thesis using assms(1) Dir_child [OF assms(2,3)] unfolding wf_files_def by fastforce
qed

lemma ancestors_slashed:
  assumes "\<forall>w\<in>set ws. plain_name w" and "ws \<noteq> []"
  shows "ancestors (slashed ws) = map (\<lambda>k. slashed (take k ws)) [1..<Suc (length ws)]"
proof -
  have "\<forall>w\<in>set ws. CHR ''/'' \<notin> set w" "filter (\<lambda>w. w \<noteq> []) ws = ws" using assms(1) by (auto simp: plain_name_def filter_id_conv)
  then show ?thesis using Split_slashed [of ws] assms(2) by (simp add: ancestors_def slashed_def Let_def del: upt_Suc)
qed

lemma ancestors_length: "abs_dir p \<Longrightarrow> a \<in> set (ancestors p) \<Longrightarrow> length a \<le> length p"
proof -
  assume "abs_dir p" "a \<in> set (ancestors p)"
  then obtain ws k where "p = slashed ws" "a = slashed (take k ws)"
    using ancestors_slashed unfolding abs_dir_def by (auto simp del: upt_Suc)
  then have "p = a @ slashed (drop k ws)" by (metis slashed_def append_take_drop_id concat_append map_append)
  then show ?thesis by simp
qed

section \<open>Actions and links\<close>

text \<open>\<open>keeps_links f\<close>: the action \<open>f\<close> leaves the symbolic links and the services alone.\<close>

definition keeps_links :: "('s machine, 'a) action \<Rightarrow> bool" where
  "keeps_links f \<longleftrightarrow> (\<forall>m r m'. f m = (r, m') \<longrightarrow> m_systemd m' = m_systemd m \<and>
     (\<forall>q t. node_at (m_files m) q = Some (Link_Node t) \<longrightarrow> node_at (m_files m') q = Some (Link_Node t)))"

named_theorems keeps_intro "actions that keep links"

lemma keeps_linksD: "keeps_links f \<Longrightarrow> f m = (r, m') \<Longrightarrow> node_at (m_files m) q = Some (Link_Node t) \<Longrightarrow> node_at (m_files m') q = Some (Link_Node t)"
  by (auto simp: keeps_links_def)

lemma keeps_systemd: "keeps_links f \<Longrightarrow> f m = (r, m') \<Longrightarrow> m_systemd m' = m_systemd m"
  by (auto simp: keeps_links_def)

lemma keeps_andThen [keeps_intro]: "keeps_links f \<Longrightarrow> (\<And>x. keeps_links (g x)) \<Longrightarrow> keeps_links (andThen f g)"
  unfolding keeps_links_def andThen_def by (auto split: prod.splits outcome.splits)

lemma keeps_give [keeps_intro]: "keeps_links (give r)"
  by (simp add: keeps_links_def give_def)

lemma keeps_reading [keeps_intro]: "keeps_links (reading f)"
  by (simp add: keeps_links_def reading_def)

lemma keeps_MkdirAll [keeps_intro]: "keeps_links (MkdirAll w p)"
proof -
  have "make_dirs d ps fs = (r, fs') \<Longrightarrow> node_at fs q = Some n \<Longrightarrow> node_at fs' q = Some n" for d ps fs r fs' q n
    using make_dirs_nodes [of d ps fs r fs' q] by auto
  then show ?thesis unfolding keeps_links_def MkdirAll_def by (auto split: prod.splits)
qed

lemma resolve_not_link: "resolve k fs p = Some q \<Longrightarrow> node_at fs q \<noteq> Some (Link_Node t)"
  by (induction k fs p rule: resolve.induct) (auto split: option.splits node.splits)

lemma write_file_keeps_links:
  "write_file denied f c p fs = Return fs' \<Longrightarrow> node_at fs q = Some (Link_Node t) \<Longrightarrow> node_at fs' q = Some (Link_Node t)"
  by (erule write_file_nodes) (use resolve_not_link in \<open>fastforce split: if_splits\<close>)

lemma keeps_WriteFile [keeps_intro]: "keeps_links (WriteFile w p d)" "keeps_links (AppendFile w p d)"
  unfolding keeps_links_def WriteFile_def AppendFile_def changing_def
  by (auto split: outcome.splits dest: write_file_keeps_links)

text \<open>Reading a file after a write.\<close>

lemma resolve_file_update:
  assumes "node_at fs' = (node_at fs)(q \<mapsto> File_Node d x)" and "\<And>t. node_at fs q \<noteq> Some (Link_Node t)"
  shows "resolve k fs' p = resolve k fs p"
proof (induction k arbitrary: p)
  case 0
  then show ?case using assms(2) by (auto simp: assms(1) split: option.splits node.splits)
next
  case (Suc k)
  then show ?case using assms(2) by (auto simp: assms(1) split: option.splits node.splits)
qed

lemma ReadFile_resolve:
  "ReadFile w p m = Return d \<longleftrightarrow> (\<exists>q x. resolve 40 (m_files m) (abs_path w p) = Some q \<and> node_at (m_files m) q = Some (File_Node d x))"
  by (auto simp: ReadFile_def Stat_def stat_node_def split: option.splits node.splits outcome.splits)

lemma WriteFile_read:
  assumes "WriteFile w p d m = (Return u, m')"
  shows "ReadFile w p m' = Return d"
proof -
  obtain fs' where fs': "write_file (w_denied w) (\<lambda>_. d) True (abs_path w p) (m_files m) = Return fs'" "m' = m\<lparr>m_files := fs'\<rparr>"
    using assms by (auto simp: WriteFile_def changing_def split: outcome.splits)
  obtain q x where "resolve 40 (m_files m) (abs_path w p) = Some q" "node_at fs' = (node_at (m_files m))(q \<mapsto> File_Node d x)"
    using write_file_nodes [OF fs'(1)] by metis
  with resolve_file_update [OF this(2)] resolve_not_link [OF this(1)] show ?thesis by (auto simp: ReadFile_resolve fs'(2))
qed

text \<open>\<open>extends w m m'\<close>: services and links are kept, and files are at most appended to.\<close>

definition extends :: "'w os_world_scheme \<Rightarrow> 's machine \<Rightarrow> 's machine \<Rightarrow> bool" where
  "extends w m m' \<longleftrightarrow> m_systemd m' = m_systemd m \<and>
     (\<forall>q t. node_at (m_files m) q = Some (Link_Node t) \<longrightarrow> node_at (m_files m') q = Some (Link_Node t)) \<and>
     (\<forall>p d. ReadFile w p m = Return d \<longrightarrow> (\<exists>e. ReadFile w p m' = Return (d @ e)))"

lemma extends_refl [simp]: "extends w m m"
  unfolding extends_def by (metis append_Nil2)

lemma extends_trans: "extends w m m1 \<Longrightarrow> extends w m1 m2 \<Longrightarrow> extends w m m2"
  unfolding extends_def by (metis append.assoc)

lemma extends_prompts [simp]: "extends w m (m'\<lparr>m_prompts := n\<rparr>) = extends w m m'"
  by (simp add: extends_def ReadFile_resolve)

lemma AppendFile_extends:
  assumes "AppendFile w r e m = (res, m')"
  shows "extends w m m'"
proof (cases "m' = m")
  case False
  then obtain fs' where fs': "write_file (w_denied w) (\<lambda>old. old @ e) False (abs_path w r) (m_files m) = Return fs'" "m' = m\<lparr>m_files := fs'\<rparr>"
    using assms by (auto simp: AppendFile_def changing_def split: outcome.splits)
  obtain q x where q: "resolve 40 (m_files m) (abs_path w r) = Some q"
    "node_at fs' = (node_at (m_files m))(q \<mapsto> File_Node ((case node_at (m_files m) q of Some (File_Node old _) \<Rightarrow> old | _ \<Rightarrow> []) @ e) x)"
    using write_file_nodes [OF fs'(1)] by metis
  note nl = resolve_not_link [OF q(1)]
  note keep = resolve_file_update [OF q(2) nl]
  have "\<exists>e. ReadFile w p m' = Return (d @ e)" if "ReadFile w p m = Return d" for p d
  proof -
    from that obtain q' y where q': "resolve 40 (m_files m) (abs_path w p) = Some q'" "node_at (m_files m) q' = Some (File_Node d y)"
      by (auto simp: ReadFile_resolve)
    then show ?thesis unfolding ReadFile_resolve fs'(2) using keep q(2) by (cases "q' = q") (auto intro: exI [of _ "[]"])
  qed
  moreover have "node_at fs' q' = Some (Link_Node t)" if "node_at (m_files m) q' = Some (Link_Node t)" for q' t
    using that nl q(2) by auto
  ultimately show ?thesis by (simp add: extends_def fs'(2))
qed simp

end
