(* ===== verification/Tools.thy ===== *)
theory Tools
  imports Machine Strconv Types
begin

text \<open>
  \<open>src/cmd/kubecc/main.go\<close> and \<open>src/pkg/kubecc/tools\<close>: the program acts as the compiler under the names of
  compilers and as a command line otherwise; the tools \<open>consumer\<close>, \<open>exec\<close>, \<open>make\<close> and \<open>makesleep\<close>.
\<close>

section \<open>Model\<close>

definition ConsumerNames :: "string list" where
  "ConsumerNames = [''gcc'', ''g++'', ''c++'', ''clang'', ''clang++'', ''cc'']"

datatype entry_point = As_Consumer "string list" | As_Command "string list"

definition kubecc_main :: "string list \<Rightarrow> entry_point outcome" where
  "kubecc_main args =
     (case args of
        [] \<Rightarrow> Panic
      | arg0 # rest \<Rightarrow> Return (if Base arg0 \<in> set ConsumerNames then As_Consumer args else As_Command args))"

text \<open>\<open>kubecc consumer\<close>: the arguments with which the consumer runs from the command line.\<close>

definition consumer_PreRun :: "string list \<Rightarrow> string list \<Rightarrow> string list" where
  "consumer_PreRun os_Args args = hd os_Args # args"

text \<open>\<open>exec.Command\<close> looks the program up when it is called.\<close>

record exec_command =
  xc_path :: string
  xc_found :: bool
  xc_args :: "string list"
  xc_PATH :: string

definition exec_Command :: "'w os_world_scheme \<Rightarrow> string \<Rightarrow> string list \<Rightarrow> 's machine \<Rightarrow> exec_command" where
  "exec_Command w name args m =
     (let found = (if CHR ''/'' \<in> set name then Some name else LookPath w name m)
      in \<lparr>xc_path = (case found of Some p \<Rightarrow> p | None \<Rightarrow> name), xc_found = (found \<noteq> None), xc_args = name # args,
          xc_PATH = (case w_LookupEnv w ''PATH'' of Some v \<Rightarrow> v | None \<Rightarrow> [])\<rparr>)"

definition ExecCmd :: "'w os_world_scheme \<Rightarrow> string list \<Rightarrow> 's machine \<Rightarrow> exec_command outcome" where
  "ExecCmd w args m =
     (case args of
        [] \<Rightarrow> Panic
      | name # rest \<Rightarrow>
          (let command = exec_Command w name rest m in
           case w_LookupEnv w ''KUBECC_HOME'' of
             None \<Rightarrow> Fail (Error ''KUBECC_HOME not set.'')
           | Some home \<Rightarrow> Return (command\<lparr>xc_PATH := Join [home, ''bin''] @ '':'' @ xc_PATH command\<rparr>)))"

definition make_locations :: "string list" where
  "make_locations = [''/usr/bin/make'', ''/bin/make'']"

definition pathToMake :: "'w os_world_scheme \<Rightarrow> 's machine \<Rightarrow> string option" where
  "pathToMake w m = find (\<lambda>loc. exists_file w loc m) make_locations"

text \<open>\<open>MakeCmd\<close> with what running \<open>make\<close> gives: the exit code and what is printed. \<open>Wait\<close> after \<open>Run\<close> is an error.\<close>

definition MakeCmd :: "'w os_world_scheme \<Rightarrow> (string \<Rightarrow> string list \<Rightarrow> go_error option) \<Rightarrow> string list \<Rightarrow> 's machine \<Rightarrow> nat \<times> string list" where
  "MakeCmd w run args m =
     (case pathToMake w m of
        None \<Rightarrow> (1, [''make not found''])
      | Some path \<Rightarrow>
          (case run path args of
             Some _ \<Rightarrow> (1, [''Error running make''])
           | None \<Rightarrow> (0, [''exec: Wait was already called''])))"

text \<open>\<open>time.Duration.Round\<close> for durations that do not overflow, and \<open>rand.Int63n\<close> with a source of numbers.\<close>

definition Round :: "int \<Rightarrow> int \<Rightarrow> int" where
  "Round d g =
     (if g \<le> 0 then d
      else let r = (if d < 0 then - ((- d) mod g) else d mod g)
           in if d < 0 then (if - r + - r < g then d - r else d - r - g)
              else if r + r < g then d - r else d + g - r)"

definition Int63n :: "nat \<Rightarrow> int \<Rightarrow> int outcome" where
  "Int63n random n = (if n \<le> 0 then Panic else Return (int random mod n))"

definition task_duration :: "nat \<Rightarrow> int \<Rightarrow> int \<Rightarrow> int \<Rightarrow> int outcome" where
  "task_duration random mn mx granularity =
     (case Int63n random (mx - mn) of Return k \<Rightarrow> Return (Round (k + mn) granularity) | Fail e \<Rightarrow> Fail e | Panic \<Rightarrow> Panic)"

definition makesleep_Args :: "string list \<Rightarrow> go_error option" where
  "makesleep_Args args =
     (case args of
        [a] \<Rightarrow> (case ParseInt a of
                  Some v \<Rightarrow> if v \<le> 0 then Some (Error ''Argument must be a positive integer greater than zero.'') else None
                | None \<Rightarrow> Some (Error ''Argument must be a positive integer greater than zero.''))
      | _ \<Rightarrow> Some (Error ''accepts 1 arg(s)''))"

text \<open>The workers of \<open>makesleep\<close> share a queue; each takes a task, runs it, and ends when the queue is empty or
  a call fails.\<close>

record makesleep =
  ms_queue :: nat
  ms_sent :: nat
  ms_working :: "nat list"

definition makesleep_start :: "nat \<Rightarrow> nat \<Rightarrow> makesleep" where
  "makesleep_start numTasks jobs = \<lparr>ms_queue = numTasks, ms_sent = 0, ms_working = [0..<jobs]\<rparr>"

definition worker_round :: "nat \<times> bool \<Rightarrow> makesleep \<Rightarrow> makesleep option" where
  "worker_round ev s =
     (case ev of (i, ok) \<Rightarrow>
        if i \<notin> set (ms_working s) then None
        else if ms_queue s = 0 then Some (s\<lparr>ms_working := removeAll i (ms_working s)\<rparr>)
        else Some (s\<lparr>ms_queue := ms_queue s - 1, ms_sent := ms_sent s + 1,
                     ms_working := (if ok then ms_working s else removeAll i (ms_working s))\<rparr>))"

section \<open>Lemmas\<close>

text \<open>Every common name of a compiler makes the program act as the consumer.\<close>

lemma common_names: "n \<in> set (CommonNames tc) \<Longrightarrow> n \<in> set ConsumerNames \<and> plain_name n"
  by (auto simp: ConsumerNames_def plain_name_def split: ToolchainKind.splits ToolchainLang.splits)

lemma main_common_name: "plain_name n \<Longrightarrow> n \<in> set ConsumerNames \<Longrightarrow> kubecc_main ((d @ ''/'' @ n) # args) = Return (As_Consumer ((d @ ''/'' @ n) # args))"
  by (simp add: kubecc_main_def)

text \<open>\<open>kubecc exec gcc\<close> runs the compiler itself: the program is looked up before the path is changed.\<close>

lemma exec_looks_up_first:
  assumes "CHR ''/'' \<notin> set name" and "LookPath w name m = Some p" and "w_LookupEnv w ''KUBECC_HOME'' = Some home"
  shows "\<exists>c. ExecCmd w (name # args) m = Return c \<and> xc_path c = p"
  using assms by (simp add: ExecCmd_def exec_Command_def Let_def)

text \<open>A duration lies between the bounds, and the upper one, documented as exclusive, is reached.\<close>

lemma Round_cases:
  assumes "0 < g" and "0 \<le> d"
  obtains q r where "d = g * q + r" "0 \<le> r" "r < g" "Round d g = (if r + r < g then g * q else g * (q + 1))"
proof -
  have d: "d = g * (d div g) + d mod g" "0 \<le> d mod g" "d mod g < g"
    using assms(1) by (simp_all only: mult_div_mod_eq pos_mod_sign pos_mod_bound)
  have "Round d g = (if d mod g + d mod g < g then d - d mod g else d + g - d mod g)"
    using assms unfolding Round_def Let_def by (simp only: not_le not_less if_False if_True split: if_split) linarith
  moreover have "d - d mod g = g * (d div g)" "d + g - d mod g = g * (d div g + 1)"
    using d(1) unfolding distrib_left mult_1_right by linarith+
  ultimately show thesis using that [OF d] by (simp only:)
qed

lemma Round_bounds:
  assumes "0 < g" and "g dvd a" and "g dvd b" and "a \<le> d" and "d \<le> b" and "0 \<le> d"
  shows "a \<le> Round d g \<and> Round d g \<le> b"
proof -
  obtain x y where ab: "a = g * x" "b = g * y" using assms(2,3) by (auto elim!: dvdE)
  obtain q r where d: "d = g * q + r" "0 \<le> r" "r < g" and R: "Round d g = (if r + r < g then g * q else g * (q + 1))"
    using Round_cases [OF assms(1,6)] by metis
  have "g * x < g * (q + 1)" using assms(4) ab(1) d unfolding distrib_left by linarith
  then have x: "x \<le> q" using assms(1) by (simp only: mult_less_cancel_left_pos)
  have y: "q \<le> y \<and> (r \<noteq> 0 \<longrightarrow> q + 1 \<le> y)"
  proof -
    have "g * q \<le> g * y" "r \<noteq> 0 \<longrightarrow> g * q < g * y" using d assms(5) ab(2) by linarith+
    then show ?thesis unfolding mult_le_cancel_left_pos [OF assms(1)] mult_less_cancel_left_pos [OF assms(1)] by linarith
  qed
  have "x \<le> (if r + r < g then q else q + 1)" "(if r + r < g then q else q + 1) \<le> y" using x y assms(1) by auto
  then have "g * x \<le> g * (if r + r < g then q else q + 1)" "g * (if r + r < g then q else q + 1) \<le> g * y"
    using assms(1) by (simp_all only: mult_le_cancel_left_pos)
  moreover have "Round d g = g * (if r + r < g then q else q + 1)" unfolding R by (rule if_distrib [symmetric])
  ultimately show ?thesis unfolding ab by (simp only: simp_thms)
qed

lemma task_duration_bounds:
  assumes "0 < g" and "g dvd mn" and "g dvd mx" and "0 \<le> mn" and "task_duration random mn mx g = Return d"
  shows "mn \<le> d \<and> d \<le> mx"
proof -
  have p: "mn < mx" and d: "d = Round (int random mod (mx - mn) + mn) g"
    using assms(5) by (auto simp: task_duration_def Int63n_def split: if_splits)
  have "0 \<le> int random mod (mx - mn)" "int random mod (mx - mn) < mx - mn" using p by simp_all
  then show ?thesis unfolding d using Round_bounds [OF assms(1,2,3)] assms(4) by simp
qed

lemma task_duration_reaches_max: "task_duration 2999 1000 4000 100 = Return 4000"
  by (simp add: task_duration_def Int63n_def Round_def Let_def)

lemma worker_round_conserves: "worker_round ev s = Some s' \<Longrightarrow> ms_queue s' + ms_sent s' = ms_queue s + ms_sent s"
  by (auto simp: worker_round_def split: prod.splits if_splits)

end
