(* ===== verification/Setup.thy ===== *)
theory Setup
  imports Tools Config Paths
begin

text \<open>
  \<open>src/pkg/kubecc/commands/setup.go\<close>: the commands \<open>setup\<close>, \<open>enable\<close> and \<open>disable\<close>, which install the binary, the
  service of the daemon, its configuration, links in the place of the compilers and the files that
  a shell sources. Prints are left out. The libraries that are not part of the sources (the home
  directory, the prompts, systemd, the YAML encoder, the login shell), the daemon that is called and
  the programs that are run are parameters.
\<close>

section \<open>The world outside\<close>

datatype sd_mode = SystemMode | UserMode

datatype sd_call = DaemonReload | Start string | Enable string | Restart string | Stop string | Disable string

record answers =
  LocalPort :: string
  SchedulerAddress :: string
  MonitorAddress :: string
  TLSEnabled :: bool

record 's world = os_world +
  w_Executable :: "string outcome"
  w_md5 :: "bytes \<Rightarrow> bytes"
  w_Getuid :: int
  w_Expand :: "string \<Rightarrow> string outcome"
  w_HomeDir :: string
  w_AskOne :: "nat \<Rightarrow> string \<Rightarrow> string outcome"                       \<comment> \<open>the answer to the n-th question\<close>
  w_Confirm :: "nat \<Rightarrow> string \<Rightarrow> bool outcome"
  w_Ask :: "nat \<Rightarrow> answers outcome"
  w_IsActive :: "sd_mode \<Rightarrow> string \<Rightarrow> files \<Rightarrow> 's \<Rightarrow> bool outcome"
  w_systemctl :: "sd_mode \<Rightarrow> sd_call \<Rightarrow> files \<Rightarrow> 's \<Rightarrow> unit outcome \<times> 's"
  w_cat :: "string \<Rightarrow> files \<Rightarrow> 's \<Rightarrow> bytes outcome"
  w_Marshal :: "KubeccSpec \<Rightarrow> bytes outcome"
  w_yaml :: "bytes \<Rightarrow> KubeccSpec"
  w_json :: "bytes \<Rightarrow> KubeccSpec"
  w_ConfigPath :: string
  w_Dial :: "string \<Rightarrow> files \<Rightarrow> 's \<Rightarrow> unit outcome"
  w_GetToolchains :: "'s \<Rightarrow> Toolchain list outcome"
  w_Shell :: "string outcome"
  w_echo :: "string \<Rightarrow> files \<Rightarrow> bytes outcome"                        \<comment> \<open>what the shell prints for \<open>$KUBECC_BINARY\<close>\<close>

text \<open>A question to the user, and a call of systemd.\<close>

definition prompt :: "(nat \<Rightarrow> 'a outcome) \<Rightarrow> ('s machine, 'a) action" where
  "prompt ask m = (ask (m_prompts m), m\<lparr>m_prompts := Suc (m_prompts m)\<rparr>)"

definition systemd :: "'s world \<Rightarrow> sd_mode \<Rightarrow> sd_call \<Rightarrow> ('s machine, unit) action" where
  "systemd w mode c m = (case w_systemctl w mode c (m_files m) (m_systemd m) of (r, s) \<Rightarrow> (r, m\<lparr>m_systemd := s\<rparr>))"

definition is_active :: "'s world \<Rightarrow> sd_mode \<Rightarrow> string \<Rightarrow> 's machine \<Rightarrow> bool outcome" where
  "is_active w mode unit m = w_IsActive w mode unit (m_files m) (m_systemd m)"

section \<open>Constants\<close>

definition nl :: string where
  "nl = [CHR 0x0A]"

definition unlines :: "string list \<Rightarrow> string" where
  "unlines ls = concat (map (\<lambda>l. l @ nl) ls)"

definition serviceTmpl :: "string \<Rightarrow> string" where
  "serviceTmpl bin =
     unlines [''[Unit]'', ''Description=Kubecc Consumerd Service'', ''After=network.target'', '''', ''[Install]'',
       ''WantedBy=multi-user.target'', '''', ''[Service]'', ''Type=simple'', ''StandardOutput=journal'',
       ''ExecStart='' @ bin @ '' consumerd'', ''Restart=on-failure'']"

definition env_file :: "string \<Rightarrow> string \<Rightarrow> string" where
  "env_file action home =
     unlines [''# Edit this file using '' @ [CHR 0x27] @ ''kubecc enable'' @ [CHR 0x27] @ '' and '' @ [CHR 0x27] @ ''kubecc disable'' @ [CHR 0x27],
       ''unset KUBECC_ENABLED'', ''source '' @ home @ ''/.env'', action]"

definition envEnabled :: "string \<Rightarrow> string" where
  "envEnabled = env_file ''kubecc_enable''"

definition envDisabled :: "string \<Rightarrow> string" where
  "envDisabled = env_file ''kubecc_disable''"

definition quoted :: "string \<Rightarrow> string" where
  "quoted s = [CHR 0x22] @ s @ [CHR 0x22]"

definition dotEnvTmpl :: string where
  "dotEnvTmpl =
     unlines [''# This file is auto-generated, do not edit!'', ''export KUBECC_HOME='' @ quoted ''{home}'',
       ''export KUBECC_BINARY='' @ quoted ''{bin}'', '''', ''kubecc_enable() {'',
       ''  if [ '' @ quoted ''$KUBECC_ENABLED'' @ '' = '' @ quoted ''1'' @ '' ]; then'', ''    return'', ''  fi'', ''{aliases}'',
       ''  eval ${KUBECC_BINARY} enable > /dev/null'', ''  export KUBECC_ENABLED='' @ quoted ''1'', ''}'', '''', ''kubecc_disable() {'',
       ''  if [ '' @ quoted ''$KUBECC_ENABLED'' @ '' = '' @ quoted ''0'' @ '' ]; then'', ''    return'', ''  fi'', ''{unaliases}'',
       ''  eval ${KUBECC_BINARY} disable > /dev/null'', ''  export KUBECC_ENABLED='' @ quoted ''0'', ''}'']"

definition systemServiceFilepath :: string where
  "systemServiceFilepath = ''/etc/systemd/system/consumerd.service''"

definition configFilenames :: "string list" where
  "configFilenames = [''config.yaml'', ''config.yml'', ''config.json'']"

definition consumerdUnit :: string where
  "consumerdUnit = ''consumerd''"

record nonInteractiveConfig =
  ni_Enabled :: bool
  ni_SchedulerAddress :: string
  ni_MonitorAddress :: string
  ni_InstallDir :: string
  ni_ConsumerdListenPort :: string
  ni_TLSEnabled :: bool
  ni_ShellRCConfig :: bool

definition default_nonInteractive :: nonInteractiveConfig where
  "default_nonInteractive =
     \<lparr>ni_Enabled = False, ni_SchedulerAddress = [], ni_MonitorAddress = [], ni_InstallDir = [],
      ni_ConsumerdListenPort = ''10991'', ni_TLSEnabled = False, ni_ShellRCConfig = True\<rparr>"

section \<open>The binary\<close>

definition md5sum :: "'s world \<Rightarrow> string \<Rightarrow> 's machine \<Rightarrow> bytes outcome" where
  "md5sum w p m = (case ReadFile w p m of Return d \<Rightarrow> Return (w_md5 w d) | Fail e \<Rightarrow> Fail e | Panic \<Rightarrow> Panic)"

definition copySelfTo :: "'s world \<Rightarrow> string \<Rightarrow> ('s machine, string) action" where
  "copySelfTo w destFolder =
     andThen (give (w_Executable w)) (\<lambda>executable.
     andThen (reading (ReadFile w executable)) (\<lambda>self.
     (let destFilePath = Join [destFolder, Base executable] in
      andThen (\<lambda>m. if exists_file w destFilePath m then Remove w destFilePath m else (Return (), m)) (\<lambda>_.
      andThen (CreateExclusive w destFilePath self) (\<lambda>_. give (Return destFilePath))))))"

definition binaryNeedsUpdate :: "'s world \<Rightarrow> string \<Rightarrow> ('s machine, bool) action" where
  "binaryNeedsUpdate w existing =
     andThen (give (w_Executable w)) (\<lambda>self.
     andThen (reading (md5sum w self)) (\<lambda>selfMd5.
     andThen (reading (md5sum w existing)) (\<lambda>pathMd5. give (Return (selfMd5 \<noteq> pathMd5)))))"

datatype installResult = Installed | Updated | UpToDate

text \<open>The directory for the binary. The loop asks again when it cannot be made or is not a directory. The
  expanded name is a variable of the loop only: what is returned is the name as it was chosen.\<close>

definition ask_dir :: "'s world \<Rightarrow> nonInteractiveConfig \<Rightarrow> bool \<Rightarrow> ('s machine, string) action" where
  "ask_dir w ni sudo =
     (let defaultPath = (if sudo then ''/usr/local/bin'' else ''~/.local/bin'') in
      if ni_Enabled ni then give (Return (if ni_InstallDir ni \<noteq> [] then ni_InstallDir ni else defaultPath))
      else andThen (prompt (\<lambda>n. w_AskOne w n ''Choose an install location for the kubecc binary'')) (\<lambda>dirName.
           if dirName = ''(other)'' then prompt (\<lambda>n. w_AskOne w n ''Enter an install path'') else give (Return dirName)))"

partial_function (option) choose_dir ::
    "'s world \<Rightarrow> nonInteractiveConfig \<Rightarrow> bool \<Rightarrow> 's machine \<Rightarrow> (string outcome \<times> 's machine) option" where
  "choose_dir w ni sudo m =
     (case ask_dir w ni sudo m of
        (Fail e, m1) \<Rightarrow> Some (Fail e, m1)
      | (Panic, m1) \<Rightarrow> Some (Panic, m1)
      | (Return dirName, m1) \<Rightarrow>
          (case w_Expand w dirName of
             Fail e \<Rightarrow> Some (Fail e, m1)
           | Panic \<Rightarrow> Some (Panic, m1)
           | Return expanded \<Rightarrow>
               (case Stat w expanded m1 of
                  Return Dir_Node \<Rightarrow> Some (Return dirName, m1)
                | Return _ \<Rightarrow> choose_dir w ni sudo m1
                | Fail e \<Rightarrow>
                    if e = ErrNotExist then
                      (case MkdirAll w expanded m1 of
                         (Return _, m2) \<Rightarrow> Some (Return dirName, m2)
                       | (Fail _, m2) \<Rightarrow> choose_dir w ni sudo m2
                       | (Panic, m2) \<Rightarrow> Some (Panic, m2))
                    else Some (Panic, m1)
                | Panic \<Rightarrow> Some (Panic, m1))))"

definition installOrUpdateBinary ::
    "'s world \<Rightarrow> nonInteractiveConfig \<Rightarrow> bool \<Rightarrow> 's machine \<Rightarrow> ((string \<times> installResult) outcome \<times> 's machine) option" where
  "installOrUpdateBinary w ni sudo m =
     (case LookPath w ''kubecc'' m of
        Some path \<Rightarrow>
          Some (andThen (binaryNeedsUpdate w path) (\<lambda>needsUpdate.
                if needsUpdate then andThen (copySelfTo w (Dir path)) (\<lambda>_. give (Return (path, Updated)))
                else give (Return (path, UpToDate))) m)
      | None \<Rightarrow>
          (case choose_dir w ni sudo m of
             None \<Rightarrow> None
           | Some (r, m1) \<Rightarrow>
               Some (andThen (give r) (\<lambda>dirName.
                     andThen (copySelfTo w dirName) (\<lambda>dest. give (Return (dest, Installed)))) m1)))"

section \<open>Configuration\<close>

definition config_dir :: "'s world \<Rightarrow> string \<Rightarrow> string option" where
  "config_dir w option =
     (if option = ''user'' then Some (Join [w_HomeDir w, ''.kubecc''])
      else if option = ''system'' then Some ''/etc/kubecc'' else None)"

definition configExists :: "'s world \<Rightarrow> string \<Rightarrow> 's machine \<Rightarrow> bool" where
  "configExists w option m =
     (case config_dir w option of None \<Rightarrow> False | Some d \<Rightarrow> list_ex (\<lambda>name. exists_file w (Join [d, name]) m) configFilenames)"

text \<open>\<open>net.SplitHostPort\<close>.\<close>

definition last_index :: "char \<Rightarrow> string \<Rightarrow> int" where
  "last_index c s = (case find (\<lambda>i. s ! i = c) (rev [0..<length s]) of Some i \<Rightarrow> int i | None \<Rightarrow> -1)"

definition first_index :: "char \<Rightarrow> string \<Rightarrow> int" where
  "first_index c s = (case find (\<lambda>i. s ! i = c) [0..<length s] of Some i \<Rightarrow> int i | None \<Rightarrow> -1)"

definition addr_error :: "string \<Rightarrow> 'a outcome" where
  "addr_error why = Fail (Error why)"

definition SplitHostPort :: "string \<Rightarrow> (string \<times> string) outcome" where
  "SplitHostPort hostport =
     (let i = last_index (CHR '':'') hostport in
      if i < 0 then addr_error ''missing port in address''
      else
        let finish = (\<lambda>host j k.
              if first_index (CHR ''['') (drop j hostport) \<ge> 0 then addr_error ''unexpected [ in address''
              else if first_index (CHR '']'') (drop k hostport) \<ge> 0 then addr_error ''unexpected ] in address''
              else Return (host, drop (nat i + 1) hostport))
        in if hd hostport = CHR ''['' then
             (let e = first_index (CHR '']'') hostport in
              if e < 0 then addr_error ''missing ] in address''
              else if e + 1 = int (length hostport) then addr_error ''missing port in address''
              else if e + 1 = i then finish (take (nat e - 1) (drop 1 hostport)) 1 (nat e + 1)
              else if hostport ! nat (e + 1) = CHR '':'' then addr_error ''too many colons in address''
              else addr_error ''missing port in address'')
           else
             (let host = take (nat i) hostport in
              if first_index (CHR '':'') host \<ge> 0 then addr_error ''too many colons in address'' else finish host 0 0))"

text \<open>\<open>strconv.ParseUint(s, 10, 16)\<close>.\<close>

definition ParseUint16 :: "string \<Rightarrow> nat outcome" where
  "ParseUint16 s =
     (case ParseUnsigned s of
        None \<Rightarrow> Fail (Error ''invalid syntax'')
      | Some n \<Rightarrow> if n < 2 ^ 16 then Return n else Fail (Error ''value out of range''))"

definition validateAddress :: "string \<Rightarrow> go_error option" where
  "validateAddress address =
     (case SplitHostPort address of
        Fail e \<Rightarrow> Some e
      | Panic \<Rightarrow> None
      | Return (host, port) \<Rightarrow>
          if host = [] then Some (Error ''host must not be empty'')
          else if port = [] then Some (Error ''port must not be empty'')
          else (case ParseUint16 port of Fail e \<Rightarrow> Some e | _ \<Rightarrow> None))"

definition empty_global :: GlobalSpec where
  "empty_global = \<lparr>gs_LogLevel = [], gs_LogFile = []\<rparr>"

text \<open>The configuration of the installation; the components that do not run on the host have empty parts.\<close>

definition setup_spec :: "answers \<Rightarrow> KubeccSpec" where
  "setup_spec a =
     \<lparr>ks_Global = \<lparr>gs_LogLevel = ''info'', gs_LogFile = []\<rparr>,
      ks_Agent = \<lparr>agent_Global = empty_global, agent_UsageLimits = None, agent_SchedulerAddress = [], agent_MonitorAddress = []\<rparr>,
      ks_Consumer = \<lparr>consumer_Global = empty_global, consumer_ConsumerdAddress = ''127.0.0.1:'' @ LocalPort a\<rparr>,
      ks_Consumerd = \<lparr>consumerd_Global = empty_global, consumerd_UsageLimits = Some (-1), consumerd_SchedulerAddress = SchedulerAddress a,
        consumerd_MonitorAddress = MonitorAddress a, consumerd_ListenAddress = ''127.0.0.1:'' @ LocalPort a,
        consumerd_DisableTLS = (\<not> TLSEnabled a)\<rparr>,
      ks_Scheduler = \<lparr>scheduler_Global = empty_global, scheduler_MonitorAddress = [], scheduler_CacheAddress = [], scheduler_ListenAddress = []\<rparr>,
      ks_Monitor = \<lparr>monitor_Global = empty_global, monitor_ListenAddress = [], monitor_ServePrometheusMetrics = False\<rparr>,
      ks_Cache = \<lparr>cache_Global = empty_global, cache_VolatileStorage = None, cache_LocalStorage = None, cache_RemoteStorage = None,
        cache_ListenAddress = [], cache_MonitorAddress = []\<rparr>,
      ks_Kcctl = \<lparr>kcctl_Global = \<lparr>gs_LogLevel = ''warn'', gs_LogFile = []\<rparr>, kcctl_MonitorAddress = MonitorAddress a,
        kcctl_SchedulerAddress = SchedulerAddress a, kcctl_DisableTLS = (\<not> TLSEnabled a)\<rparr>\<rparr>"

definition installConfig :: "'s world \<Rightarrow> nonInteractiveConfig \<Rightarrow> string \<Rightarrow> ('s machine, unit) action" where
  "installConfig w ni option =
     andThen (if ni_Enabled ni
              then give (Return \<lparr>LocalPort = ni_ConsumerdListenPort ni, SchedulerAddress = ni_SchedulerAddress ni,
                                 MonitorAddress = ni_MonitorAddress ni, TLSEnabled = ni_TLSEnabled ni\<rparr>)
              else prompt (w_Ask w)) (\<lambda>a.
     andThen (give (w_Marshal w (setup_spec a))) (\<lambda>data.
       case config_dir w option of
         None \<Rightarrow> give (Return ())
       | Some d \<Rightarrow> andThen (MkdirAll w d) (\<lambda>_. WriteFile w (Join [d, ''config.yaml'']) data)))"

definition checkConfig :: "'s world \<Rightarrow> nonInteractiveConfig \<Rightarrow> string \<Rightarrow> ('s machine, unit) action" where
  "checkConfig w ni option m = (if configExists w option m then (Return (), m) else installConfig w ni option m)"

section \<open>The service\<close>

definition catUnit :: "'s world \<Rightarrow> string \<Rightarrow> 's machine \<Rightarrow> string outcome" where
  "catUnit w option m =
     (case w_cat w option (m_files m) (m_systemd m) of
        Fail e \<Rightarrow> Fail e
      | Panic \<Rightarrow> Panic
      | Return stdout \<Rightarrow>
          (let output = Split (CHR 0x0A) stdout in
           if length output \<le> 2 then Fail (Error ''unexpected output'')
           else Return (TrimSpace (join_with nl (drop 1 output)))))"

definition writeUserService :: "'s world \<Rightarrow> string \<Rightarrow> ('s machine, unit) action" where
  "writeUserService w serviceContents =
     andThen (give (w_Expand w ''~/.config/systemd/user'')) (\<lambda>systemdUser.
     andThen (MkdirAll w systemdUser) (\<lambda>_. WriteFile w (Join [systemdUser, ''consumerd.service'']) serviceContents))"

definition writeSystemService :: "'s world \<Rightarrow> string \<Rightarrow> ('s machine, unit) action" where
  "writeSystemService w serviceContents = WriteFile w systemServiceFilepath serviceContents"

definition write_service :: "'s world \<Rightarrow> sd_mode \<Rightarrow> string \<Rightarrow> ('s machine, unit) action" where
  "write_service w mode = (case mode of SystemMode \<Rightarrow> writeSystemService w | UserMode \<Rightarrow> writeUserService w)"

fun mode_option :: "sd_mode \<Rightarrow> string" where
  "mode_option SystemMode = ''system''"
| "mode_option UserMode = ''user''"

definition updateService :: "'s world \<Rightarrow> sd_mode \<Rightarrow> string \<Rightarrow> ('s machine, unit) action" where
  "updateService w mode newContents =
     andThen (write_service w mode newContents) (\<lambda>_.
     andThen (systemd w mode DaemonReload) (\<lambda>_. systemd w mode (Restart consumerdUnit)))"

text \<open>A service that runs already is updated when its file differs; an error of reading it is ignored.\<close>

definition refresh_service :: "'s world \<Rightarrow> sd_mode \<Rightarrow> string \<Rightarrow> ('s machine, sd_mode) action" where
  "refresh_service w mode contents m =
     (if (case catUnit w (mode_option mode) m of Return existing \<Rightarrow> existing \<noteq> contents | _ \<Rightarrow> False)
      then andThen (updateService w mode contents) (\<lambda>_. give (Return mode)) m
      else (Return mode, m))"

definition installConsumerd :: "'s world \<Rightarrow> string \<Rightarrow> ('s machine, sd_mode) action" where
  "installConsumerd w binaryPath =
     (let serviceContents = TrimSpace (serviceTmpl binaryPath) in
      andThen (reading (is_active w SystemMode consumerdUnit)) (\<lambda>active.
      if active then refresh_service w SystemMode serviceContents
      else if w_Getuid w \<noteq> 0 then
        andThen (reading (is_active w UserMode consumerdUnit)) (\<lambda>user_active.
        if user_active then refresh_service w UserMode serviceContents
        else andThen (writeUserService w serviceContents) (\<lambda>_. give (Return UserMode)))
      else andThen (writeSystemService w serviceContents) (\<lambda>_. give (Return SystemMode))))"

definition startConsumerd :: "'s world \<Rightarrow> sd_mode \<Rightarrow> ('s machine, unit) action" where
  "startConsumerd w sd =
     andThen (systemd w sd DaemonReload) (\<lambda>_.
     andThen (systemd w sd (Start consumerdUnit)) (\<lambda>_. systemd w sd (Enable consumerdUnit)))"

definition restartConsumerd :: "'s world \<Rightarrow> sd_mode \<Rightarrow> ('s machine, unit) action" where
  "restartConsumerd w sd = andThen (systemd w sd DaemonReload) (\<lambda>_. systemd w sd (Restart consumerdUnit))"

text \<open>\<open>config.ConfigMapProvider.Load\<close> on the files of the machine; without a file the process exits.\<close>

definition config_view :: "'s world \<Rightarrow> 's machine \<Rightarrow> config_files" where
  "config_view w m =
     \<lparr>cf_ReadFile = (\<lambda>p. case ReadFile w p m of Return d \<Rightarrow> Some d | _ \<Rightarrow> None), cf_json = w_json w, cf_yaml = w_yaml w,
      cf_HomeDir = w_HomeDir w\<rparr>"

definition load_config :: "'s world \<Rightarrow> 's machine \<Rightarrow> KubeccSpec option" where
  "load_config w m = config_Load (\<lambda>p. exists_file w p m) (config_view w m)"

definition cli_Load :: "'s world \<Rightarrow> 's machine \<Rightarrow> KubeccSpec option" where
  "cli_Load w m = (if w_ConfigPath w = [] then load_config w m else Some (LoadFile (config_view w m) (w_ConfigPath w)))"

definition no_config :: go_error where
  "no_config = Error ''Could not find config file''"

definition InitCLI :: "'s world \<Rightarrow> ('s machine, unit) action" where
  "InitCLI w = reading (\<lambda>m. case cli_Load w m of Some _ \<Rightarrow> Return () | None \<Rightarrow> Fail no_config)"

definition connectToConsumerd :: "'s world \<Rightarrow> ('s machine, unit) action" where
  "connectToConsumerd w m =
     (case load_config w m of
        None \<Rightarrow> (Fail no_config, m)
      | Some conf \<Rightarrow> (w_Dial w (consumer_ConsumerdAddress (ks_Consumer conf)) (m_files m) (m_systemd m), m))"

section \<open>Links in the place of the compilers\<close>

fun make_links :: "'s world \<Rightarrow> string \<Rightarrow> string \<Rightarrow> string list \<Rightarrow> ('s machine, unit) action" where
  "make_links w binDir binaryPath [] = give (Return ())"
| "make_links w binDir binaryPath (name # names) =
     (let link = Join [binDir, name] in
      andThen (\<lambda>m. if exists_file w link m then Remove w link m else (Return (), m)) (\<lambda>_.
      andThen (Symlink w binaryPath link) (\<lambda>_. make_links w binDir binaryPath names)))"

text \<open>The loop tries ten times, but looks at the same answer of the daemon every time.\<close>

fun link_rounds :: "'s world \<Rightarrow> string \<Rightarrow> string \<Rightarrow> Toolchain list \<Rightarrow> nat \<Rightarrow> ('s machine, unit) action" where
  "link_rounds w binDir binaryPath items 0 = give (Return ())"
| "link_rounds w binDir binaryPath items (Suc n) =
     (if items = [] then link_rounds w binDir binaryPath items n
      else make_links w binDir binaryPath (concat (map CommonNames (filter (\<lambda>tc. tc_Kind tc \<noteq> Sleep) items))))"

definition setupToolchains :: "'s world \<Rightarrow> string \<Rightarrow> ('s machine, unit) action" where
  "setupToolchains w binaryPath =
     andThen (give (w_Expand w ''~/.kubecc/bin'')) (\<lambda>binDir.
     andThen (\<lambda>m. if exists_file w binDir m then RemoveAll w binDir m else (Return (), m)) (\<lambda>_.
     andThen (MkdirAll w binDir) (\<lambda>_.
     andThen (\<lambda>m. (w_GetToolchains w (m_systemd m), m)) (\<lambda>tcs.
       link_rounds w binDir binaryPath tcs 10))))"

section \<open>Environment files\<close>

definition alias_line :: "string \<Rightarrow> string \<Rightarrow> string" where
  "alias_line binDir name =
     ''alias '' @ name @ ''='' @ [CHR 0x27] @ ''PATH='' @ quoted (binDir @ ''${PATH:+:${PATH}}'') @ '' '' @ name @ [CHR 0x27]"

definition makeAliases :: "'s world \<Rightarrow> ('s machine, string list) action" where
  "makeAliases w =
     andThen (give (w_Expand w ''~/.kubecc/bin'')) (\<lambda>binDir.
     andThen (reading (ReadDir w binDir)) (\<lambda>found.
       give (Return (alias_line binDir ''make'' # map (alias_line binDir) (map fst (filter (\<lambda>f. \<not> snd f) found))))))"

definition doAppend :: "'s world \<Rightarrow> string \<Rightarrow> ('s machine, unit) action" where
  "doAppend w rc =
     andThen (give (w_Expand w rc)) (\<lambda>expanded.
     andThen (AppendFile w expanded nl) (\<lambda>_.
     andThen (AppendFile w expanded (''source '' @ quoted ''$HOME/.kubecc/env'')) (\<lambda>_. AppendFile w expanded nl)))"

definition ErrShellUnsupported :: go_error where
  "ErrShellUnsupported = Error ''Sorry, your shell is not supported yet.''"

definition rcPath :: "string \<Rightarrow> string outcome" where
  "rcPath shell =
     (if Base shell = ''bash'' then Return ''~/.bashrc''
      else if Base shell = ''zsh'' then Return ''~/.zshrc''
      else if Base shell = ''ash'' then Return ''~/.ashrc'' else Fail ErrShellUnsupported)"

definition appendToShellRC :: "'s world \<Rightarrow> ('s machine, unit) action" where
  "appendToShellRC w = andThen (give (w_Shell w)) (\<lambda>shell. andThen (give (rcPath shell)) (doAppend w))"

text \<open>\<open>strings.Replace(s, old, new, 1)\<close>, \<open>strings.ReplaceAll\<close> of a line break, and \<open>strings.NewReplacer\<close>:
  at each position the first pair whose old string is found there is taken.\<close>

fun replace_first :: "string \<Rightarrow> string \<Rightarrow> string \<Rightarrow> string" where
  "replace_first old new [] = (if old = [] then new else [])"
| "replace_first old new (c # s) =
     (if HasPrefix (c # s) old then new @ drop (length old) (c # s) else c # replace_first old new s)"

definition indent :: "string \<Rightarrow> string" where
  "indent str = ''  '' @ concat (map (\<lambda>c. if c = CHR 0x0A then nl @ ''  '' else [c]) (TrimSpace str))"

function replacer :: "(string \<times> string) list \<Rightarrow> string \<Rightarrow> string" where
  "replacer pairs [] = []"
| "replacer pairs (c # s) =
     (case find (\<lambda>(old, _). old \<noteq> [] \<and> HasPrefix (c # s) old) pairs of
        Some (old, new) \<Rightarrow> new @ (if old = [] then replacer pairs s else replacer pairs (drop (length old) (c # s)))
      | None \<Rightarrow> c # replacer pairs s)"
  by pat_completeness auto

termination replacer
  by (relation "measure (\<lambda>(_, s). length s)") auto

definition unalias :: "string \<Rightarrow> string" where
  "unalias alias = hd (Split (CHR ''='') (replace_first ''alias'' ''unalias'' alias))"

definition dot_env :: "string \<Rightarrow> string list \<Rightarrow> string \<Rightarrow> string" where
  "dot_env binPath aliases kubeccHome =
     replacer [(''{bin}'', binPath), (''{aliases}'', indent (join_with nl aliases)),
       (''{unaliases}'', indent (join_with nl (map unalias aliases))), (''{home}'', kubeccHome)] dotEnvTmpl"

text \<open>The first part of \<open>setupEnv\<close> writes the files, the loop asks until a new shell sources them, the user
  gives up, or the line was appended.\<close>

definition write_env :: "'s world \<Rightarrow> string \<Rightarrow> ('s machine, unit) action" where
  "write_env w binPath =
     andThen (give (w_Expand w ''~/.kubecc'')) (\<lambda>kubeccHome.
     andThen (give (w_Expand w ''~/.kubecc/env'')) (\<lambda>envPath.
     andThen (give (w_Expand w ''~/.kubecc/.env'')) (\<lambda>dotEnvPath.
     andThen (makeAliases w) (\<lambda>aliases.
     andThen (WriteFile w dotEnvPath (dot_env binPath aliases kubeccHome)) (\<lambda>_.
       WriteFile w envPath (envEnabled kubeccHome))))))"

definition ask_source :: "'s world \<Rightarrow> nonInteractiveConfig \<Rightarrow> ('s machine, string) action" where
  "ask_source w ni =
     (if ni_Enabled ni then give (Return (if ni_ShellRCConfig ni then ''Do this for me'' else ''Skip this step''))
      else prompt (\<lambda>n. w_AskOne w n ''Please add the line to your shell's RC file, then select Retry to check again''))"

definition ask_append :: "'s world \<Rightarrow> nonInteractiveConfig \<Rightarrow> ('s machine, bool) action" where
  "ask_append w ni =
     (if ni_Enabled ni then give (Return True)
      else prompt (\<lambda>n. w_Confirm w n ''This will attempt to append the necessary line to your shell RC file. Continue?''))"

partial_function (option) source_loop ::
    "'s world \<Rightarrow> nonInteractiveConfig \<Rightarrow> string \<Rightarrow> 's machine \<Rightarrow> (unit outcome \<times> 's machine) option" where
  "source_loop w ni binPath m =
     (case andThen (give (w_Shell w)) (\<lambda>shell. reading (\<lambda>m. w_echo w shell (m_files m))) m of
        (Fail e, m1) \<Rightarrow> Some (Fail e, m1)
      | (Panic, m1) \<Rightarrow> Some (Panic, m1)
      | (Return out, m1) \<Rightarrow>
          if TrimSpace out = binPath then Some (Return (), m1)
          else
            (case ask_source w ni m1 of
               (Fail e, m2) \<Rightarrow> Some (Fail e, m2)
             | (Panic, m2) \<Rightarrow> Some (Panic, m2)
             | (Return response, m2) \<Rightarrow>
                 if response = ''Skip this step'' then Some (Return (), m2)
                 else if response = ''Do this for me'' then
                   (case ask_append w ni m2 of
                      (Fail e, m3) \<Rightarrow> Some (Fail e, m3)
                    | (Panic, m3) \<Rightarrow> Some (Panic, m3)
                    | (Return confirm, m3) \<Rightarrow>
                        if confirm then
                          (case appendToShellRC w m3 of (Panic, m4) \<Rightarrow> Some (Panic, m4) | (_, m4) \<Rightarrow> Some (Return (), m4))
                        else source_loop w ni binPath m3)
                 else source_loop w ni binPath m2))"

declare choose_dir.simps [code] source_loop.simps [code]

definition setupEnv :: "'s world \<Rightarrow> nonInteractiveConfig \<Rightarrow> string \<Rightarrow> 's machine \<Rightarrow> (unit outcome \<times> 's machine) option" where
  "setupEnv w ni binPath m =
     (case write_env w binPath m of
        (Return _, m1) \<Rightarrow> source_loop w ni binPath m1
      | (Fail e, m1) \<Rightarrow> Some (Fail e, m1)
      | (Panic, m1) \<Rightarrow> Some (Panic, m1))"

section \<open>The commands\<close>

definition checkNonInteractiveConfig :: "'s world \<Rightarrow> nonInteractiveConfig \<Rightarrow> nonInteractiveConfig" where
  "checkNonInteractiveConfig w ni =
     (case (w_LookupEnv w ''KUBECC_SETUP_SCHEDULER_ADDRESS'', w_LookupEnv w ''KUBECC_SETUP_MONITOR_ADDRESS'') of
        (Some sch, Some mon) \<Rightarrow>
          ni\<lparr>ni_Enabled := True, ni_SchedulerAddress := sch, ni_MonitorAddress := mon,
             ni_InstallDir := (case w_LookupEnv w ''KUBECC_SETUP_INSTALL_DIR'' of Some dir \<Rightarrow> dir | None \<Rightarrow> ni_InstallDir ni),
             ni_ConsumerdListenPort :=
               (case w_LookupEnv w ''KUBECC_SETUP_CONSUMERD_LISTEN_PORT'' of Some port \<Rightarrow> port | None \<Rightarrow> ni_ConsumerdListenPort ni),
             ni_TLSEnabled := (if w_LookupEnv w ''KUBECC_SETUP_TLS_ENABLED'' = Some ''true'' then True else ni_TLSEnabled ni),
             ni_ShellRCConfig := (if w_LookupEnv w ''KUBECC_SETUP_SHELL_RC_CONFIG'' = Some ''false'' then False else ni_ShellRCConfig ni)\<rparr>
      | _ \<Rightarrow> ni)"

text \<open>How a command ends; \<open>None\<close> stands for a command that does not end.\<close>

datatype exit = Done | Exit nat | Crash

fun exit_of :: "'a outcome \<Rightarrow> exit" where
  "exit_of (Return _) = Done"
| "exit_of (Fail _) = Exit 1"
| "exit_of Panic = Crash"

definition finish :: "(unit outcome \<times> 's machine) option \<Rightarrow> (exit \<times> 's machine) option" where
  "finish r = map_option (\<lambda>(o', m). (exit_of o', m)) r"

text \<open>The service, the restart after an update, the configuration, and the start.\<close>

definition setup_service :: "'s world \<Rightarrow> nonInteractiveConfig \<Rightarrow> string \<times> installResult \<Rightarrow> ('s machine, unit) action" where
  "setup_service w ni bin =
     andThen (installConsumerd w (fst bin)) (\<lambda>sd.
     andThen (if snd bin = Updated then restartConsumerd w sd else give (Return ())) (\<lambda>_.
     andThen (checkConfig w ni (mode_option sd)) (\<lambda>_.
     andThen (InitCLI w) (\<lambda>_ m.
       if is_active w sd consumerdUnit m = Return False then startConsumerd w sd m else (Return (), m)))))"

definition setup_run :: "'s world \<Rightarrow> nonInteractiveConfig \<Rightarrow> bool \<Rightarrow> 's machine \<Rightarrow> (exit \<times> 's machine) option" where
  "setup_run w ni0 sudo m =
     (let ni = checkNonInteractiveConfig w ni0 in
      case installOrUpdateBinary w ni sudo m of
        None \<Rightarrow> None
      | Some (r, m1) \<Rightarrow>
          (case andThen (give r) (\<lambda>bin. andThen (setup_service w ni bin) (\<lambda>_.
                  if sudo then give (Return (fst bin))
                  else andThen (connectToConsumerd w) (\<lambda>_. andThen (setupToolchains w (fst bin)) (\<lambda>_. give (Return (fst bin)))))) m1 of
             (Return bin, m2) \<Rightarrow> if sudo then Some (Done, m2) else finish (setupEnv w ni bin m2)
           | (Fail e, m2) \<Rightarrow> Some (Exit 1, m2)
           | (Panic, m2) \<Rightarrow> Some (Crash, m2)))"

text \<open>\<open>sudoUidGid\<close>, and a command with \<open>sudoPreRun\<close> and \<open>sudoPostRun\<close>: as root and, if it did not exit, once
  more as the user; \<open>user\<close> is the world after the change of the user.\<close>

definition sudoUidGid :: "'w os_world_scheme \<Rightarrow> int \<times> int \<times> bool" where
  "sudoUidGid w =
     (case w_LookupEnv w ''SUDO_UID'' of
        None \<Rightarrow> (0, 0, False)
      | Some us \<Rightarrow>
          (case ParseInt us of
             None \<Rightarrow> (0, 0, False)
           | Some uid \<Rightarrow>
               (case w_LookupEnv w ''SUDO_GID'' of
                  None \<Rightarrow> (uid, 0, False)
                | Some gs \<Rightarrow> (case ParseInt gs of None \<Rightarrow> (uid, 0, False) | Some gid \<Rightarrow> (uid, gid, True)))))"

definition with_sudo ::
    "('s world \<Rightarrow> bool \<Rightarrow> 's machine \<Rightarrow> (exit \<times> 's machine) option) \<Rightarrow> 's world \<Rightarrow> 's world outcome \<Rightarrow> 's machine \<Rightarrow> (exit \<times> 's machine) option" where
  "with_sudo run w user m =
     (let sudo = snd (snd (sudoUidGid w)) in
      case run w sudo m of
        Some (Done, m1) \<Rightarrow>
          if sudo then (case user of Return w' \<Rightarrow> run w' False m1 | _ \<Rightarrow> Some (Crash, m1)) else Some (Done, m1)
      | r \<Rightarrow> r)"

definition SetupCmd :: "'s world \<Rightarrow> 's world outcome \<Rightarrow> 's machine \<Rightarrow> (exit \<times> 's machine) option" where
  "SetupCmd = with_sudo (\<lambda>w. setup_run w default_nonInteractive)"

definition writeEnvFileOrDie :: "'s world \<Rightarrow> string \<Rightarrow> ('s machine, unit) action" where
  "writeEnvFileOrDie w contents =
     (case w_LookupEnv w ''KUBECC_HOME'' of
        None \<Rightarrow> give (Fail (Error ''Kubecc is not configured.''))
      | Some value \<Rightarrow> WriteFile w (Join [value, ''env'']) contents)"

definition EnableCmd :: "'s world \<Rightarrow> ('s machine, unit) action" where
  "EnableCmd w = andThen (InitCLI w) (\<lambda>_. andThen (give (w_Expand w ''~/.kubecc'')) (\<lambda>kubeccHome. writeEnvFileOrDie w (envEnabled kubeccHome)))"

definition DisableCmd :: "'s world \<Rightarrow> ('s machine, unit) action" where
  "DisableCmd w = andThen (InitCLI w) (\<lambda>_. andThen (give (w_Expand w ''~/.kubecc'')) (\<lambda>kubeccHome. writeEnvFileOrDie w (envDisabled kubeccHome)))"

section \<open>Lemmas\<close>

text \<open>What the home directory library documents: a leading tilde stands for the home directory.\<close>

definition expands_home :: "'s world \<Rightarrow> string \<Rightarrow> bool" where
  "expands_home w home \<longleftrightarrow> abs_dir home \<and>
     (\<forall>ws. ws \<noteq> [] \<longrightarrow> (\<forall>v\<in>set ws. plain_name v) \<longrightarrow> w_Expand w (''~'' @ slashed ws) = Return (home @ slashed ws))"

lemma plain_names [simp]: "plain_name ''.kubecc''" "plain_name ''bin''" "plain_name ''env''" "plain_name ''.env''"
  by (simp_all add: plain_name_def)

lemma expand_kubecc:
  assumes "expands_home w home"
  shows "w_Expand w ''~/.kubecc'' = Return (home @ ''/.kubecc'')" "w_Expand w ''~/.kubecc/bin'' = Return (home @ ''/.kubecc/bin'')"
    "w_Expand w ''~/.kubecc/env'' = Return (home @ ''/.kubecc/env'')" "w_Expand w ''~/.kubecc/.env'' = Return (home @ ''/.kubecc/.env'')"
proof -
  have "w_Expand w (''~'' @ slashed ws) = Return (home @ slashed ws)" if "ws \<noteq> []" "\<forall>v\<in>set ws. plain_name v" for ws
    using assms that unfolding expands_home_def by blast
  from this [of "[''.kubecc'']"] this [of "[''.kubecc'', ''bin'']"] this [of "[''.kubecc'', ''env'']"] this [of "[''.kubecc'', ''.env'']"]
  show "w_Expand w ''~/.kubecc'' = Return (home @ ''/.kubecc'')" "w_Expand w ''~/.kubecc/bin'' = Return (home @ ''/.kubecc/bin'')"
    "w_Expand w ''~/.kubecc/env'' = Return (home @ ''/.kubecc/env'')" "w_Expand w ''~/.kubecc/.env'' = Return (home @ ''/.kubecc/.env'')"
    by (simp_all add: slashed_def)
qed

lemma kubecc_dirs:
  assumes "abs_dir home"
  shows "abs_dir (home @ ''/.kubecc'')" "abs_dir (home @ ''/.kubecc/bin'')" "abs_dir (home @ ''/.kubecc/env'')" "abs_dir (home @ ''/.kubecc/.env'')"
proof -
  show k: "abs_dir (home @ ''/.kubecc'')" using abs_dir_child [OF assms plain_names(1)] by simp
  from abs_dir_child [OF k plain_names(2)] abs_dir_child [OF k plain_names(3)] abs_dir_child [OF k plain_names(4)]
  show "abs_dir (home @ ''/.kubecc/bin'')" "abs_dir (home @ ''/.kubecc/env'')" "abs_dir (home @ ''/.kubecc/.env'')" by simp_all
qed

text \<open>The links: exactly the given names lead to the binary afterwards.\<close>

lemma changing_ReturnE:
  assumes "changing f m = (Return u, m')"
  obtains fs where "f (m_files m) = Return fs" "m' = m\<lparr>m_files := fs\<rparr>"
  using assms by (auto simp: changing_def split: outcome.splits)

lemma make_links_nodes:
  assumes "make_links w d bin names m = (Return u, m')" and "abs_dir d" and "\<forall>n\<in>set names. plain_name n"
  shows "node_at (m_files m') q = (if q \<in> (\<lambda>n. d @ CHR ''/'' # n) ` set names then Some (Link_Node bin) else node_at (m_files m) q)
    \<and> m_systemd m' = m_systemd m"
  using assms
proof (induction names arbitrary: m)
  case Nil
  then show ?case by (auto dest: give_ReturnE)
next
  case (Cons n names)
  let ?link = "d @ CHR ''/'' # n"
  have l: "Join [d, n] = ?link" "abs_path w ?link = ?link" using Cons.prems Join_child [of d n] abs_path_abs [OF abs_dir_child [of d n]] by auto
  from Cons.prems(1) obtain m1 m2 where
    r: "(if exists_file w ?link m then Remove w ?link m else (Return (), m)) = (Return (), m1)"
    and s: "Symlink w bin ?link m1 = (Return (), m2)" and rest: "make_links w d bin names m2 = (Return u, m')"
    by (auto simp: l Let_def elim!: andThen_ReturnE)
  have n1: "node_at (m_files m1) = (node_at (m_files m))(?link := None) \<or> m1 = m" and y1: "m_systemd m1 = m_systemd m"
    using r by (auto simp: Remove_def l split: if_splits elim!: changing_ReturnE dest!: remove_entry_nodes)
  have n2: "node_at (m_files m2) = (node_at (m_files m1))(?link \<mapsto> Link_Node bin)" and y2: "m_systemd m2 = m_systemd m1"
    using s by (auto simp: Symlink_def l elim!: changing_ReturnE dest!: create_entry_nodes(1))
  from Cons.IH [OF rest Cons.prems(2)] Cons.prems(3) n1 n2 y1 y2 show ?case by auto
qed

definition link_names :: "Toolchain list \<Rightarrow> string list" where
  "link_names tcs = concat (map CommonNames (filter (\<lambda>tc. tc_Kind tc \<noteq> Sleep) tcs))"

lemma link_names_ok: "\<forall>n\<in>set (link_names tcs). plain_name n \<and> n \<in> set ConsumerNames"
  unfolding link_names_def using common_names by auto

lemma link_rounds_eq:
  "link_rounds w d bin tcs (Suc k) = (if tcs = [] then give (Return ()) else make_links w d bin (link_names tcs))"
  by (induction k) (auto simp: link_names_def)

lemma setupToolchains_steps:
  assumes "setupToolchains w bin m = (Return u, m')" and "w_Expand w ''~/.kubecc/bin'' = Return d" and "abs_dir d"
  obtains m1 m2 tcs where "m_systemd m' = m_systemd m"
    "(if exists_file w d m then RemoveAll w d m else (Return (), m)) = (Return (), m1)" "MkdirAll w d m1 = (Return (), m2)"
    "w_GetToolchains w (m_systemd m) = Return tcs"
    "\<And>q. node_at (m_files m') q = (if q \<in> (\<lambda>n. d @ CHR ''/'' # n) ` set (link_names tcs) then Some (Link_Node bin) else node_at (m_files m2) q)"
proof -
  from assms(1,2) obtain m1 m2 tcs where
    r: "(if exists_file w d m then RemoveAll w d m else (Return (), m)) = (Return (), m1)"
    and mk: "MkdirAll w d m1 = (Return (), m2)" and g: "w_GetToolchains w (m_systemd m2) = Return tcs"
    and l: "link_rounds w d bin tcs 10 m2 = (Return u, m')"
    by (auto simp: setupToolchains_def elim!: andThen_ReturnE dest!: give_ReturnE)
  have "m_systemd m1 = m_systemd m" "m_systemd m2 = m_systemd m1"
    using r mk by (auto simp: RemoveAll_def MkdirAll_def split: if_splits prod.splits)
  moreover have "node_at (m_files m') q = (if q \<in> (\<lambda>n. d @ CHR ''/'' # n) ` set (link_names tcs) then Some (Link_Node bin) else node_at (m_files m2) q) \<and>
      m_systemd m' = m_systemd m2" for q
  proof (cases "tcs = []")
    case True
    then show ?thesis using l link_rounds_eq [of w d bin tcs 9] by (auto simp: link_names_def dest!: give_ReturnE)
  next
    case False
    then have "make_links w d bin (link_names tcs) m2 = (Return u, m')" using l link_rounds_eq [of w d bin tcs 9] by simp
    from make_links_nodes [OF this assms(3), of q] link_names_ok show ?thesis by blast
  qed
  ultimately show thesis using that r mk g by simp
qed

lemma setupToolchains_made:
  assumes "setupToolchains w bin m = (Return u, m')" and "w_Expand w ''~/.kubecc/bin'' = Return d" and "abs_dir d"
  shows "m_systemd m' = m_systemd m \<and> (\<exists>tcs. w_GetToolchains w (m_systemd m) = Return tcs \<and>
    (\<forall>n\<in>set (link_names tcs). node_at (m_files m') (d @ CHR ''/'' # n) = Some (Link_Node bin)))"
proof (rule setupToolchains_steps [OF assms], goal_cases)
  case (1 m1 m2 tcs)
  then show ?thesis by simp
qed

lemma setupToolchains_links:
  assumes "setupToolchains w bin m = (Return u, m')" and "w_Expand w ''~/.kubecc/bin'' = Return d" and "abs_dir d"
    and "wf_files (m_files m)" and "plain_name n"
  obtains tcs where "w_GetToolchains w (m_systemd m) = Return tcs"
    "node_at (m_files m') (d @ ''/'' @ n) = (if n \<in> set (link_names tcs) then Some (Link_Node bin) else None)"
proof -
  let ?q = "d @ ''/'' @ n"
  obtain m1 m2 tcs where
    r: "(if exists_file w d m then RemoveAll w d m else (Return (), m)) = (Return (), m1)" and mk: "MkdirAll w d m1 = (Return (), m2)"
    and g: "w_GetToolchains w (m_systemd m) = Return tcs"
    and l: "node_at (m_files m') ?q = (if ?q \<in> (\<lambda>n. d @ CHR ''/'' # n) ` set (link_names tcs) then Some (Link_Node bin) else node_at (m_files m2) ?q)"
    using setupToolchains_steps [OF assms(1-3)] by metis
  have q: "?q \<noteq> ''/''" using abs_dir_IsAbs [OF abs_dir_child [OF assms(3,5)]] by simp
  have n1: "node_at (m_files m1) ?q = None"
  proof (cases "exists_file w d m")
    case True
    with r have "remove_tree (w_denied w) d (m_files m) = (Return (), m_files m1)"
      by (auto simp: RemoveAll_def assms(3) split: prod.splits)
    from remove_tree_gone [OF this _ below_child(1) q] show ?thesis using exists_file_there [OF True] assms(3) by simp
  next
    case False
    then have "node_at (m_files m) d \<noteq> Some Dir_Node" using assms(3) by (auto simp: exists_file_def Stat_def stat_node_def)
    then have "node_at (m_files m) ?q = None" using wf_files_child [OF assms(4,3,5)] by blast
    then show ?thesis using False r by simp
  qed
  from mk have md: "make_dirs (w_denied w) (ancestors d) (m_files m1) = (Return (), m_files m2)"
    by (auto simp: MkdirAll_def assms(3) split: prod.splits)
  have "?q \<notin> set (ancestors d)" using ancestors_length [OF assms(3), of ?q] by auto
  with make_dirs_nodes [OF md, of ?q] n1 have "node_at (m_files m2) ?q = None" by auto
  moreover have "?q \<in> (\<lambda>n. d @ CHR ''/'' # n) ` set (link_names tcs) \<longleftrightarrow> n \<in> set (link_names tcs)" by auto
  ultimately have "node_at (m_files m') ?q = (if n \<in> set (link_names tcs) then Some (Link_Node bin) else None)" using l by (simp only:)
  then show thesis using that g by blast
qed

text \<open>The environment files: \<open>env\<close> is as written, and what follows appends at most.\<close>

lemma keeps_prompt [keeps_intro]: "keeps_links (prompt f)"
  by (simp add: keeps_links_def prompt_def)

lemma keeps_makeAliases [keeps_intro]: "keeps_links (makeAliases w)"
  unfolding makeAliases_def by (intro keeps_intro)

lemma write_env_env:
  assumes "write_env w bin m = (Return u, m')" and "expands_home w home"
  shows "ReadFile w (home @ ''/.kubecc/env'') m' = Return (envEnabled (home @ ''/.kubecc''))"
    and "node_at (m_files m) q = Some (Link_Node t) \<Longrightarrow> node_at (m_files m') q = Some (Link_Node t)" and "m_systemd m' = m_systemd m"
proof -
  have "\<exists>m1. WriteFile w (home @ ''/.kubecc/env'') (envEnabled (home @ ''/.kubecc'')) m1 = (Return u, m')"
    using assms(1) by (auto simp: write_env_def expand_kubecc [OF assms(2)] elim!: andThen_ReturnE dest!: give_ReturnE)
  then show "ReadFile w (home @ ''/.kubecc/env'') m' = Return (envEnabled (home @ ''/.kubecc''))" using WriteFile_read by blast
  have "keeps_links (write_env w bin)" unfolding write_env_def by (intro keeps_intro)
  then show "node_at (m_files m) q = Some (Link_Node t) \<Longrightarrow> node_at (m_files m') q = Some (Link_Node t)"
    using keeps_linksD assms(1) by blast
  show "m_systemd m' = m_systemd m" using keeps_systemd \<open>keeps_links (write_env w bin)\<close> assms(1) by blast
qed

lemma andThen_extends:
  assumes "andThen f g m = (r, m')" and "\<And>r m'. f m = (r, m') \<Longrightarrow> extends w m m'" and "\<And>x m1 r m'. g x m1 = (r, m') \<Longrightarrow> extends w m1 m'"
  shows "extends w m m'"
  using assms extends_trans by (fastforce simp: andThen_def split: prod.splits outcome.splits)

lemma appendToShellRC_extends: "appendToShellRC w m = (r, m') \<Longrightarrow> extends w m m'"
  unfolding appendToShellRC_def doAppend_def
  by (erule andThen_extends, simp add: give_def)+ (auto simp: give_def intro: AppendFile_extends elim!: andThen_extends)

lemma prompt_extends: "prompt f m = (r, m') \<Longrightarrow> extends w m m'"
  by (auto simp: prompt_def)

lemma ask_extends: "ask_source w ni m = (r, m') \<Longrightarrow> extends w m m'" "ask_append w ni m = (r', m') \<Longrightarrow> extends w m m'"
  by (auto simp: ask_source_def ask_append_def give_def intro: prompt_extends split: if_splits)

lemma source_loop_extends:
  assumes "source_loop w ni bin m = Some y"
  shows "extends w m (snd y)"
proof (rule source_loop.raw_induct [where P = "\<lambda>w ni bin m y. extends w m (snd y)", OF _ assms], goal_cases)
  case (1 loop w ni bin m y)
  obtain r m1 where out: "andThen (give (w_Shell w)) (\<lambda>shell. reading (\<lambda>m. w_echo w shell (m_files m))) m = (r, m1)" by fastforce
  then have m1: "m1 = m" by (auto simp: andThen_def give_def reading_def split: outcome.splits)
  obtain a m2 where a: "ask_source w ni m = (a, m2)" by fastforce
  obtain c m3 where c: "ask_append w ni m2 = (c, m3)" by fastforce
  obtain x m4 where x: "appendToShellRC w m3 = (x, m4)" by fastforce
  have e: "extends w m m2" "extends w m m3" "extends w m m4"
    using ask_extends(1) [OF a] ask_extends(2) [OF c] appendToShellRC_extends [OF x] extends_trans by metis+
  have step: "loop w ni bin m2 = Some y \<Longrightarrow> extends w m (snd y)" "loop w ni bin m3 = Some y \<Longrightarrow> extends w m (snd y)"
    using 1(1) e extends_trans by metis+
  show ?case using 1(2) e step unfolding out m1 prod.case a c x by (auto split: outcome.splits if_splits)
qed

lemma setup_run_steps:
  assumes "setup_run w ni False m = Some (Done, m')"
  obtains bin m1 m2 m3 r where "setupToolchains w bin m1 = (Return (), m2)" "write_env w bin m2 = (Return (), m3)"
    "source_loop w (checkNonInteractiveConfig w ni) bin m3 = Some (r, m')"
proof -
  let ?ni = "checkNonInteractiveConfig w ni"
  obtain r0 m0 where i: "installOrUpdateBinary w ?ni False m = Some (r0, m0)"
    using assms by (cases "installOrUpdateBinary w ?ni False m") (auto simp: setup_run_def)
  define rest where "rest = andThen (give r0) (\<lambda>bin. andThen (setup_service w ?ni bin) (\<lambda>_.
    andThen (connectToConsumerd w) (\<lambda>_. andThen (setupToolchains w (fst bin)) (\<lambda>_. give (Return (fst bin))))))"
  obtain x m2 where x: "rest m0 = (x, m2)" by fastforce
  from assms have s: "(case x of Return bin \<Rightarrow> finish (setupEnv w ?ni bin m2) | Fail e \<Rightarrow> Some (Exit 1, m2) | Panic \<Rightarrow> Some (Crash, m2)) = Some (Done, m')"
    by (cases x) (simp_all add: setup_run_def i rest_def [symmetric] x)
  then obtain bin where bin: "x = Return bin" by (cases x) auto
  with s have f: "finish (setupEnv w ?ni bin m2) = Some (Done, m')" by simp
  from x bin obtain m1 where t: "setupToolchains w bin m1 = (Return (), m2)"
    unfolding rest_def by (auto elim!: andThen_ReturnE dest!: give_ReturnE)
  obtain y m3 where y: "write_env w bin m2 = (y, m3)" by fastforce
  with f have "y = Return ()" by (cases y) (auto simp: finish_def setupEnv_def)
  with f y that t show thesis by (auto simp: finish_def setupEnv_def)
qed

section \<open>Samples\<close>

text \<open>A machine with the binary on the search path, the daemon running, and one compiler of each kind.\<close>

definition sample_answers :: answers where
  "sample_answers = \<lparr>LocalPort = ''10991'', SchedulerAddress = ''s:1'', MonitorAddress = ''m:1'', TLSEnabled = True\<rparr>"

definition sample_expand :: "string \<Rightarrow> string outcome" where
  "sample_expand p = Return (case p of [] \<Rightarrow> [] | c # rest \<Rightarrow> if c = CHR ''~'' then ''/h'' @ rest else p)"

definition sample_world :: "(string \<Rightarrow> string option) \<Rightarrow> bool world" where
  "sample_world env =
     \<lparr>w_Getwd = ''/w'', w_LookupEnv = env, w_denied = (\<lambda>_. False), w_Executable = Return ''/usr/bin/kubecc'', w_md5 = id, w_Getuid = 1,
      w_Expand = sample_expand, w_HomeDir = ''/h'', w_AskOne = (\<lambda>_ _. Return ''Skip this step''), w_Confirm = (\<lambda>_ _. Return False),
      w_Ask = (\<lambda>_. Return sample_answers), w_IsActive = (\<lambda>mode _ _ s. Return (mode = UserMode \<and> s)),
      w_systemctl = (\<lambda>mode c _ s. (Return (), if c = Start consumerdUnit then True else s)), w_cat = (\<lambda>_ _ _. Fail ErrNotExist),
      w_Marshal = (\<lambda>spec. if spec = setup_spec sample_answers then Return ''yaml'' else Fail ErrNotExist),
      w_yaml = (\<lambda>_. setup_spec sample_answers), w_json = (\<lambda>_. setup_spec sample_answers), w_ConfigPath = [],
      w_Dial = (\<lambda>_ _ _. Return ()),
      w_GetToolchains = (\<lambda>_. Return [gcc ''/bin/gcc'', (gcc ''/bin/clang'')\<lparr>tc_Kind := Clang\<rparr>, (gcc ''/bin/kubecc'')\<lparr>tc_Kind := Sleep\<rparr>]),
      w_Shell = Return ''/bin/bash'', w_echo = (\<lambda>_ _. Return [])\<rparr>"

definition sample_machine :: "bool machine" where
  "sample_machine =
     \<lparr>m_files = [(''/usr'', Dir_Node), (''/usr/bin'', Dir_Node), (''/usr/bin/kubecc'', File_Node ''ELF'' True), (''/h'', Dir_Node), (''/h/.local'', Dir_Node),
        (''/h/.local/bin'', Dir_Node), (''/w'', Dir_Node)], m_systemd = False, m_prompts = 0\<rparr>"

definition sample_env :: "string \<Rightarrow> string option" where
  "sample_env v = (if v = ''PATH'' then Some ''/usr/bin'' else None)"

lemma sample_home: "expands_home (sample_world env) ''/h''"
proof -
  have "abs_dir ''/h''" unfolding abs_dir_def by (rule exI [of _ "[''h'']"]) (simp add: slashed_def plain_name_def)
  moreover have "w_Expand (sample_world env) (''~'' @ p) = Return (''/h'' @ p)" for p by (simp add: sample_world_def sample_expand_def)
  ultimately show ?thesis by (simp add: expands_home_def)
qed

end
