(* ===== verification/SetupProps.thy ===== *)
theory SetupProps
  imports Setup
begin

text \<open>
  Properties of the command \<open>setup\<close>: the links it leaves in the place of the compilers, the configuration
  that the components load after it, and the installation that fails.
\<close>

section \<open>Properties\<close>


lemma HasSuffix_last: "HasSuffix s suf \<Longrightarrow> suf \<noteq> [] \<Longrightarrow> last s = last suf"
  by (metis HasSuffix_def append_take_drop_id last_appendR)

lemma Join_last: "plain_name n \<Longrightarrow> last (Join [d, n]) = last n"
  using Base_Join [of n "[d]"] by (cases "d = []") (auto simp: Join_def Clean_def Let_def plain_name_def Split_snoc Split_no_sep clean_stack_snoc join_with_snoc)

lemma sample_setup_done: "\<exists>m'. setup_run (sample_world sample_env) default_nonInteractive False sample_machine = Some (Done, m')"
proof -
  have "(case setup_run (sample_world sample_env) default_nonInteractive False sample_machine of Some (Done, m') \<Rightarrow> True | _ \<Rightarrow> False)"
    by code_simp
  then show ?thesis by (auto split: option.splits prod.splits exit.splits)
qed


text \<open>C33: the daemon runs with the configuration that was asked for. When the configuration of a user was
  written, what decoding gives for it is what was encoded, and there is no configuration for the
  whole system, every component loads the specification made of the answers, so the consumer calls
  the address at which the daemon listens, on the port that was chosen.\<close>

theorem setup_config_loaded:
  assumes "installConfig w ni ''user'' m = (Return u, m')"
    and codec: "\<And>spec data. w_Marshal w spec = Return data \<Longrightarrow> w_yaml w data = spec"
    and none: "\<not> list_ex (\<lambda>f. exists_file w (Join [''/etc/kubecc'', f]) m') configFilenames"
  shows "\<exists>a conf. load_config w m' = Some conf \<and> conf = ApplyGlobals (setup_spec a) \<and>
    (ni_Enabled ni \<longrightarrow> LocalPort a = ni_ConsumerdListenPort ni) \<and>
    consumer_ConsumerdAddress (ks_Consumer conf) = ''127.0.0.1:'' @ LocalPort a \<and>
    consumerd_ListenAddress (ks_Consumerd conf) = consumer_ConsumerdAddress (ks_Consumer conf) \<and>
    consumerd_SchedulerAddress (ks_Consumerd conf) = kcctl_SchedulerAddress (ks_Kcctl conf)"
proof -
  let ?d = "Join [w_HomeDir w, ''.kubecc'']" and ?p = "Join [Join [w_HomeDir w, ''.kubecc''], ''config.yaml'']"
  from assms(1) obtain a data m1 where a: "ni_Enabled ni \<longrightarrow> LocalPort a = ni_ConsumerdListenPort ni"
    and d: "w_Marshal w (setup_spec a) = Return data" and wr: "WriteFile w ?p data m1 = (Return u, m')"
  proof -
    from assms(1) obtain a m0 m1 data where
      x: "(if ni_Enabled ni then give (Return \<lparr>LocalPort = ni_ConsumerdListenPort ni, SchedulerAddress = ni_SchedulerAddress ni,
            MonitorAddress = ni_MonitorAddress ni, TLSEnabled = ni_TLSEnabled ni\<rparr>) else prompt (w_Ask w)) m = (Return a, m0)"
      and y: "w_Marshal w (setup_spec a) = Return data" "WriteFile w ?p data m1 = (Return u, m')"
      unfolding installConfig_def config_dir_def by (auto elim!: andThen_ReturnE dest!: give_ReturnE)
    from x have "ni_Enabled ni \<longrightarrow> LocalPort a = ni_ConsumerdListenPort ni" by (auto dest!: give_ReturnE)
    then show thesis using that y by blast
  qed
  have rd: "ReadFile w ?p m' = Return data" using WriteFile_read [OF wr] .
  then have ex: "exists_file w ?p m'" by (auto simp: ReadFile_def exists_file_def split: outcome.splits)
  have c: "config_candidates (config_view w m') = map (\<lambda>f. Join [''/etc/kubecc'', f]) configFilenames @ [?p, Join [?d, ''config.yml''], Join [?d, ''config.json'']]"
    by (simp add: config_candidates_def config_view_def configFilenames_def)
  have "find (\<lambda>p. exists_file w p m') (config_candidates (config_view w m')) = Some ?p"
    using none ex unfolding c by (auto simp: configFilenames_def)
  moreover have "\<not> HasSuffix ?p ''.json''"
    using HasSuffix_last [of ?p "''.json''"] Join_last [of "''config.yaml''" ?d] by (auto simp: plain_name_def)
  ultimately have "load_config w m' = Some (ApplyGlobals (setup_spec a))"
    using rd codec [OF d] by (simp add: load_config_def config_Load_def LoadFile_def config_view_def)
  then show ?thesis using a by (intro exI [of _ a] exI [of _ "ApplyGlobals (setup_spec a)"]) (simp add: ApplyGlobals_def Let_def setup_spec_def)
qed

theorem setup_config_loaded_witness:
  "\<exists>m' conf. installConfig (sample_world sample_env) default_nonInteractive ''user'' sample_machine = (Return (), m') \<and>
     load_config (sample_world sample_env) m' = Some conf \<and>
     consumerd_ListenAddress (ks_Consumerd conf) = consumer_ConsumerdAddress (ks_Consumer conf)"
proof -
  let ?w = "sample_world sample_env"
  have "(case installConfig ?w default_nonInteractive ''user'' sample_machine of
      (Return _, m') \<Rightarrow> \<not> list_ex (\<lambda>f. exists_file ?w (Join [''/etc/kubecc'', f]) m') configFilenames | _ \<Rightarrow> False)" by code_simp
  then obtain m' where m': "installConfig ?w default_nonInteractive ''user'' sample_machine = (Return (), m')"
    and none: "\<not> list_ex (\<lambda>f. exists_file ?w (Join [''/etc/kubecc'', f]) m') configFilenames" by (auto split: prod.splits outcome.splits)
  have "w_yaml ?w data = spec" if "w_Marshal ?w spec = Return data" for spec data
    using that by (auto simp: sample_world_def split: if_splits)
  from setup_config_loaded [OF m' this none] m' show ?thesis by blast
qed

text \<open>C38: a first installation with the defaults fails. The directory for the binary is expanded and checked,
  but the binary is copied to the name as it was given, with the tilde: unless the working directory
  has a directory of that name, the setup of a user without a binary on the search path exits with
  code 1 and leaves the machine as it was.\<close>

theorem fresh_install_fails:
  assumes "LookPath w ''kubecc'' m = None" and "ni_Enabled (checkNonInteractiveConfig w ni)" and "ni_InstallDir (checkNonInteractiveConfig w ni) = []"
    and "w_Expand w ''~/.local/bin'' = Return d" and "Stat w d m = Return Dir_Node"
    and "w_Executable w = Return exe" and "ReadFile w exe m = Return self"
    and dest: "dest = abs_path w (Join [''~/.local/bin'', Base exe])" "node_at (m_files m) dest = None" "node_at (m_files m) (Dir dest) = None"
  shows "setup_run w ni False m = Some (Exit 1, m)"
proof -
  let ?ni = "checkNonInteractiveConfig w ni"
  have "choose_dir w ?ni False m = Some (Return ''~/.local/bin'', m)"
    using assms(2-5) by (subst choose_dir.simps) (simp add: ask_dir_def give_def)
  moreover have "copySelfTo w ''~/.local/bin'' m = (Fail (missing (m_files m) dest), m)"
  proof -
    have "\<not> exists_file w (Join [''~/.local/bin'', Base exe]) m" using exists_file_there dest by metis
    moreover have "CreateExclusive w (Join [''~/.local/bin'', Base exe]) self m = (Fail (missing (m_files m) dest), m)"
      using dest(2,3) by (simp add: CreateExclusive_def changing_def create_entry_def dest(1) [symmetric])
    ultimately show ?thesis using assms(6,7) by (simp add: copySelfTo_def andThen_def give_def reading_def Let_def)
  qed
  ultimately have "installOrUpdateBinary w ?ni False m = Some (Fail (missing (m_files m) dest), m)"
    using assms(1) by (simp add: installOrUpdateBinary_def andThen_def give_def)
  then show ?thesis by (simp add: setup_run_def andThen_def give_def)
qed

definition fresh_env :: "string \<Rightarrow> string option" where
  "fresh_env v =
     (if v = ''PATH'' then Some ''/bin'' else if v = ''KUBECC_SETUP_SCHEDULER_ADDRESS'' \<or> v = ''KUBECC_SETUP_MONITOR_ADDRESS'' then Some ''h:1'' else None)"

theorem fresh_install_fails_witness:
  "LookPath (sample_world fresh_env) ''kubecc'' sample_machine = None \<and>
   setup_run (sample_world fresh_env) default_nonInteractive False sample_machine = Some (Exit 1, sample_machine)"
proof -
  let ?w = "sample_world fresh_env" and ?m = sample_machine
  have l: "LookPath ?w ''kubecc'' ?m = None" by code_simp
  have n: "ni_Enabled (checkNonInteractiveConfig ?w default_nonInteractive)" "ni_InstallDir (checkNonInteractiveConfig ?w default_nonInteractive) = []"
    by code_simp+
  have x: "w_Expand ?w ''~/.local/bin'' = Return ''/h/.local/bin''" "w_Executable ?w = Return ''/usr/bin/kubecc''"
    by (simp_all add: sample_world_def sample_expand_def)
  have s: "Stat ?w ''/h/.local/bin'' ?m = Return Dir_Node" "ReadFile ?w ''/usr/bin/kubecc'' ?m = Return ''ELF''" by code_simp+
  have d: "node_at (m_files ?m) (abs_path ?w (Join [''~/.local/bin'', Base ''/usr/bin/kubecc''])) = None"
    "node_at (m_files ?m) (Dir (abs_path ?w (Join [''~/.local/bin'', Base ''/usr/bin/kubecc'']))) = None" by code_simp+
  from fresh_install_fails [OF l n x(1) s(1) x(2) s(2) refl d] l show ?thesis by blast
qed

end
