(* ===== verification/Teardown.thy ===== *)
theory Teardown
  imports Setup
begin

text \<open>
  \<open>src/pkg/kubecc/commands/teardown.go\<close>: the command that removes what \<open>setup\<close> installed. Errors are only
  printed. The list from which the user selects is a parameter.
\<close>

section \<open>Model\<close>

text \<open>A call whose error is only printed.\<close>

definition printing :: "('m, 'a) action \<Rightarrow> 'm \<Rightarrow> 'm" where
  "printing f m = snd (f m)"

definition stop_service :: "'s world \<Rightarrow> sd_mode \<Rightarrow> 's machine \<Rightarrow> 's machine" where
  "stop_service w mode m =
     (if is_active w mode consumerdUnit m = Return True
      then printing (systemd w mode (Disable consumerdUnit)) (printing (systemd w mode (Stop consumerdUnit)) m) else m)"

definition removeSystemConsumerd :: "'s world \<Rightarrow> 's machine \<Rightarrow> 's machine" where
  "removeSystemConsumerd w m =
     (let m1 = stop_service w SystemMode m in
      if exists_file w systemServiceFilepath m1 then
        (case Remove w systemServiceFilepath m1 of (Return _, m2) \<Rightarrow> printing (systemd w SystemMode DaemonReload) m2 | (_, m2) \<Rightarrow> m2)
      else printing (systemd w SystemMode DaemonReload) m1)"

definition user_service :: string where
  "user_service = ''~/.config/systemd/user/consumerd.service''"

definition removeUserConsumerd :: "'s world \<Rightarrow> 's machine \<Rightarrow> 's machine" where
  "removeUserConsumerd w m =
     (let m1 = stop_service w UserMode m in
      case w_Expand w user_service of
        Return path \<Rightarrow>
          if exists_file w path m1 then
            (case Remove w path m1 of (Return _, m2) \<Rightarrow> printing (systemd w UserMode DaemonReload) m2 | (_, m2) \<Rightarrow> m2)
          else printing (systemd w UserMode DaemonReload) m1
      | _ \<Rightarrow> printing (systemd w UserMode DaemonReload) m1)"

text \<open>The files that are there are removed one after the other, up to the first error.\<close>

fun remove_each :: "'s world \<Rightarrow> string list \<Rightarrow> 's machine \<Rightarrow> 's machine" where
  "remove_each w [] m = m"
| "remove_each w (p # ps) m =
     (if exists_file w p m then (case Remove w p m of (Return _, m') \<Rightarrow> remove_each w ps m' | (_, m') \<Rightarrow> m')
      else remove_each w ps m)"

definition deleteConfig :: "'s world \<Rightarrow> 's machine \<Rightarrow> 's machine" where
  "deleteConfig w m =
     (case w_Expand w ''~/.kubecc'' of Return path \<Rightarrow> remove_each w (map (\<lambda>f. Join [path, f]) configFilenames) m | _ \<Rightarrow> m)"

definition deleteSystemConfig :: "'s world \<Rightarrow> 's machine \<Rightarrow> 's machine" where
  "deleteSystemConfig w = remove_each w (map (\<lambda>f. Join [''/etc/kubecc'', f]) configFilenames)"

definition deleteEnv :: "'s world \<Rightarrow> 's machine \<Rightarrow> 's machine" where
  "deleteEnv w m =
     (case w_Expand w ''~/.kubecc'' of
        Return path \<Rightarrow>
          (let envFilePath = Join [path, ''env'']; binPath = Join [path, ''bin''];
               (r, m1) = (if exists_file w envFilePath m then Remove w envFilePath m else (Return (), m))
           in if is_return r \<and> exists_file w binPath m1 then printing (RemoveAll w binPath) m1 else m1)
      | _ \<Rightarrow> m)"

definition deleteBinary :: "'s world \<Rightarrow> 's machine \<Rightarrow> 's machine" where
  "deleteBinary w m = (case LookPath w ''kubecc'' m of Some binFromPath \<Rightarrow> printing (Remove w binFromPath) m | None \<Rightarrow> m)"

text \<open>What can be removed, in the order in which it is found.\<close>

definition offered :: "'s world \<Rightarrow> 's machine \<Rightarrow> (string \<times> ('s machine \<Rightarrow> 's machine)) list" where
  "offered w m =
     (if is_active w SystemMode consumerdUnit m = Return True \<or> exists_file w systemServiceFilepath m
      then [(''Consumerd service (system)'', removeSystemConsumerd w)] else []) @
     (if is_active w UserMode consumerdUnit m = Return True \<or>
         (case w_Expand w user_service of Return path \<Rightarrow> exists_file w path m | _ \<Rightarrow> False)
      then [(''Consumerd service (user)'', removeUserConsumerd w)] else []) @
     (case w_Expand w ''~/.kubecc'' of
        Return kubeccHome \<Rightarrow>
          (if list_ex (\<lambda>f. exists_file w (Join [kubeccHome, f]) m) configFilenames then [(''Local configuration files'', deleteConfig w)] else []) @
          (if list_ex (\<lambda>f. exists_file w (Join [''/etc/kubecc'', f]) m) configFilenames then [(''System configuration files'', deleteSystemConfig w)] else []) @
          (if exists_file w (Join [kubeccHome, ''bin'']) m \<or> exists_file w (Join [kubeccHome, ''env'']) m
           then [(''Local environment files'', deleteEnv w)] else [])
      | _ \<Rightarrow> []) @
     (case LookPath w ''kubecc'' m of
        Some binary \<Rightarrow> if exists_file w binary m then [(''Kubecc binary'', deleteBinary w)] else []
      | None \<Rightarrow> [])"

text \<open>The selected parts are removed, then the directory if it is empty.\<close>

fun run_selected :: "(string \<times> ('s machine \<Rightarrow> 's machine)) list \<Rightarrow> string list \<Rightarrow> 's machine \<Rightarrow> 's machine outcome" where
  "run_selected options [] m = Return m"
| "run_selected options (o' # os) m = (case map_of options o' of None \<Rightarrow> Panic | Some f \<Rightarrow> run_selected options os (f m))"

definition remove_if_empty :: "'s world \<Rightarrow> 's machine \<Rightarrow> 's machine" where
  "remove_if_empty w m =
     (case w_Expand w ''~/.kubecc'' of
        Return kubeccHome \<Rightarrow> if ReadDir w kubeccHome m = Return [] then printing (Remove w kubeccHome) m else m
      | _ \<Rightarrow> m)"

definition teardown_run ::
    "(string list \<Rightarrow> string list outcome) \<Rightarrow> 's world \<Rightarrow> bool \<Rightarrow> 's machine \<Rightarrow> (exit \<times> 's machine) option" where
  "teardown_run select w sudo m =
     (let options = offered w m in
      if options = [] then Some (Done, m)
      else case select (map fst options) of
             Return selected \<Rightarrow>
               (case run_selected options selected m of
                  Return m' \<Rightarrow> Some (Done, remove_if_empty w m')
                | _ \<Rightarrow> Some (Crash, m))
           | _ \<Rightarrow> Some (Done, m))"

definition TeardownCmd ::
    "(string list \<Rightarrow> string list outcome) \<Rightarrow> 's world \<Rightarrow> 's world outcome \<Rightarrow> 's machine \<Rightarrow> (exit \<times> 's machine) option" where
  "TeardownCmd select = with_sudo (teardown_run select)"

section \<open>Lemmas\<close>

text \<open>\<open>env_left home m\<close>: the directory \<open>~/.kubecc\<close> and the file \<open>.env\<close> in it are there.\<close>

definition env_left :: "string \<Rightarrow> node \<Rightarrow> 's machine \<Rightarrow> bool" where
  "env_left home n m \<longleftrightarrow> node_at (m_files m) (home @ ''/.kubecc'') = Some Dir_Node \<and> node_at (m_files m) (home @ ''/.kubecc/.env'') = Some n"

named_theorems env_intro "steps that keep the environment file"

lemma env_entry:
  assumes "env_left home n m" and "abs_dir home"
  shows "home @ ''/.kubecc/.env'' \<in> set (entries (m_files m) (home @ ''/.kubecc''))"
proof -
  have k: "abs_dir (home @ ''/.kubecc'')" "abs_dir (home @ ''/.kubecc/.env'')" using kubecc_dirs assms(2) by blast+
  have "home @ ''/.kubecc/.env'' \<in> fst ` set (m_files m)"
    using assms(1) abs_dir_IsAbs [OF k(2)] by (force simp: env_left_def node_at_def dest: map_of_SomeD)
  moreover have "Dir (home @ ''/.kubecc/.env'') = home @ ''/.kubecc''" using Dir_child [OF k(1) plain_names(4)] by simp
  ultimately show ?thesis by (simp add: entries_def)
qed

lemma env_Remove:
  assumes "env_left home n m" and "abs_dir home" and "abs_path w p \<noteq> home @ ''/.kubecc/.env''" and "Remove w p m = (r, m')"
  shows "env_left home n m'"
proof (cases "remove_entry (w_denied w) (abs_path w p) (m_files m)")
  case (Return fs)
  have "entries (m_files m) (home @ ''/.kubecc'') \<noteq> []" using env_entry [OF assms(1,2)] by (metis empty_iff empty_set)
  then have "abs_path w p \<noteq> home @ ''/.kubecc''" using Return assms(1) by (auto simp: remove_entry_def env_left_def)
  moreover have "m' = m\<lparr>m_files := fs\<rparr>" using assms(4) Return by (simp add: Remove_def changing_def)
  ultimately show ?thesis using remove_entry_nodes [OF Return] assms(1,3) by (auto simp: env_left_def)
qed (use assms in \<open>auto simp: Remove_def changing_def\<close>)

lemma env_RemoveAll:
  assumes "env_left home n m" and "\<not> below (home @ ''/.kubecc'') (abs_path w p)" and "\<not> below (home @ ''/.kubecc/.env'') (abs_path w p)"
    and "RemoveAll w p m = (r, m')"
  shows "env_left home n m'"
proof -
  obtain fs where fs: "remove_tree (w_denied w) (abs_path w p) (m_files m) = (r, fs)" "m' = m\<lparr>m_files := fs\<rparr>"
    using assms(4) by (auto simp: RemoveAll_def split: prod.splits)
  from remove_tree_nodes [OF fs(1) assms(2)] remove_tree_nodes [OF fs(1) assms(3)] assms(1) show ?thesis by (simp add: env_left_def fs(2))
qed

lemma env_systemd [env_intro]: "env_left home n m \<Longrightarrow> env_left home n (printing (systemd w mode c) m)"
  by (auto simp: printing_def systemd_def env_left_def split: prod.splits)

lemma env_stop [env_intro]: "env_left home n m \<Longrightarrow> env_left home n (stop_service w mode m)"
  by (auto simp: stop_service_def intro: env_intro)

lemma env_remove_each:
  "env_left home n m \<Longrightarrow> abs_dir home \<Longrightarrow> \<forall>p\<in>set ps. abs_path w p \<noteq> home @ ''/.kubecc/.env'' \<Longrightarrow> env_left home n (remove_each w ps m)"
  by (induction w ps m rule: remove_each.induct) (auto split: prod.splits outcome.splits dest: env_Remove)

text \<open>None of the paths that are removed is that of the file.\<close>

lemma Join_ends:
  assumes "plain_name n"
  obtains "Join [d, n] = n" | s where "Join [d, n] = s @ CHR ''/'' # n"
proof (cases "d = []")
  case True
  then have "Join [d, n] = n" using assms by (cases n) (auto simp: Join_def Clean_def Let_def plain_name_def Split_no_sep)
  then show thesis using that by blast
next
  case False
  have n: "n \<noteq> []" using assms by (simp add: plain_name_def)
  obtain ws where "Join [d, n] = (if hd d = CHR ''/'' then ''/'' else []) @ join_with ''/'' (ws @ [n])"
    using Clean_snoc [OF assms False refl] False n by (simp add: Join_def)
  then show thesis using that by (auto simp: join_with_snoc split: if_splits)
qed

lemma Base_abs_Join:
  assumes "plain_name n"
  shows "Base (abs_path w (Join [d, n])) = n"
proof -
  have n: "n \<noteq> []" using assms by (simp add: plain_name_def)
  have c: "Base (Clean (x @ CHR ''/'' # s @ CHR ''/'' # n)) = n" "Base (Clean (x @ CHR ''/'' # n)) = n" for x s
    using Base_Clean(1) [OF assms, of "x @ CHR ''/'' # s"] Base_Clean(1) [OF assms, of x] by simp_all
  show ?thesis by (rule Join_ends [OF assms, of d]) (use c Base_Clean(2) [OF assms] n in \<open>auto simp: abs_path_def Join_def\<close>)
qed

lemma LookPath_Base: "LookPath w n m = Some p \<Longrightarrow> plain_name n \<Longrightarrow> Base (abs_path w p) = n"
  by (auto simp: LookPath_def find_Some_iff Base_abs_Join)

lemma Base_env: "Base (home @ ''/.kubecc/.env'') = ''.env''"
  using Base_child(1) [OF plain_names(4), of "home @ ''/.kubecc''"] by simp

lemma not_env: "Base p \<noteq> ''.env'' \<Longrightarrow> p \<noteq> home @ ''/.kubecc/.env''"
  using Base_env by metis

lemma config_names: "f \<in> set configFilenames \<Longrightarrow> plain_name f \<and> f \<noteq> ''.env''"
  by (auto simp: configFilenames_def plain_name_def)

lemma expand_user_service:
  assumes "expands_home w home"
  shows "w_Expand w user_service = Return (home @ ''/.config/systemd/user/consumerd.service'')"
proof -
  let ?ws = "[''.config'', ''systemd'', ''user'', ''consumerd.service'']"
  have "w_Expand w (''~'' @ slashed ?ws) = Return (home @ slashed ?ws)"
    using assms unfolding expands_home_def by (auto simp: plain_name_def)
  then show ?thesis by (simp add: slashed_def user_service_def)
qed

lemma service_paths:
  assumes "abs_dir home"
  shows "abs_path w (home @ ''/.config/systemd/user/consumerd.service'') \<noteq> home @ ''/.kubecc/.env''"
    and "abs_path w systemServiceFilepath \<noteq> home @ ''/.kubecc/.env''"
proof -
  obtain ws where "ws \<noteq> []" "\<forall>v\<in>set ws. plain_name v" "home = slashed ws" using assms by (auto simp: abs_dir_def)
  then have "abs_dir (home @ ''/.config/systemd/user/consumerd.service'')"
    unfolding abs_dir_def by (intro exI [of _ "ws @ [''.config'', ''systemd'', ''user'', ''consumerd.service'']"]) (auto simp: slashed_def plain_name_def)
  then show "abs_path w (home @ ''/.config/systemd/user/consumerd.service'') \<noteq> home @ ''/.kubecc/.env''" by simp
  have "Base (abs_path w systemServiceFilepath) = ''consumerd.service''"
    unfolding abs_path_def systemServiceFilepath_def by code_simp
  then show "abs_path w systemServiceFilepath \<noteq> home @ ''/.kubecc/.env''" by (intro not_env) simp
qed

section \<open>What every part keeps\<close>

lemma env_parts:
  assumes "env_left home n m" and "expands_home w home"
  shows "env_left home n (removeSystemConsumerd w m)" "env_left home n (removeUserConsumerd w m)" "env_left home n (deleteConfig w m)"
    "env_left home n (deleteSystemConfig w m)" "env_left home n (deleteEnv w m)" "env_left home n (deleteBinary w m)" "env_left home n (remove_if_empty w m)"
proof -
  have home: "abs_dir home" using assms(2) by (simp add: expands_home_def)
  note k = kubecc_dirs [OF home] and x = expand_kubecc [OF assms(2)] expand_user_service [OF assms(2)] and rm = env_Remove [OF _ home]
  note s = service_paths [OF home, of w]
  show "env_left home n (removeSystemConsumerd w m)"
    unfolding removeSystemConsumerd_def Let_def
    by (auto split: prod.splits outcome.splits intro!: env_intro assms(1) elim!: rm [rotated 2, OF _ _ s(2)])
  show "env_left home n (removeUserConsumerd w m)"
    unfolding removeUserConsumerd_def Let_def x
    by (auto split: prod.splits outcome.splits intro!: env_intro assms(1) elim!: rm [rotated 2, OF _ _ s(1)])
  have c: "abs_path w (Join [d, f]) \<noteq> home @ ''/.kubecc/.env''" if "f \<in> set configFilenames" for d f
    using config_names [OF that] Base_abs_Join [of f w d] by (intro not_env) simp
  show "env_left home n (deleteConfig w m)" "env_left home n (deleteSystemConfig w m)"
    unfolding deleteConfig_def deleteSystemConfig_def x using assms(1) home c by (auto intro!: env_remove_each)
  show "env_left home n (deleteBinary w m)"
  proof (cases "LookPath w ''kubecc'' m")
    case (Some p)
    then have "abs_path w p \<noteq> home @ ''/.kubecc/.env''" using LookPath_Base by (intro not_env) (fastforce simp: plain_name_def)
    then show ?thesis using rm [OF assms(1)] Some by (cases "Remove w p m") (auto simp: deleteBinary_def printing_def)
  qed (simp add: deleteBinary_def assms(1))
  show "env_left home n (remove_if_empty w m)"
  proof -
    have "abs_path w (home @ ''/.kubecc'') \<noteq> home @ ''/.kubecc/.env''" using k by simp
    from rm [OF assms(1) this] show ?thesis
      using assms(1) by (cases "Remove w (home @ ''/.kubecc'') m") (auto simp: remove_if_empty_def x printing_def)
  qed
  show "env_left home n (deleteEnv w m)"
  proof -
    let ?env = "home @ ''/.kubecc/env''" and ?bin = "home @ ''/.kubecc/bin''"
    have j: "Join [home @ ''/.kubecc'', ''env''] = ?env" "Join [home @ ''/.kubecc'', ''bin''] = ?bin"
      using Join_child [OF k(1)] plain_names by simp_all
    obtain r m1 where m1: "(if exists_file w ?env m then Remove w ?env m else (Return (), m)) = (r, m1)" by fastforce
    have "abs_path w ?env \<noteq> home @ ''/.kubecc/.env''" using k by simp
    then have e: "env_left home n m1" using m1 assms(1) rm by (auto split: if_splits)
    have "\<not> below (home @ ''/.kubecc'') (abs_path w ?bin)" "\<not> below (home @ ''/.kubecc/.env'') (abs_path w ?bin)"
      using k by (auto simp: below_def HasPrefix_iff_prefix)
    from env_RemoveAll [OF e this] have "env_left home n (printing (RemoveAll w ?bin) m1)"
      by (cases "RemoveAll w ?bin m1") (simp add: printing_def)
    then show ?thesis using e by (simp add: deleteEnv_def x j m1 Let_def)
  qed
qed

lemma offered_keeps:
  assumes "(o', f) \<in> set (offered w m0)" and "env_left home n m" and "expands_home w home"
  shows "env_left home n (f m)"
  using assms(1) env_parts [OF assms(2,3)] by (auto simp: offered_def split: if_splits outcome.splits option.splits)

lemma run_selected_keeps:
  assumes "run_selected (offered w m0) sel m = Return m'" and "env_left home n m" and "expands_home w home"
  shows "env_left home n m'"
  using assms(1,2)
proof (induction sel arbitrary: m)
  case (Cons o' sel)
  then obtain f where "map_of (offered w m0) o' = Some f" "run_selected (offered w m0) sel (f m) = Return m'" by (auto split: option.splits)
  then show ?case using Cons offered_keeps [OF map_of_SomeD _ assms(3)] by blast
qed simp

section \<open>Properties\<close>

text \<open>C39: the teardown does not undo the setup. Whatever the user selects, the file \<open>.env\<close> that the setup wrote
  stays, and with it the directory \<open>~/.kubecc\<close>, which is only deleted when it is empty.\<close>

theorem teardown_leaves_env:
  assumes "teardown_run select w sudo m = Some (r, m')" and "expands_home w home"
    and "node_at (m_files m) (home @ ''/.kubecc'') = Some Dir_Node" and "node_at (m_files m) (home @ ''/.kubecc/.env'') = Some n"
  shows "node_at (m_files m') (home @ ''/.kubecc'') = Some Dir_Node \<and> node_at (m_files m') (home @ ''/.kubecc/.env'') = Some n"
proof -
  have e: "env_left home n m" using assms(3,4) by (simp add: env_left_def)
  have "env_left home n m'"
  proof (cases "m' = m")
    case False
    with assms(1) obtain sel m1 where "run_selected (offered w m) sel m = Return m1" "m' = remove_if_empty w m1"
      by (auto simp: teardown_run_def Let_def split: if_splits outcome.splits)
    then show ?thesis using run_selected_keeps [OF _ e assms(2)] env_parts(7) [OF _ assms(2)] by blast
  qed (use e in simp)
  then show ?thesis by (simp add: env_left_def)
qed

definition installed_machine :: "bool machine" where
  "installed_machine = sample_machine\<lparr>m_files := m_files sample_machine @
     [(''/h/.kubecc'', Dir_Node), (''/h/.kubecc/env'', File_Node ''x'' False), (''/h/.kubecc/.env'', File_Node ''y'' False),
      (''/h/.kubecc/bin'', Dir_Node), (''/h/.kubecc/bin/gcc'', Link_Node ''/usr/bin/kubecc''), (''/h/.kubecc/config.yaml'', File_Node ''z'' False)]\<rparr>"

theorem teardown_leaves_env_witness:
  "\<exists>m'. teardown_run Return (sample_world sample_env) False installed_machine = Some (Done, m') \<and>
     node_at (m_files m') ''/h/.kubecc/bin/gcc'' = None \<and> node_at (m_files m') ''/usr/bin/kubecc'' = None \<and>
     node_at (m_files m') ''/h/.kubecc'' = Some Dir_Node \<and> node_at (m_files m') ''/h/.kubecc/.env'' = Some (File_Node ''y'' False)"
proof -
  let ?w = "sample_world sample_env"
  have "(case teardown_run Return ?w False installed_machine of
      Some (Done, m') \<Rightarrow> node_at (m_files m') ''/h/.kubecc/bin/gcc'' = None \<and> node_at (m_files m') ''/usr/bin/kubecc'' = None | _ \<Rightarrow> False)" by code_simp
  then obtain m' where m': "teardown_run Return ?w False installed_machine = Some (Done, m')"
    "node_at (m_files m') ''/h/.kubecc/bin/gcc'' = None" "node_at (m_files m') ''/usr/bin/kubecc'' = None"
    by (auto split: option.splits prod.splits exit.splits)
  have "node_at (m_files installed_machine) (''/h'' @ ''/.kubecc'') = Some Dir_Node"
    "node_at (m_files installed_machine) (''/h'' @ ''/.kubecc/.env'') = Some (File_Node ''y'' False)" by code_simp+
  from teardown_leaves_env [OF m'(1) sample_home this] m' show ?thesis by auto
qed

end
