(* ===== verification/Display.thy ===== *)
theory Display
  imports Clients Strconv Router "HOL-Library.List_Lexorder" "HOL-Library.Char_ord"
begin

text \<open>
  \<open>src/pkg/ui\<close>: the data sources of the status display and the tables and the tree that show what they
  send. The two sources with a row for every provider keep a map of providers that the goroutines
  of \<open>OnProviderAdded\<close> fill and clear; the others keep a few counters. The widgets of the terminal
  library are left out.
\<close>

section \<open>Rows\<close>

record peer =
  pr_address :: string
  pr_uuid :: string
  pr_health :: OverallStatus
  pr_NumRunning :: int
  pr_NumDelegated :: int
  pr_NumQueued :: int
  pr_ProcessLimit :: int
  pr_DelegatedLimit :: int

fun OverallStatus_String :: "OverallStatus \<Rightarrow> string" where
  "OverallStatus_String UnknownStatus = ''UnknownStatus''"
| "OverallStatus_String Ready = ''Ready''"
| "OverallStatus_String Initializing = ''Initializing''"
| "OverallStatus_String Degraded = ''Degraded''"
| "OverallStatus_String Unavailable_Status = ''Unavailable''"

definition ratio :: "int \<Rightarrow> int \<Rightarrow> string" where
  "ratio a b = FormatInt a @ ''/'' @ FormatInt b"

definition agent_rowData :: "(string \<Rightarrow> bool) \<Rightarrow> peer \<Rightarrow> string list outcome" where
  "agent_rowData is_uuid a =
     (case FormatShortID is_uuid (pr_uuid a) 6 ElideCenter of
        Return i \<Rightarrow> Return [pr_address a, i, OverallStatus_String (pr_health a), ratio (pr_NumRunning a) (pr_ProcessLimit a)]
      | Fail e \<Rightarrow> Fail e | Panic \<Rightarrow> Panic)"

definition consumerd_rowData :: "(string \<Rightarrow> bool) \<Rightarrow> peer \<Rightarrow> string list outcome" where
  "consumerd_rowData is_uuid c =
     (case FormatShortID is_uuid (pr_uuid c) 6 ElideCenter of
        Return i \<Rightarrow> Return [pr_address c, i, OverallStatus_String (pr_health c), ratio (pr_NumRunning c) (pr_ProcessLimit c),
                          ratio (pr_NumDelegated c) (pr_DelegatedLimit c), FormatInt (pr_NumQueued c)]
      | Fail e \<Rightarrow> Fail e | Panic \<Rightarrow> Panic)"

datatype style = ColorClear | ColorGreen | ColorYellow | ColorRed | WhiteBold

fun healthStyle :: "OverallStatus \<Rightarrow> style" where
  "healthStyle UnknownStatus = ColorClear"
| "healthStyle Ready = ColorGreen"
| "healthStyle Initializing = ColorClear"
| "healthStyle Degraded = ColorYellow"
| "healthStyle Unavailable_Status = ColorRed"

text \<open>\<open>doUpdate\<close>: the rows in the order in which the map is visited, each with the colour of its provider
  under its number; the rows are sorted by their short id afterwards.\<close>

fun collect :: "(peer \<Rightarrow> string list outcome) \<Rightarrow> peer list \<Rightarrow> string list list outcome" where
  "collect row [] = Return []"
| "collect row (p # ps) =
     (case row p of
        Return r \<Rightarrow> (case collect row ps of Return rs \<Rightarrow> Return (r # rs) | Fail e \<Rightarrow> Fail e | Panic \<Rightarrow> Panic)
      | Fail e \<Rightarrow> Fail e | Panic \<Rightarrow> Panic)"

definition row_styles :: "peer list \<Rightarrow> (nat \<times> style) list" where
  "row_styles ps = zip [1..<Suc (length ps)] (map (healthStyle \<circ> pr_health) ps)"

definition table_update :: "(peer \<Rightarrow> string list outcome) \<Rightarrow> peer list \<Rightarrow> (string list list \<times> (nat \<times> style) list) outcome" where
  "table_update row ps =
     (case collect row ps of
        Return rows \<Rightarrow> Return (sort_key (\<lambda>r. r ! 1) rows, row_styles ps)
      | Fail e \<Rightarrow> Fail e | Panic \<Rightarrow> Panic)"

section \<open>Sources with a row for every provider\<close>

text \<open>A goroutine started for a provider asks who it is, stores it or ends, and waits for its context.\<close>

datatype phase = Starting | Watching | Removed | Ignored

record handler =
  hd_uuid :: string
  hd_canceled :: bool
  hd_phase :: phase

record source =
  src_peers :: "(string \<times> peer) list"
  src_handlers :: "handler list"
  src_known :: "(string \<times> nat) list"      \<comment> \<open>\<open>knownProviders\<close> with the goroutine of each context\<close>
  src_sent :: "(string list list \<times> (nat \<times> style) list) list"
  src_crashed :: bool

definition NewDataSource :: source where
  "NewDataSource = \<lparr>src_peers = [], src_handlers = [], src_known = [], src_sent = [], src_crashed = False\<rparr>"

datatype source_event =
    Src_Add string
  | Src_Remove string
  | Src_Whois nat "(Component \<times> string) outcome"
  | Src_Health nat OverallStatus
  | Src_TaskStatus nat int int int
  | Src_UsageLimits nat int int
  | Src_Done nat

definition send_update :: "(peer \<Rightarrow> string list outcome) \<Rightarrow> source \<Rightarrow> source" where
  "send_update row s =
     (case table_update row (map snd (src_peers s)) of
        Return sent \<Rightarrow> s\<lparr>src_sent := src_sent s @ [sent]\<rparr>
      | _ \<Rightarrow> s\<lparr>src_crashed := True\<rparr>)"

definition set_phase :: "nat \<Rightarrow> phase \<Rightarrow> source \<Rightarrow> source" where
  "set_phase g ph s = s\<lparr>src_handlers := (src_handlers s)[g := (src_handlers s ! g)\<lparr>hd_phase := ph\<rparr>]\<rparr>"

text \<open>The callbacks \<open>updateHealth\<close>, \<open>updateTaskStatus\<close> and \<open>updateUsageLimits\<close> of a goroutine that stored its
  provider; they do nothing when the provider is not there.\<close>

definition update_peer :: "(peer \<Rightarrow> string list outcome) \<Rightarrow> nat \<Rightarrow> (peer \<Rightarrow> peer) \<Rightarrow> source \<Rightarrow> source option" where
  "update_peer row g f s =
     (if g < length (src_handlers s) \<and> hd_phase (src_handlers s ! g) \<in> {Watching, Removed} then
        (case map_of (src_peers s) (hd_uuid (src_handlers s ! g)) of
           None \<Rightarrow> Some s
         | Some p \<Rightarrow> Some (send_update row (s\<lparr>src_peers := AList.update (hd_uuid (src_handlers s ! g)) (f p) (src_peers s)\<rparr>)))
      else None)"

fun source_step :: "Component \<Rightarrow> (peer \<Rightarrow> string list outcome) \<Rightarrow> source_event \<Rightarrow> source \<Rightarrow> source option" where
  "source_step kind row (Src_Add u) s =
     (if map_of (src_known s) u = None then
        Some (s\<lparr>src_known := AList.update u (length (src_handlers s)) (src_known s),
                src_handlers := src_handlers s @ [\<lparr>hd_uuid = u, hd_canceled = False, hd_phase = Starting\<rparr>]\<rparr>)
      else None)"
| "source_step kind row (Src_Remove u) s =
     (case map_of (src_known s) u of
        None \<Rightarrow> None
      | Some g \<Rightarrow>
          Some (s\<lparr>src_known := AList.delete u (src_known s),
                  src_handlers := (src_handlers s)[g := (src_handlers s ! g)\<lparr>hd_canceled := True\<rparr>]\<rparr>))"
| "source_step kind row (Src_Whois g r) s =
     (if g < length (src_handlers s) \<and> hd_phase (src_handlers s ! g) = Starting then
        (case r of
           Return (c, address) \<Rightarrow>
             if c = kind then
               Some (set_phase g Watching (s\<lparr>src_peers := AList.update (hd_uuid (src_handlers s ! g))
                 \<lparr>pr_address = address, pr_uuid = hd_uuid (src_handlers s ! g), pr_health = UnknownStatus, pr_NumRunning = 0, pr_NumDelegated = 0,
                  pr_NumQueued = 0, pr_ProcessLimit = 0, pr_DelegatedLimit = 0\<rparr> (src_peers s)\<rparr>))
             else Some (set_phase g Ignored s)
         | _ \<Rightarrow> Some (set_phase g Ignored s))
      else None)"
| "source_step kind row (Src_Health g h) s = update_peer row g (pr_health_update (\<lambda>_. h)) s"
| "source_step kind row (Src_TaskStatus g r d q) s =
     update_peer row g (\<lambda>p. p\<lparr>pr_NumRunning := r, pr_NumDelegated := d, pr_NumQueued := q\<rparr>) s"
| "source_step kind row (Src_UsageLimits g l d) s = update_peer row g (\<lambda>p. p\<lparr>pr_ProcessLimit := l, pr_DelegatedLimit := d\<rparr>) s"
| "source_step kind row (Src_Done g) s =
     (if g < length (src_handlers s) \<and> hd_phase (src_handlers s ! g) = Watching \<and> hd_canceled (src_handlers s ! g) then
        (let u = hd_uuid (src_handlers s ! g); s1 = set_phase g Removed (s\<lparr>src_peers := AList.delete u (src_peers s)\<rparr>)
         in Some (if map_of (src_peers s) u = None then s1\<lparr>src_crashed := True\<rparr> else send_update row s1))
      else None)"

text \<open>A panic ends the program.\<close>

definition live_source :: "Component \<Rightarrow> (peer \<Rightarrow> string list outcome) \<Rightarrow> source_event \<Rightarrow> source \<Rightarrow> source option" where
  "live_source kind row ev s = (if src_crashed s then None else source_step kind row ev s)"

definition agentDataSource :: "(string \<Rightarrow> bool) \<Rightarrow> source_event \<Rightarrow> source \<Rightarrow> source option" where
  "agentDataSource is_uuid = live_source Agent (agent_rowData is_uuid)"

definition consumerdDataSource :: "(string \<Rightarrow> bool) \<Rightarrow> source_event \<Rightarrow> source \<Rightarrow> source option" where
  "consumerdDataSource is_uuid = live_source Consumerd (consumerd_rowData is_uuid)"

section \<open>Sources with counters\<close>

text \<open>The scheduler, the monitor and the cache server have one map of counters each. An update sends the rows;
  when the provider goes away the counters are reset and an empty table is sent.\<close>

record 'v counters =
  ct_values :: 'v
  ct_sent :: "string list list list"

definition counter_set :: "('v \<Rightarrow> string list list) \<Rightarrow> ('v \<Rightarrow> 'v) \<Rightarrow> 'v counters \<Rightarrow> 'v counters" where
  "counter_set rows f c = (let v = f (ct_values c) in \<lparr>ct_values = v, ct_sent = ct_sent c @ [rows v]\<rparr>)"

definition counter_done :: "'v \<Rightarrow> 'v counters \<Rightarrow> 'v counters" where
  "counter_done initial c = \<lparr>ct_values = initial, ct_sent = ct_sent c @ [[]]\<rparr>"

datatype 'e counter_event = Ct_Whois "Component outcome" | Ct_Value 'e | Ct_Done

text \<open>Values and the end are seen only for a provider of the component of the source; the steps are those of
  one provider.\<close>

definition counter_step ::
    "Component \<Rightarrow> ('v \<Rightarrow> string list list) \<Rightarrow> ('e \<Rightarrow> 'v \<Rightarrow> 'v) \<Rightarrow> 'v \<Rightarrow> 'e counter_event \<Rightarrow> bool \<times> 'v counters \<Rightarrow> (bool \<times> 'v counters) option" where
  "counter_step kind rows apply_event initial ev st =
     (case st of (watching, c) \<Rightarrow>
        (case ev of
           Ct_Whois r \<Rightarrow> if watching then None else Some (r = Return kind, c)
         | Ct_Value e \<Rightarrow> if watching then Some (True, counter_set rows (apply_event e) c) else None
         | Ct_Done \<Rightarrow> if watching then Some (False, counter_done initial c) else None))"

datatype scheduler_value = Completed int | Failed int | Requests int

record scheduler_counters =
  sc_completed :: int
  sc_failed :: int
  sc_requests :: int

fun scheduler_apply :: "scheduler_value \<Rightarrow> scheduler_counters \<Rightarrow> scheduler_counters" where
  "scheduler_apply (Completed n) c = c\<lparr>sc_completed := n\<rparr>"
| "scheduler_apply (Failed n) c = c\<lparr>sc_failed := n\<rparr>"
| "scheduler_apply (Requests n) c = c\<lparr>sc_requests := n\<rparr>"

definition scheduler_rows :: "scheduler_counters \<Rightarrow> string list list" where
  "scheduler_rows c = [[''Completed'', FormatInt (sc_completed c)], [''Failed'', FormatInt (sc_failed c)], [''Requests'', FormatInt (sc_requests c)]]"

definition schedulerDataSource ::
    "scheduler_value counter_event \<Rightarrow> bool \<times> scheduler_counters counters \<Rightarrow> (bool \<times> scheduler_counters counters) option" where
  "schedulerDataSource = counter_step Scheduler scheduler_rows scheduler_apply \<lparr>sc_completed = 0, sc_failed = 0, sc_requests = 0\<rparr>"

datatype monitor_value = Posted int | Listeners int | Providers int

record monitor_counters =
  mc_posted :: int
  mc_listeners :: int
  mc_providers :: int

fun monitor_apply :: "monitor_value \<Rightarrow> monitor_counters \<Rightarrow> monitor_counters" where
  "monitor_apply (Posted n) c = c\<lparr>mc_posted := n\<rparr>"
| "monitor_apply (Listeners n) c = c\<lparr>mc_listeners := n\<rparr>"
| "monitor_apply (Providers n) c = c\<lparr>mc_providers := n\<rparr>"

definition monitor_rows :: "monitor_counters \<Rightarrow> string list list" where
  "monitor_rows c = [[''Metrics Posted'', FormatInt (mc_posted c)], [''Listeners'', FormatInt (mc_listeners c)], [''Providers'', FormatInt (mc_providers c)]]"

definition monitorDataSource ::
    "monitor_value counter_event \<Rightarrow> bool \<times> monitor_counters counters \<Rightarrow> (bool \<times> monitor_counters counters) option" where
  "monitorDataSource = counter_step Monitor monitor_rows monitor_apply \<lparr>mc_posted = 0, mc_listeners = 0, mc_providers = 0\<rparr>"

text \<open>How a percentage prints is decided by \<open>fmt\<close>; it is a parameter.\<close>

datatype cache_value = Usage int go_float | Hits int int go_float

record cache_counters =
  cc_usage :: "int \<times> go_float"
  cc_hits :: "int \<times> int \<times> go_float"

fun cache_apply :: "cache_value \<Rightarrow> cache_counters \<Rightarrow> cache_counters" where
  "cache_apply (Usage n pct) c = c\<lparr>cc_usage := (n, pct)\<rparr>"
| "cache_apply (Hits h m pct) c = c\<lparr>cc_hits := (h, m, pct)\<rparr>"

definition cache_rows :: "(go_float \<Rightarrow> string) \<Rightarrow> cache_counters \<Rightarrow> string list list" where
  "cache_rows print c =
     (case (cc_usage c, cc_hits c) of ((n, pct), (h, m, hp)) \<Rightarrow>
        [[''Objects'', FormatInt n], [''Usage'', print pct], [''Cache Hits'', FormatInt h], [''Cache Misses'', FormatInt m], [''Hit %'', print hp]])"

definition cacheDataSource ::
    "(go_float \<Rightarrow> string) \<Rightarrow> cache_value counter_event \<Rightarrow> bool \<times> cache_counters counters \<Rightarrow> (bool \<times> cache_counters counters) option" where
  "cacheDataSource print = counter_step Cache (cache_rows print) cache_apply \<lparr>cc_usage = (0, Fin 0), cc_hits = (0, 0, Fin 0)\<rparr>"

section \<open>Routes\<close>

definition named :: "string \<Rightarrow> Toolchain \<Rightarrow> string" where
  "named name tc = name @ '' '' @ tc_Version tc @ '' ('' @ tc_TargetArch tc @ '')''"

definition friendlyName :: "Toolchain \<Rightarrow> string" where
  "friendlyName tc =
     (case tc_Kind tc of
        Clang \<Rightarrow> named ''Clang'' tc
      | Gnu \<Rightarrow> (case tc_Lang tc of Lang_C \<Rightarrow> named ''GCC'' tc | Lang_CXX \<Rightarrow> named ''G++'' tc | _ \<Rightarrow> ''Unknown'')
      | Sleep \<Rightarrow> named ''Sleep'' tc
      | _ \<Rightarrow> ''Unknown'')"

datatype tree_node = Tree_Node (tn_Value: string) (tn_Expanded: bool) (tn_Nodes: "tree_node list")

definition group_node :: "string \<Rightarrow> string list \<Rightarrow> tree_node" where
  "group_node name ids = Tree_Node (name @ '' ('' @ FormatInt (int (length ids)) @ '')'') True (map (\<lambda>i. Tree_Node i False []) (sort ids))"

definition route_node :: "RouteInfo \<Rightarrow> tree_node" where
  "route_node r = Tree_Node (friendlyName (ri_Toolchain r)) True [group_node ''Agents'' (ri_Agents r), group_node ''Consumerds'' (ri_Consumerds r)]"

text \<open>The nodes are sorted after each route is added. A round of the loop sends the nodes, or none after an
  error, and says whether it waits for the ticker before the next.\<close>

fun add_routes :: "tree_node list \<Rightarrow> RouteInfo list \<Rightarrow> tree_node list" where
  "add_routes nodes [] = nodes"
| "add_routes nodes (r # rs) = add_routes (sort_key tn_Value (nodes @ [route_node r])) rs"

definition routes_round :: "RouteInfo list outcome \<Rightarrow> tree_node list \<times> bool" where
  "routes_round routes = (case routes of Return rs \<Rightarrow> (add_routes [] rs, True) | _ \<Rightarrow> ([], False))"

section \<open>Widgets\<close>

text \<open>Every source has headers; the row of the headers has a style of its own.\<close>

datatype title_color = ColorBlue | ColorRed_Title

record table =
  tb_rows :: "string list list"
  tb_styles :: "nat \<Rightarrow> style option"
  tb_title :: "title_color option"

definition NewTable :: "string list \<Rightarrow> table" where
  "NewTable headers = \<lparr>tb_rows = [headers], tb_styles = [0 \<mapsto> WhiteBold], tb_title = None\<rparr>"

definition table_data :: "string list \<Rightarrow> string list list \<Rightarrow> table \<Rightarrow> table" where
  "table_data headers data t = t\<lparr>tb_rows := headers # data, tb_title := Some (if data \<noteq> [] then ColorBlue else ColorRed_Title)\<rparr>"

definition table_style :: "(nat \<times> style) list \<Rightarrow> table \<Rightarrow> table" where
  "table_style st t = t\<lparr>tb_styles := tb_styles t ++ map_of st\<rparr>"

record tree =
  tr_nodes :: "tree_node list"
  tr_title :: "title_color option"

definition tree_data :: "tree_node list \<Rightarrow> tree \<Rightarrow> tree" where
  "tree_data data t = t\<lparr>tr_nodes := data, tr_title := Some (if data \<noteq> [] then ColorBlue else ColorRed_Title)\<rparr>"

section \<open>Lemmas\<close>

text \<open>What is sent: the rows of all providers, sorted by their short ids.\<close>

lemma collect_map: "collect row ps = Return rows \<Longrightarrow> map Return rows = map row ps"
  by (induction ps arbitrary: rows) (auto split: outcome.splits)

lemma collect_total: "\<forall>p\<in>set ps. \<exists>r. row p = Return r \<Longrightarrow> \<exists>rows. collect row ps = Return rows"
  by (induction ps) fastforce+

lemma table_update_rows:
  assumes "table_update row ps = Return (rows, styles)"
  shows "mset (map Return rows) = mset (map row ps)" and "sorted (map (\<lambda>r. r ! 1) rows)"
    and "i < length ps \<Longrightarrow> map_of styles (Suc i) = Some (healthStyle (pr_health (ps ! i)))"
proof -
  obtain rs where rs: "collect row ps = Return rs" "rows = sort_key (\<lambda>r. r ! 1) rs" and st: "styles = row_styles ps"
    using assms by (auto simp: table_update_def split: outcome.splits)
  show "mset (map Return rows) = mset (map row ps)" using collect_map [OF rs(1)] by (metis mset_map mset_sort rs(2))
  show "sorted (map (\<lambda>r. r ! 1) rows)" unfolding rs(2) by simp
  have "map_of (zip [1..<Suc (length xs)] xs) (Suc i) = Some (xs ! i)" if "i < length xs" for xs :: "style list"
  proof -
    have "(Suc i, xs ! i) \<in> set (zip [1..<Suc (length xs)] xs)" using that by (auto simp: set_zip simp del: upt_Suc intro!: exI [of _ i])
    then show ?thesis by (intro map_of_is_SomeI) (simp_all del: upt_Suc)
  qed
  from this [of "map (healthStyle \<circ> pr_health) ps"]
  show "i < length ps \<Longrightarrow> map_of styles (Suc i) = Some (healthStyle (pr_health (ps ! i)))" unfolding st row_styles_def by simp
qed

text \<open>The colours are numbered before the rows are sorted, so they can end up at the rows of others.\<close>

definition two_peers :: "peer list" where
  "two_peers =
     [\<lparr>pr_address = ''a'', pr_uuid = ''2'', pr_health = Ready, pr_NumRunning = 0, pr_NumDelegated = 0, pr_NumQueued = 0, pr_ProcessLimit = 1, pr_DelegatedLimit = 0\<rparr>,
      \<lparr>pr_address = ''b'', pr_uuid = ''1'', pr_health = Unavailable_Status, pr_NumRunning = 0, pr_NumDelegated = 0, pr_NumQueued = 0, pr_ProcessLimit = 1, pr_DelegatedLimit = 0\<rparr>]"

lemma colours_of_others:
  "table_update (agent_rowData (\<lambda>_. False)) two_peers =
     Return ([[''b'', ''1'', ''Unavailable'', ''0/1''], [''a'', ''2'', ''Ready'', ''0/1'']], [(1, ColorGreen), (2, ColorRed)])"
  by code_simp

text \<open>The rows of the providers never panic for ids of at least three characters.\<close>

lemma rowData_total:
  assumes "is_uuid (pr_uuid p) \<Longrightarrow> 3 \<le> length (pr_uuid p)"
  shows "\<exists>r. agent_rowData is_uuid p = Return r" and "\<exists>r. consumerd_rowData is_uuid p = Return r"
  using assms by (auto simp: agent_rowData_def consumerd_rowData_def FormatShortID_def)

section \<open>The providers that are shown\<close>

text \<open>The events of \<open>OnProviderAdded\<close> when the goroutine of a provider that left has ended before the provider
  is added again.\<close>

definition pending_handler :: "string \<Rightarrow> handler \<Rightarrow> bool" where
  "pending_handler u h \<longleftrightarrow> hd_uuid h = u \<and> hd_phase h \<in> {Starting, Watching}"

definition calm_step :: "Component \<Rightarrow> (peer \<Rightarrow> string list outcome) \<Rightarrow> source_event \<Rightarrow> source \<Rightarrow> source option" where
  "calm_step kind row ev s =
     (case ev of
        Src_Add u \<Rightarrow> if list_ex (pending_handler u) (src_handlers s) then None else live_source kind row ev s
      | _ \<Rightarrow> live_source kind row ev s)"

inductive calm_reachable :: "Component \<Rightarrow> (peer \<Rightarrow> string list outcome) \<Rightarrow> source \<Rightarrow> bool" for kind row where
  calm_init: "calm_reachable kind row NewDataSource"
| calm_next: "calm_reachable kind row s \<Longrightarrow> calm_step kind row ev s = Some s' \<Longrightarrow> calm_reachable kind row s'"

interpretation calm_sys: transition_system "calm_step kind row" "\<lambda>s. s = NewDataSource" "calm_reachable kind row" for kind row
proof (unfold_locales, goal_cases)
  case (3 s P)
  then show ?case by (induction rule: calm_reachable.induct) blast+
qed (auto intro: calm_init calm_next)

abbreviation uuid_at :: "source \<Rightarrow> nat \<Rightarrow> string" where
  "uuid_at s g \<equiv> hd_uuid (src_handlers s ! g)"

abbreviation phase_at :: "source \<Rightarrow> nat \<Rightarrow> phase" where
  "phase_at s g \<equiv> hd_phase (src_handlers s ! g)"

definition watched :: "source \<Rightarrow> string set" where
  "watched s = {uuid_at s g |g. g < length (src_handlers s) \<and> phase_at s g = Watching}"

definition active :: "source \<Rightarrow> nat \<Rightarrow> bool" where
  "active s g \<longleftrightarrow> g < length (src_handlers s) \<and> phase_at s g \<in> {Starting, Watching}"

definition handlers_inv :: "source \<Rightarrow> bool" where
  "handlers_inv s \<longleftrightarrow> (\<forall>g h. active s g \<longrightarrow> active s h \<longrightarrow> uuid_at s g = uuid_at s h \<longrightarrow> g = h)"

definition source_inv :: "source \<Rightarrow> bool" where
  "source_inv s \<longleftrightarrow> handlers_inv s \<and> dom (map_of (src_peers s)) = watched s \<and>
     (\<forall>u p. map_of (src_peers s) u = Some p \<longrightarrow> pr_uuid p = u) \<and> distinct (map fst (src_peers s)) \<and> \<not> src_crashed s"

lemma send_update_same:
  assumes "\<forall>p. \<exists>r. row p = Return r"
  shows "\<exists>sent. send_update row s = s\<lparr>src_sent := src_sent s @ [sent]\<rparr> \<and> table_update row (map snd (src_peers s)) = Return sent"
  using collect_total [of "map snd (src_peers s)" row] assms by (auto simp: send_update_def table_update_def)

lemma source_inv_sent [simp]: "source_inv (s\<lparr>src_sent := x\<rparr>) = source_inv s"
  by (simp add: source_inv_def handlers_inv_def active_def watched_def)

lemma update_peer_inv:
  assumes "source_inv s" and "\<forall>p. \<exists>r. row p = Return r" and "update_peer row g f s = Some s'" and "\<And>p. pr_uuid (f p) = pr_uuid p"
  shows "source_inv s'"
proof (cases "map_of (src_peers s) (uuid_at s g)")
  case None
  then show ?thesis using assms(1,3) by (auto simp: update_peer_def split: if_splits)
next
  case (Some p)
  let ?s = "s\<lparr>src_peers := AList.update (uuid_at s g) (f p) (src_peers s)\<rparr>"
  have "source_inv ?s" using assms(1,4) Some
    by (auto simp: source_inv_def handlers_inv_def active_def watched_def update_conv' distinct_update)
  moreover have "s' = send_update row ?s" using assms(3) Some by (auto simp: update_peer_def split: if_splits)
  ultimately show ?thesis using send_update_same [OF assms(2), of ?s] by auto
qed

text \<open>The goroutine \<open>g\<close>, which is active, changes its phase.\<close>

lemma nth_list_update': "xs[i := x] ! j = (if i = j \<and> j < length xs then x else xs ! j)"
  by (cases "i = j") (auto simp: not_less list_update_beyond)

lemma set_phase_simps [simp]:
  "length (src_handlers (set_phase g ph s)) = length (src_handlers s)" "src_peers (set_phase g ph s) = src_peers s"
  "src_crashed (set_phase g ph s) = src_crashed s" "uuid_at (set_phase g ph s) h = uuid_at s h"
  by (simp_all add: set_phase_def nth_list_update')

lemma phase_at_set_phase: "g < length (src_handlers s) \<Longrightarrow> phase_at (set_phase g ph s) h = (if h = g then ph else phase_at s h)"
  by (simp add: set_phase_def nth_list_update)

lemma set_phase_handlers:
  assumes "handlers_inv s" and "active s g"
  shows "handlers_inv (set_phase g ph s)"
    and "watched (set_phase g ph s) = (if ph = Watching then insert (uuid_at s g) (watched s) else watched s - {uuid_at s g})"
proof -
  have g: "g < length (src_handlers s)" using assms(2) by (simp add: active_def)
  have a: "active (set_phase g ph s) h \<Longrightarrow> active s h" for h
    using assms(2) by (auto simp: active_def phase_at_set_phase [OF g] split: if_splits)
  show "handlers_inv (set_phase g ph s)" using assms(1) a unfolding handlers_inv_def by (simp add: a)
  have u: "h = g" if "h < length (src_handlers s)" "phase_at s h = Watching" "uuid_at s h = uuid_at s g" for h
    using assms that unfolding handlers_inv_def active_def by blast
  show "watched (set_phase g ph s) = (if ph = Watching then insert (uuid_at s g) (watched s) else watched s - {uuid_at s g})"
  proof (rule set_eqI)
    fix x
    have "x \<in> watched (set_phase g ph s) \<longleftrightarrow> (\<exists>h<length (src_handlers s). uuid_at s h = x \<and> (if h = g then ph else phase_at s h) = Watching)"
      unfolding watched_def by (auto simp: phase_at_set_phase [OF g])
    moreover have "x \<in> watched s \<longleftrightarrow> (\<exists>h<length (src_handlers s). uuid_at s h = x \<and> phase_at s h = Watching)" unfolding watched_def by auto
    ultimately show "x \<in> watched (set_phase g ph s) \<longleftrightarrow> x \<in> (if ph = Watching then insert (uuid_at s g) (watched s) else watched s - {uuid_at s g})"
      using g u by (cases "x = uuid_at s g"; cases "ph = Watching") (simp_all, metis+)
  qed
qed

lemma add_handler_inv:
  assumes "source_inv s" and "\<not> list_ex (pending_handler u) (src_handlers s)"
  shows "source_inv (s\<lparr>src_known := k, src_handlers := src_handlers s @ [\<lparr>hd_uuid = u, hd_canceled = False, hd_phase = Starting\<rparr>]\<rparr>)"
proof -
  let ?s = "s\<lparr>src_known := k, src_handlers := src_handlers s @ [\<lparr>hd_uuid = u, hd_canceled = False, hd_phase = Starting\<rparr>]\<rparr>"
  have u: "uuid_at s g \<noteq> u" if "active s g" for g
    using assms(2) that by (auto simp: active_def list_ex_iff pending_handler_def)
  have old: "g < length (src_handlers s) \<Longrightarrow> src_handlers ?s ! g = src_handlers s ! g" for g by (simp add: nth_append)
  have new: "active ?s g \<longleftrightarrow> active s g \<or> g = length (src_handlers s)" for g
    by (auto simp: active_def nth_append less_Suc_eq)
  have "handlers_inv ?s" unfolding handlers_inv_def
  proof (intro allI impI)
    fix g h assume a: "active ?s g" "active ?s h" "uuid_at ?s g = uuid_at ?s h"
    then show "g = h" using assms(1) u unfolding new source_inv_def handlers_inv_def
      by (auto simp: nth_append active_def split: if_splits)
  qed
  moreover have "watched ?s = watched s" unfolding watched_def by (auto simp: nth_append less_Suc_eq)
  ultimately show ?thesis using assms(1) by (simp add: source_inv_def)
qed

lemma cancel_handler_inv:
  assumes "source_inv s"
  shows "source_inv (s\<lparr>src_known := k, src_handlers := (src_handlers s)[g := (src_handlers s ! g)\<lparr>hd_canceled := True\<rparr>]\<rparr>)"
proof -
  let ?s = "s\<lparr>src_known := k, src_handlers := (src_handlers s)[g := (src_handlers s ! g)\<lparr>hd_canceled := True\<rparr>]\<rparr>"
  have "uuid_at ?s h = uuid_at s h" "phase_at ?s h = phase_at s h" "length (src_handlers ?s) = length (src_handlers s)" for h
    by (simp_all add: nth_list_update')
  then have "handlers_inv ?s = handlers_inv s" "watched ?s = watched s" by (simp_all add: handlers_inv_def active_def watched_def)
  then show ?thesis using assms by (simp add: source_inv_def)
qed

lemma whois_inv:
  assumes "source_inv s" and "g < length (src_handlers s)" and "phase_at s g = Starting"
  shows "pr_uuid p = uuid_at s g \<Longrightarrow> source_inv (set_phase g Watching (s\<lparr>src_peers := AList.update (uuid_at s g) p (src_peers s)\<rparr>))"
    and "source_inv (set_phase g Ignored s)"
proof -
  have h: "handlers_inv s" "active s g" using assms by (auto simp: source_inv_def active_def)
  let ?s = "s\<lparr>src_peers := AList.update (uuid_at s g) p (src_peers s)\<rparr>"
  have h': "handlers_inv ?s" "active ?s g" "watched ?s = watched s" using h by (auto simp: handlers_inv_def active_def watched_def)
  show "source_inv (set_phase g Watching ?s)" if "pr_uuid p = uuid_at s g"
    using assms(1) that set_phase_handlers [OF h'(1,2)] h'(3) by (auto simp: source_inv_def update_conv' distinct_update)
  have "uuid_at s g \<notin> watched s"
  proof
    assume "uuid_at s g \<in> watched s"
    then obtain k where "k < length (src_handlers s)" "phase_at s k = Watching" "uuid_at s k = uuid_at s g" by (auto simp: watched_def)
    moreover from this have "k = g" using h unfolding handlers_inv_def active_def by blast
    ultimately show False using assms(3) by simp
  qed
  then show "source_inv (set_phase g Ignored s)" using assms(1) set_phase_handlers [OF h] by (auto simp: source_inv_def)
qed

lemma done_inv:
  assumes "source_inv s" and "g < length (src_handlers s)" and "phase_at s g = Watching"
  shows "map_of (src_peers s) (uuid_at s g) \<noteq> None"
    and "source_inv (set_phase g Removed (s\<lparr>src_peers := AList.delete (uuid_at s g) (src_peers s)\<rparr>))"
proof -
  have h: "handlers_inv s" "active s g" using assms by (auto simp: source_inv_def active_def)
  have "uuid_at s g \<in> watched s" using assms(2,3) by (auto simp: watched_def)
  then show "map_of (src_peers s) (uuid_at s g) \<noteq> None"
    using assms(1) unfolding source_inv_def by (metis domIff)
  let ?s = "s\<lparr>src_peers := AList.delete (uuid_at s g) (src_peers s)\<rparr>"
  have h': "handlers_inv ?s" "active ?s g" "watched ?s = watched s" using h by (auto simp: handlers_inv_def active_def watched_def)
  show "source_inv (set_phase g Removed ?s)"
    using assms(1) set_phase_handlers [OF h'(1,2)] h'(3) by (auto simp: source_inv_def delete_conv' distinct_delete split: if_splits)
qed

lemma calm_step_inv:
  assumes "source_inv s" and row: "\<forall>p. \<exists>r. row p = Return r" and "calm_step kind row ev s = Some s'"
  shows "source_inv s'"
proof -
  have st: "source_step kind row ev s = Some s'" and calm: "\<And>u. ev = Src_Add u \<Longrightarrow> \<not> list_ex (pending_handler u) (src_handlers s)"
    using assms(3) by (auto simp: calm_step_def live_source_def split: source_event.splits if_splits)
  show ?thesis
  proof (cases ev)
    case (Src_Add u)
    then show ?thesis using st add_handler_inv [OF assms(1) calm [OF Src_Add]] by (auto split: if_splits)
  next
    case (Src_Remove u)
    then show ?thesis using st cancel_handler_inv [OF assms(1)] by (auto split: option.splits)
  next
    case (Src_Whois g r)
    then show ?thesis using st whois_inv [OF assms(1), of g] by (auto split: if_splits outcome.splits)
  next
    case (Src_Done g)
    then have g: "g < length (src_handlers s)" "phase_at s g = Watching"
      and s': "s' = send_update row (set_phase g Removed (s\<lparr>src_peers := AList.delete (uuid_at s g) (src_peers s)\<rparr>))"
      using st done_inv(1) [OF assms(1), of g] by (auto simp: Let_def split: if_splits)
    show ?thesis unfolding s' using done_inv(2) [OF assms(1) g] send_update_same [OF row] by (metis source_inv_sent)
  qed (use st update_peer_inv [OF assms(1) row] in auto)
qed

lemma calm_reachable_inv:
  assumes "calm_reachable kind row s" and "\<forall>p. \<exists>r. row p = Return r"
  shows "source_inv s"
  using assms(1)
proof (rule calm_sys.invariant)
  show "source_inv s" if "s = NewDataSource" for s
    using that by (simp add: source_inv_def handlers_inv_def active_def watched_def NewDataSource_def)
qed (rule calm_step_inv [OF _ assms(2)])

section \<open>Properties\<close>


definition display_events :: "source_event list" where
  "display_events = [Src_Add ''b'', Src_Add ''a'', Src_Add ''c'', Src_Whois 0 (Return (Agent, ''1'')), Src_Whois 1 (Return (Agent, ''2'')),
     Src_Whois 2 (Return (Scheduler, ''3'')), Src_Health 0 Ready, Src_Remove ''b'', Src_Health 1 Degraded]"


definition reconnect :: "source_event list" where
  "reconnect = [Src_Add ''a'', Src_Whois 0 (Return (Agent, ''1'')), Src_Remove ''a'', Src_Add ''a'', Src_Whois 1 (Return (Agent, ''1'')), Src_Done 0]"


end
