(* ===== verification/Console.thy ===== *)
theory Console
  imports Strconv Types RingBuffer
begin

text \<open>
  What the programs write to a terminal: the colors and encoders of log lines
  (\<open>src/internal/zapkc/color.go\<close>, \<open>encoder.go\<close>), the time stamp of a line (\<open>src/internal/logkc/log.go\<close>)
  and the redrawn display of \<open>src/pkg/stream/stream.go\<close>. The names of log levels are those of the zap
  library and are arguments; the escape sequences of the display are the constructors of a type.
\<close>

section \<open>Colors\<close>

fun color_code :: "Color \<Rightarrow> int option" where
  "color_code Red = Some 31"
| "color_code Green = Some 32"
| "color_code Yellow = Some 33"
| "color_code Blue = Some 34"
| "color_code Magenta = Some 35"
| "color_code Cyan = Some 36"
| "color_code White = Some 37"
| "color_code NoColor = None"

definition ESC :: string where
  "ESC = [CHR 0x1B, CHR ''['']"

definition Color_Add :: "bool \<Rightarrow> Color \<Rightarrow> string \<Rightarrow> string" where
  "Color_Add UseColor c s =
     (case color_code c of
        None \<Rightarrow> s
      | Some n \<Rightarrow> if \<not> UseColor then s else ESC @ FormatInt n @ ''m'' @ s @ ESC @ ''0m'')"

text \<open>\<open>strconv.ParseBool\<close>\<close>

definition ParseBool :: "string \<Rightarrow> bool option" where
  "ParseBool s =
     (if s \<in> set [''1'', ''t'', ''T'', ''TRUE'', ''true'', ''True''] then Some True
      else if s \<in> set [''0'', ''f'', ''F'', ''FALSE'', ''false'', ''False''] then Some False
      else None)"

definition init_UseColor :: "string option \<Rightarrow> bool \<Rightarrow> bool" where
  "init_UseColor KUBECC_LOG_COLOR isTerminal =
     (case KUBECC_LOG_COLOR of
        Some value \<Rightarrow> (case ParseBool value of None \<Rightarrow> True | Some b \<Rightarrow> b)
      | None \<Rightarrow> isTerminal)"

datatype Level = DebugLevel | InfoLevel | WarnLevel | ErrorLevel | DPanicLevel | PanicLevel | FatalLevel | OtherLevel int

fun levelToColor :: "Level \<Rightarrow> Color option" where
  "levelToColor DebugLevel = Some Magenta"
| "levelToColor InfoLevel = Some Blue"
| "levelToColor WarnLevel = Some Yellow"
| "levelToColor (OtherLevel _) = None"
| "levelToColor _ = Some Red"

definition first_four :: "string \<Rightarrow> string outcome" where
  "first_four s = (if length s < 4 then Panic else Return (take 4 s))"

definition levelToCapitalColorString :: "bool \<Rightarrow> (Level \<Rightarrow> string) \<Rightarrow> Level \<Rightarrow> string outcome option" where
  "levelToCapitalColorString UseColor CapitalString l =
     map_option (\<lambda>c. case first_four (CapitalString l) of Return s \<Rightarrow> Return (Color_Add UseColor c s) | Fail e \<Rightarrow> Fail e | Panic \<Rightarrow> Panic)
       (levelToColor l)"

definition CapitalColorLevelEncoder :: "bool \<Rightarrow> (Level \<Rightarrow> string) \<Rightarrow> Level \<Rightarrow> string outcome" where
  "CapitalColorLevelEncoder UseColor CapitalString l =
     (case levelToCapitalColorString UseColor CapitalString l of
        Some s \<Rightarrow> s
      | None \<Rightarrow>
          (case first_four (CapitalString l) of
             Return s \<Rightarrow> Return (Color_Add UseColor Red s) | Fail e \<Rightarrow> Fail e | Panic \<Rightarrow> Panic))"

definition NameEncoder :: "bool \<Rightarrow> Color \<Rightarrow> string \<Rightarrow> bytes" where
  "NameEncoder UseColor color loggerName = ''['' @ Color_Add UseColor color loggerName @ '']''"

section \<open>Callers\<close>

text \<open>\<open>strings.LastIndexByte\<close>, and Go's \<open>copy\<close> to the part of a buffer from an index on.\<close>

definition LastIndexByte :: "string \<Rightarrow> char \<Rightarrow> int" where
  "LastIndexByte s c = (if c \<in> set s then int (length s - 1 - length (takeWhile (\<lambda>d. d \<noteq> c) (rev s))) else -1)"

definition copy_at :: "nat \<Rightarrow> bytes \<Rightarrow> bytes \<Rightarrow> bytes" where
  "copy_at i src buf = take i buf @ take (length buf - i) src @ drop (i + length src) buf"

definition filenameBufferLen :: nat where
  "filenameBufferLen = 16"

definition spaceBuffer :: bytes where
  "spaceBuffer = replicate filenameBufferLen (CHR '' '')"

text \<open>\<open>spaceBuffer[:n]\<close>: more than the buffer holds is a panic.\<close>

definition put_spaces :: "nat \<Rightarrow> bytes \<Rightarrow> bytes outcome" where
  "put_spaces n buf = (if length spaceBuffer < n then Panic else Return (copy_at 0 (take n spaceBuffer) buf))"

definition FormatEntryCaller :: "string \<Rightarrow> int \<Rightarrow> bytes outcome" where
  "FormatEntryCaller path maxLen =
     (if maxLen \<le> 0 then Panic
      else
        let m = nat maxLen; buf = replicate m (CHR 0x00); n = length path;
            slashIdx = LastIndexByte path (CHR ''/''); dotIdx = LastIndexByte path (CHR ''.'');
            basenameLen = (if slashIdx = -1 then n else n - nat slashIdx - 1)
        in if n \<le> m then
             (case put_spaces (m - n) buf of Return b \<Rightarrow> Return (copy_at (m - n) path b) | r \<Rightarrow> r)
           else if slashIdx \<noteq> -1 \<and> basenameLen + 2 \<le> m then
             (let start = m - basenameLen - 2
              in case put_spaces start buf of
                   Return b \<Rightarrow> Return (copy_at (start + 2) (drop (nat (slashIdx + 1)) path) (b[start := path ! 0, start + 1 := CHR ''/'']))
                 | r \<Rightarrow> r)
           else if basenameLen \<le> m then
             (case put_spaces (m - basenameLen) buf of
                Return b \<Rightarrow> Return (copy_at (m - basenameLen) (drop (nat (slashIdx + 1)) path) b) | r \<Rightarrow> r)
           else if dotIdx > int n - int basenameLen + 1 then
             (let b = copy_at 0 (take (nat (dotIdx - 1) - (n - basenameLen)) (drop (n - basenameLen) path)) buf;
                  k = int m - (int n - dotIdx)
              in if k - 1 < 0 then Panic else Return (copy_at (nat k) (drop (nat dotIdx) path) (b[nat (k - 1) := CHR ''+''])))
           else Return ((copy_at 0 path buf)[m - 1 := CHR ''+'']))"

text \<open>The encoder appends the caller and an empty string, which the console encoder separates by a space.\<close>

definition ShortCallerEncoder :: "string \<Rightarrow> bytes list outcome" where
  "ShortCallerEncoder TrimmedPath =
     (case FormatEntryCaller TrimmedPath (int filenameBufferLen) of Return b \<Rightarrow> Return [b, []] | Fail e \<Rightarrow> Fail e | Panic \<Rightarrow> Panic)"

section \<open>Time stamps\<close>

definition formatTime :: "int \<Rightarrow> int \<Rightarrow> bytes" where
  "formatTime startTime now =
     (let number = FormatInt (now - startTime)
      in if length number = 1 then ''[00'' @ number @ '']''
         else if length number = 2 then ''[0'' @ number @ '']''
         else if length number = 3 then ''['' @ number @ '']''
         else ''['' @ number @ '']'')"

section \<open>The redrawn display\<close>

datatype console_op = Op_Up nat | Op_Column0 | Op_Hide | Op_Write bytes | Op_Newline | Op_Show

text \<open>What a renderer writes in one round: the header, the writes to the contents, the footer. A console
  may refuse a write; the header and footer then panic, an error of the contents is dropped.\<close>

record frame =
  fr_Header :: bytes
  fr_Contents :: "bytes list"
  fr_Footer :: bytes

record log_stream =
  st_renderedLines :: nat
  st_contents :: RingLineBuffer
  st_ops :: "console_op list"

definition NewLogStream :: "int \<Rightarrow> log_stream" where
  "NewLogStream height = \<lparr>st_renderedLines = 0, st_contents = NewRingLineBuffer height, st_ops = []\<rparr>"

definition draw :: "bytes list \<Rightarrow> console_op list" where
  "draw ls = concat (map (\<lambda>l. [Op_Write l, Op_Newline]) ls)"

definition stream_round :: "(bytes \<Rightarrow> bool) \<Rightarrow> frame \<Rightarrow> log_stream \<Rightarrow> log_stream outcome" where
  "stream_round refused fr s =
     (case write_all (fr_Contents fr) (st_contents s) of
        Return contents \<Rightarrow>
          (let header = ScanLines (fr_Header fr); footer = ScanLines (fr_Footer fr); body = Foreach contents
           in if list_ex refused header \<or> list_ex refused footer then Panic
              else Return \<lparr>st_renderedLines = length header + length body + length footer, st_contents = contents,
                     st_ops = st_ops s @ [Op_Up (st_renderedLines s), Op_Column0, Op_Hide] @ draw header @ draw body @ draw footer @ [Op_Show]\<rparr>)
      | Fail e \<Rightarrow> Fail e
      | Panic \<Rightarrow> Panic)"

fun stream_rounds :: "(bytes \<Rightarrow> bool) \<Rightarrow> frame list \<Rightarrow> log_stream \<Rightarrow> log_stream outcome" where
  "stream_rounds refused [] s = Return s"
| "stream_rounds refused (fr # frs) s =
     (case stream_round refused fr s of Return s' \<Rightarrow> stream_rounds refused frs s' | Fail e \<Rightarrow> Fail e | Panic \<Rightarrow> Panic)"

section \<open>The caller column\<close>

lemma takeWhile_rev: "c \<notin> set ys \<Longrightarrow> takeWhile (\<lambda>d. d \<noteq> c) (rev ys @ c # zs) = rev ys"
  using takeWhile_append2 [of "rev ys" "\<lambda>d. d \<noteq> c" "c # zs"] by auto

lemma LastIndexByte_split:
  assumes "c \<in> set s"
  obtains xs ys where "s = xs @ c # ys" and "c \<notin> set ys" and "LastIndexByte s c = int (length xs)"
proof -
  obtain xs ys where s: "s = xs @ c # ys" "c \<notin> set ys" using split_list_last [OF assms] by blast
  have "takeWhile (\<lambda>d. d \<noteq> c) (rev s) = rev ys" using s by (simp add: takeWhile_rev)
  then show thesis using that s by (simp add: LastIndexByte_def)
qed

lemma LastIndexByte_bounds: "-1 \<le> LastIndexByte s c \<and> LastIndexByte s c < int (length s)"
  by (cases "c \<in> set s") (erule LastIndexByte_split, auto simp: LastIndexByte_def)

lemma LastIndexByte_absent: "LastIndexByte s c = -1 \<longleftrightarrow> c \<notin> set s"
  by (simp add: LastIndexByte_def)

lemma LastIndexByte_append:
  "LastIndexByte (xs @ ys) c = (if c \<in> set ys then int (length xs) + LastIndexByte ys c else LastIndexByte xs c)"
proof (cases "c \<in> set ys")
  case True
  then obtain as bs where ys: "ys = as @ c # bs" "c \<notin> set bs" "LastIndexByte ys c = int (length as)" by (rule LastIndexByte_split)
  then have "takeWhile (\<lambda>d. d \<noteq> c) (rev (xs @ ys)) = rev bs" by (simp add: takeWhile_rev)
  then show ?thesis using ys by (simp add: LastIndexByte_def)
next
  case False
  then have "takeWhile (\<lambda>d. d \<noteq> c) (rev ys @ rev xs) = rev ys @ takeWhile (\<lambda>d. d \<noteq> c) (rev xs)" by (intro takeWhile_append2) auto
  then show ?thesis using False by (simp add: LastIndexByte_def)
qed

text \<open>The reference: the name after the last slash, padding on the left, and what is kept of a caller.\<close>

definition basename :: "string \<Rightarrow> string" where
  "basename path = drop (nat (LastIndexByte path (CHR ''/'') + 1)) path"

definition pad :: "nat \<Rightarrow> string \<Rightarrow> string" where
  "pad m s = replicate (m - length s) (CHR '' '') @ s"

definition extension_length :: "string \<Rightarrow> nat" where
  "extension_length name = length name - nat (LastIndexByte name (CHR ''.''))"

definition has_stem :: "string \<Rightarrow> bool" where
  "has_stem name = (2 \<le> LastIndexByte name (CHR ''.''))"

definition short_caller :: "nat \<Rightarrow> string \<Rightarrow> string" where
  "short_caller m path =
     (let name = basename path; e = extension_length name
      in if length path \<le> m then pad m path
         else if CHR ''/'' \<in> set path \<and> length name + 2 \<le> m then pad m ([hd path, CHR ''/''] @ name)
         else if length name \<le> m then pad m name
         else if has_stem name then take (m - e - 1) name @ [CHR ''+''] @ drop (length name - e) name
         else take (m - 1) path @ [CHR ''+''])"

lemma basename_length:
  "(if LastIndexByte path (CHR ''/'') = -1 then length path else length path - nat (LastIndexByte path (CHR ''/'')) - 1) = length (basename path)"
  using LastIndexByte_bounds [of path "CHR ''/''"] by (auto simp: basename_def nat_add_distrib)

lemma basename_suffix: "drop (length path - length (basename path)) path = basename path"
proof -
  have "nat (LastIndexByte path (CHR ''/'') + 1) \<le> length path" using LastIndexByte_bounds [of path "CHR ''/''"] by linarith
  then show ?thesis by (simp add: basename_def)
qed

lemma dot_of_basename:
  "LastIndexByte path (CHR ''.'') > int (length path) - int (length (basename path)) + 1 \<longleftrightarrow> has_stem (basename path)"
  "has_stem (basename path) \<Longrightarrow>
     LastIndexByte path (CHR ''.'') = int (length path) - int (length (basename path)) + LastIndexByte (basename path) (CHR ''.'')"
proof -
  let ?b = "basename path"
  obtain xs where xs: "path = xs @ ?b" using basename_suffix by (metis append_take_drop_id)
  have n: "int (length path) = int (length xs) + int (length ?b)" using xs by (metis length_append of_nat_add)
  have i: "LastIndexByte path (CHR ''.'') = (if CHR ''.'' \<in> set ?b then int (length xs) + LastIndexByte ?b (CHR ''.'') else LastIndexByte xs (CHR ''.''))"
    using LastIndexByte_append [of xs ?b] xs by metis
  show "LastIndexByte path (CHR ''.'') > int (length path) - int (length ?b) + 1 \<longleftrightarrow> has_stem ?b"
    using i n LastIndexByte_bounds [of xs "CHR ''.''"] LastIndexByte_absent [of ?b "CHR ''.''"] by (auto simp: has_stem_def)
  show "LastIndexByte path (CHR ''.'') = int (length path) - int (length ?b) + LastIndexByte ?b (CHR ''.'')" if "has_stem ?b"
    using i n that LastIndexByte_absent [of ?b "CHR ''.''"] by (auto simp: has_stem_def split: if_splits)
qed

lemma put_spaces_fill: "n \<le> m \<Longrightarrow> n \<le> 16 \<Longrightarrow> put_spaces n (replicate m z) = Return (replicate n (CHR '' '') @ replicate (m - n) z)"
  by (simp add: put_spaces_def spaceBuffer_def filenameBufferLen_def copy_at_def min_def)

lemma copy_at_fill: "length xs = k \<Longrightarrow> length ys = length src \<Longrightarrow> copy_at k src (xs @ ys) = xs @ src"
  by (simp add: copy_at_def)

lemma short_buffer:
  assumes "length src \<ge> k" and "k < m" and "length ext = m - Suc k"
  shows "copy_at (Suc k) ext ((copy_at 0 src (replicate m z))[k := c]) = take k src @ [c] @ ext"
proof -
  let ?b = "copy_at 0 src (replicate m z)"
  have l: "length ?b = m" by (simp add: copy_at_def)
  have "take k ?b = take k src" using assms by (simp add: copy_at_def min_def)
  then have "?b[k := c] = (take k src @ [c]) @ drop (Suc k) ?b" using upd_conv_take_nth_drop [of k ?b c] assms(2) l by simp
  moreover have "length (take k src @ [c]) = Suc k" using assms by simp
  ultimately show ?thesis using copy_at_fill [of "take k src @ [c]" "Suc k" "drop (Suc k) ?b" ext] assms l by simp
qed

text \<open>The cases in which the name fits.\<close>

lemma FormatEntryCaller_fits:
  assumes "m \<le> 16" and "0 < m" and "length (basename path) \<le> m"
  shows "FormatEntryCaller path (int m) = Return (short_caller m path)"
proof (cases "length path \<le> m")
  case True
  then show ?thesis using assms(1,2)
    by (simp add: FormatEntryCaller_def short_caller_def Let_def put_spaces_fill copy_at_fill pad_def)
next
  case False
  define b where "b = length (basename path)"
  note unfold = FormatEntryCaller_def short_caller_def Let_def basename_length
  show ?thesis
  proof (cases "CHR ''/'' \<in> set path \<and> b + 2 \<le> m")
    case True
    define k where "k = m - b - 2"
    have m: "m - k = Suc (Suc b)" "m - b - 2 = k" using True by (auto simp: k_def)
    have "path ! 0 = hd path" using False by (cases path) auto
    then have "copy_at (k + 2) (basename path) ((replicate k (CHR '' '') @ replicate (Suc (Suc b)) (CHR 0x00))[k := path ! 0, k + 1 := CHR ''/'']) =
        replicate k (CHR '' '') @ [hd path, CHR ''/''] @ basename path"
      using copy_at_fill [of "replicate k (CHR '' '') @ [hd path, CHR ''/'']" "k + 2" "replicate b (CHR 0x00)" "basename path"]
      by (simp add: list_update_append b_def)
    moreover have "pad m ([hd path, CHR ''/''] @ basename path) = replicate k (CHR '' '') @ [hd path, CHR ''/''] @ basename path"
      using m(2) by (simp add: pad_def b_def)
    moreover have "put_spaces k (replicate m (CHR 0x00)) = Return (replicate k (CHR '' '') @ replicate (Suc (Suc b)) (CHR 0x00))"
      using put_spaces_fill [of k m] assms(1) m by (simp add: k_def)
    ultimately show ?thesis using True False assms
      unfolding unfold unfolding basename_def [symmetric] b_def [symmetric] LastIndexByte_absent nat_int m(2)
      by (simp del: replicate_Suc append_Cons append_Nil)
  next
    case short: False
    then show ?thesis using False assms
      unfolding unfold unfolding basename_def [symmetric] b_def [symmetric] LastIndexByte_absent nat_int
      by (auto simp: put_spaces_fill copy_at_fill pad_def b_def)
  qed
qed

lemma FormatEntryCaller_long:
  assumes "0 < m" and "m < length (basename path)"
  shows "FormatEntryCaller path (int m) =
    (if has_stem (basename path) \<and> m \<le> extension_length (basename path) then Panic else Return (short_caller m path))"
proof -
  let ?b = "basename path" and ?n = "length path"
  have le: "length ?b \<le> ?n" by (simp add: basename_def)
  have long: "\<not> ?n \<le> m" using le assms(2) by simp
  note unfold = FormatEntryCaller_def short_caller_def Let_def basename_length dot_of_basename(1)
  show ?thesis
  proof (cases "has_stem ?b")
    case True
    define d where "d = nat (LastIndexByte ?b (CHR ''.''))"
    have d: "LastIndexByte ?b (CHR ''.'') = int d" "2 \<le> d" "d < length ?b"
      using True LastIndexByte_bounds [of ?b "CHR ''.''"] by (auto simp: has_stem_def d_def)
    have dot: "LastIndexByte path (CHR ''.'') = int (?n - length ?b + d)" using dot_of_basename(2) [OF True] d(1) le by simp
    let ?e = "length ?b - d" and ?src = "take (d - 1) ?b"
    have e: "extension_length ?b = ?e" by (simp add: extension_length_def d_def)
    have src: "take (nat (int (?n - length ?b + d) - 1) - (?n - length ?b)) (drop (?n - length ?b) path) = ?src"
    proof -
      have "nat (int (x + d) - 1) - x = d - 1" for x using d(2) by simp
      then show ?thesis by (simp only: basename_suffix)
    qed
    have ext: "drop (?n - length ?b + d) path = drop d ?b" by (metis basename_suffix drop_drop add.commute)
    have k: "int m - (int ?n - int (?n - length ?b + d)) = int m - int ?e" using le d(3) by simp
    have "copy_at (Suc (m - ?e - 1)) (drop d ?b) ((copy_at 0 ?src (replicate m (CHR 0x00)))[m - ?e - 1 := CHR ''+'']) = take (m - ?e - 1) ?src @ [CHR ''+''] @ drop d ?b"
      if "?e < m" using that d(3) assms(2) by (intro short_buffer) auto
    moreover have "take (m - ?e - 1) ?src = take (m - ?e - 1) ?b" if "?e < m" using that d(3) assms(2) by (simp add: min_def)
    moreover have "nat (int m - int ?e) = Suc (m - ?e - 1)" "nat (int m - int ?e - 1) = m - ?e - 1" if "?e < m" using that by auto
    ultimately have short: "(if int m - int ?e - 1 < 0 then Panic else Return (copy_at (nat (int m - int ?e)) (drop d ?b)
          ((copy_at 0 ?src (replicate m (CHR 0x00)))[nat (int m - int ?e - 1) := CHR ''+'']))) =
        (if m \<le> ?e then Panic else Return (take (m - ?e - 1) ?b @ [CHR ''+''] @ drop d ?b))"
      by (cases "?e < m") auto
    have conds: "(int m \<le> 0) = False" "(?n \<le> m) = False" "(length ?b + 2 \<le> m) = False" "(length ?b \<le> m) = False"
      "(int ?n - int (length ?b) + 1 < int (?n - length ?b + d)) = True"
      using long assms le d(2) by auto
    have "FormatEntryCaller path (int m) =
       (if int m - (int ?n - int (?n - length ?b + d)) - 1 < 0 then Panic
        else Return (copy_at (nat (int m - (int ?n - int (?n - length ?b + d)))) (drop (?n - length ?b + d) path)
          ((copy_at 0 (take (nat (int (?n - length ?b + d) - 1) - (?n - length ?b)) (drop (?n - length ?b) path)) (replicate m (CHR 0x00)))
             [nat (int m - (int ?n - int (?n - length ?b + d)) - 1) := CHR ''+''])))"
      unfolding FormatEntryCaller_def Let_def basename_length dot nat_int by (simp only: conds simp_thms if_True if_False)
    also have "\<dots> = (if m \<le> ?e then Panic else Return (take (m - ?e - 1) ?b @ [CHR ''+''] @ drop d ?b))"
      unfolding src ext k by (rule short)
    finally show ?thesis using True long assms d(3) by (simp add: short_caller_def Let_def e)
  next
    case False
    have "copy_at 0 path (replicate m (CHR 0x00)) = take m path" using long by (simp add: copy_at_def)
    moreover have "(take m path)[m - 1 := CHR ''+''] = take (m - 1) path @ [CHR ''+'']"
      using long assms(1) by (cases m) (simp_all add: take_Suc_conv_app_nth list_update_append)
    ultimately show ?thesis using False long assms unfolding unfold by simp
  qed
qed

section \<open>Frames\<close>

lemma draw_append [simp]: "draw (xs @ ys) = draw xs @ draw ys"
  by (simp add: draw_def)

lemma stream_round_ok:
  assumes "ring_ok n (st_contents s)" and "\<not> list_ex refused (ScanLines (fr_Header fr) @ ScanLines (fr_Footer fr))"
  shows "\<exists>s'. stream_round refused fr s = Return s' \<and> ring_ok n (st_contents s') \<and>
    Foreach (st_contents s') = lastn n (Foreach (st_contents s) @ concat (map ScanLines (fr_Contents fr))) \<and>
    (let ls = ScanLines (fr_Header fr) @ Foreach (st_contents s') @ ScanLines (fr_Footer fr)
     in st_renderedLines s' = length ls \<and>
        st_ops s' = st_ops s @ [Op_Up (st_renderedLines s), Op_Column0, Op_Hide] @ draw ls @ [Op_Show])"
proof -
  obtain wb where "write_all (fr_Contents fr) (st_contents s) = Return wb" "ring_ok n wb"
    "Foreach wb = lastn n (Foreach (st_contents s) @ concat (map ScanLines (fr_Contents fr)))"
    using write_all_ok [OF assms(1)] by blast
  then show ?thesis using assms(2) by (simp add: stream_round_def Let_def)
qed

lemma stream_rounds_append:
  "stream_rounds refused (xs @ ys) s =
     (case stream_rounds refused xs s of Return s' \<Rightarrow> stream_rounds refused ys s' | Fail e \<Rightarrow> Fail e | Panic \<Rightarrow> Panic)"
  by (induction xs arbitrary: s) (auto split: outcome.splits)

lemma stream_rounds_ok:
  assumes "0 < height" and "\<forall>fr\<in>set frs. \<not> list_ex refused (ScanLines (fr_Header fr) @ ScanLines (fr_Footer fr))"
  shows "\<exists>s. stream_rounds refused frs (NewLogStream height) = Return s \<and> ring_ok (nat height) (st_contents s) \<and>
    Foreach (st_contents s) = lastn (nat height) (concat (map ScanLines (concat (map fr_Contents frs))))"
  using assms(2)
proof (induction frs rule: rev_induct)
  case Nil
  have "ring_ok (nat height) (NewRingLineBuffer height)" using assms(1) by (simp add: ring_ok_def NewRingLineBuffer_def)
  then show ?case by (simp add: NewLogStream_def) (simp add: NewRingLineBuffer_def Foreach_def LineCount_def lastn_def)
next
  case (snoc fr frs)
  then obtain s where s: "stream_rounds refused frs (NewLogStream height) = Return s" "ring_ok (nat height) (st_contents s)"
    "Foreach (st_contents s) = lastn (nat height) (concat (map ScanLines (concat (map fr_Contents frs))))" by auto
  from stream_round_ok [OF s(2), of refused fr] snoc.prems obtain s' where
    "stream_round refused fr s = Return s'" "ring_ok (nat height) (st_contents s')"
    "Foreach (st_contents s') = lastn (nat height) (Foreach (st_contents s) @ concat (map ScanLines (fr_Contents fr)))" by auto
  then show ?case using s by (simp add: stream_rounds_append lastn_append)
qed

section \<open>Properties\<close>

text \<open>The caller column. Up to the sixteen characters the encoder uses, the routine that fills a buffer
  gives the reference: the path if it fits, else its first letter and the file name, else the file name,
  all padded on the left, else the file name cut before its extension and marked with a plus. The result
  has the requested length. The only panic is an extension that fills the column.\<close>

theorem FormatEntryCaller_reference:
  assumes "0 < m" and "m \<le> 16"
  shows "FormatEntryCaller path (int m) =
      (if m < length (basename path) \<and> has_stem (basename path) \<and> m \<le> extension_length (basename path) then Panic
       else Return (short_caller m path)) \<and>
    (\<forall>out. FormatEntryCaller path (int m) = Return out \<longrightarrow> length out = m)"
proof -
  have e: "extension_length (basename path) \<le> length (basename path)" by (simp add: extension_length_def)
  have "length (short_caller m path) = m" if "\<not> (m < length (basename path) \<and> has_stem (basename path) \<and> m \<le> extension_length (basename path))"
    using that assms(1) e by (auto simp: short_caller_def Let_def pad_def)
  then show ?thesis
    using FormatEntryCaller_fits [OF assms(2,1), of path] FormatEntryCaller_long [OF assms(1), of path] by (cases "length (basename path) \<le> m") auto
qed

theorem FormatEntryCaller_reference_witness:
  "FormatEntryCaller ''zxxxxxx/yxxxxxxxxxxx.go:123'' 16 = Return ''yxxxxxxx+.go:123'' \<and>
   FormatEntryCaller ''zxxxxxx/yxx.go:123'' 16 = Return ''    z/yxx.go:123''"
proof -
  have "short_caller 16 ''zxxxxxx/yxxxxxxxxxxx.go:123'' = ''yxxxxxxx+.go:123''" "short_caller 16 ''zxxxxxx/yxx.go:123'' = ''    z/yxx.go:123''"
    "extension_length (basename ''zxxxxxx/yxxxxxxxxxxx.go:123'') = 7" "extension_length (basename ''zxxxxxx/yxx.go:123'') = 7" by code_simp+
  then show ?thesis
    using FormatEntryCaller_reference [of 16 "''zxxxxxx/yxxxxxxxxxxx.go:123''"] FormatEntryCaller_reference [of 16 "''zxxxxxx/yxx.go:123''"] by simp
qed



end
