(* ===== verification/GetCommands.thy ===== *)
theory GetCommands
  imports Monitor
begin

text \<open>
  The commands of \<open>kubecc get\<close> (\<open>src/pkg/kubecc/commands/get.go\<close>): clients of the queries of the monitor
  and of the routes of the scheduler. A client is the record of its calls; a call that is never answered
  is \<open>None\<close>. The clients here are those of the model of the monitor, whose queries wait for the lock of
  the providers. How protobuf messages print is decided by its libraries and is an argument. The checks of
  the arguments are those the commands name; the library that parses them calls nothing when they fail.
\<close>

section \<open>Clients\<close>

record 'p monitor_client =
  cl_GetMetric :: "Key \<Rightarrow> 'p Metric outcome option"
  cl_GetBuckets :: "string list outcome option"
  cl_GetKeys :: "string \<Rightarrow> Key list outcome option"
  cl_Whois :: "string \<Rightarrow> ProviderInfo outcome option"

definition server_client :: "'p codec \<Rightarrow> 'p MonitorServer \<Rightarrow> 'p monitor_client" where
  "server_client pb m =
     \<lparr>cl_GetMetric = (\<lambda>k. if mon_locked m then None else Some (GetMetric pb k m)),
      cl_GetBuckets = (if mon_locked m then None else Some (Return (GetBuckets m))),
      cl_GetKeys = (\<lambda>b. if mon_locked m then None else Some (GetKeys b m)),
      cl_Whois = (\<lambda>u. if mon_locked m then None else Some (Whois u m))\<rparr>"

text \<open>A context with a timeout ends the wait.\<close>

definition with_timeout :: "'a outcome option \<Rightarrow> 'a outcome" where
  "with_timeout r = (case r of None \<Rightarrow> Fail (Status DeadlineExceeded ''context deadline exceeded'') | Some x \<Rightarrow> x)"

section \<open>Output\<close>

datatype ('p, 'r) shown = Show_Provider ProviderInfo | Show_Metric "'p Metric" | Show_Value "'p anypb option" | Show_Routes 'r

record ('p, 'r) printer =
  pp_text :: "('p, 'r) shown \<Rightarrow> string"
  pp_marshal :: "('p, 'r) shown \<Rightarrow> string outcome"
  pp_format :: "('p, 'r) shown \<Rightarrow> string"
  pp_color :: "Color \<Rightarrow> string \<Rightarrow> string"

datatype cli_out = Printed string | Logged "(string \<times> string) list" go_error | Fatal go_error

datatype ending = Ended | Hung | Crashed

type_synonym command_run = "cli_out list \<times> ending"

definition format_one :: "string \<Rightarrow> ('p, 'r) printer \<Rightarrow> ('p, 'r) shown \<Rightarrow> cli_out list" where
  "format_one outputKind pp msg =
     (if outputKind = ''text'' then [Printed (pp_text pp msg)]
      else if outputKind = ''json'' then
        (case pp_marshal pp msg of Return data \<Rightarrow> [Printed data] | Fail e \<Rightarrow> [Logged [] e] | Panic \<Rightarrow> [])
      else if outputKind = ''jsonfmt'' then [Printed (pp_format pp msg)]
      else [])"

definition formatOutput :: "string \<Rightarrow> ('p, 'r) printer \<Rightarrow> ('p, 'r) shown list \<Rightarrow> cli_out list" where
  "formatOutput outputKind pp msgs = concat (map (format_one outputKind pp) msgs)"

section \<open>Providers\<close>

definition providers_url :: string where
  "providers_url = ''type.googleapis.com/metrics.Providers''"

definition health_url :: string where
  "health_url = ''type.googleapis.com/metrics.Health''"

text \<open>The error of \<open>UnmarshalNew\<close> comes with a nil message, on which the type assertion panics, as it does on
  a message of another type.\<close>

definition getProviders :: "'p codec \<Rightarrow> 'p monitor_client \<Rightarrow> (string \<times> ProviderInfo) list outcome option" where
  "getProviders pb c =
     (case cl_GetMetric c \<lparr>key_Bucket = MetaBucket, key_Name = providers_url\<rparr> of
        None \<Rightarrow> None
      | Some (Return metric) \<Rightarrow>
          (case Option.bind (metric_Value metric) (pb_UnmarshalNew pb) of
             Some (Msg_Providers items) \<Rightarrow> Some (Return items)
           | _ \<Rightarrow> Some Panic)
      | Some (Fail e) \<Rightarrow> Some (Fail e)
      | Some Panic \<Rightarrow> Some Panic)"

definition filterProviders :: "(string \<times> ProviderInfo) list \<Rightarrow> Component \<Rightarrow> ProviderInfo list" where
  "filterProviders providers c = filter (\<lambda>p. pi_Component p = c) (map snd providers)"

text \<open>What the commands that list providers share. The connection of the client is the result of \<open>Dial\<close>.\<close>

definition show_providers ::
    "'p codec \<Rightarrow> ('p, 'r) printer \<Rightarrow> string \<Rightarrow> go_error option \<Rightarrow> 'p monitor_client \<Rightarrow> ((string \<times> ProviderInfo) list \<Rightarrow> ProviderInfo list) \<Rightarrow> string list \<Rightarrow> command_run" where
  "show_providers pb pp outputKind dialErr c select args =
     (case dialErr of
        Some e \<Rightarrow> ([Fatal e], Ended)
      | None \<Rightarrow>
          (case getProviders pb c of
             None \<Rightarrow> ([], Hung)
           | Some Panic \<Rightarrow> ([], Crashed)
           | Some (Fail e) \<Rightarrow> ([Logged [] e], Ended)
           | Some (Return providers) \<Rightarrow>
               (if args = [] then formatOutput outputKind pp (map Show_Provider (select providers)) else [], Ended)))"

definition getAgents where
  "getAgents pb pp k d c = show_providers pb pp k d c (\<lambda>ps. filterProviders ps Agent)"

definition getConsumerds where
  "getConsumerds pb pp k d c = show_providers pb pp k d c (\<lambda>ps. filterProviders ps Consumerd)"

definition getSchedulers where
  "getSchedulers pb pp k d c = show_providers pb pp k d c (\<lambda>ps. filterProviders ps Scheduler)"

definition getMonitors where
  "getMonitors pb pp k d c = show_providers pb pp k d c (\<lambda>ps. filterProviders ps Monitor)"

definition getCaches where
  "getCaches pb pp k d c = show_providers pb pp k d c (\<lambda>ps. filterProviders ps Cache)"

definition getComponents where
  "getComponents pb pp k d c = show_providers pb pp k d c (map snd)"

section \<open>Metrics\<close>

fun parse_keys :: "string list \<Rightarrow> Key list + string \<times> go_error" where
  "parse_keys [] = Inl []"
| "parse_keys (arg # args) =
     (case ParseKey arg of
        Return k \<Rightarrow> (case parse_keys args of Inl ks \<Rightarrow> Inl (k # ks) | Inr e \<Rightarrow> Inr e)
      | Fail e \<Rightarrow> Inr (arg, e)
      | Panic \<Rightarrow> Inr (arg, Error ''panic''))"

definition show_metric :: "('p, 'r) printer \<Rightarrow> string \<Rightarrow> 'p monitor_client \<Rightarrow> Key \<Rightarrow> cli_out list" where
  "show_metric pp outputKind c key =
     (case with_timeout (cl_GetMetric c key) of
        Return metric \<Rightarrow> formatOutput outputKind pp [Show_Metric metric]
      | Fail e \<Rightarrow> [Logged [(''key'', Canonical key)] e]
      | Panic \<Rightarrow> [])"

definition getMetrics ::
    "('p, 'r) printer \<Rightarrow> string \<Rightarrow> go_error option \<Rightarrow> 'p monitor_client \<Rightarrow> string list \<Rightarrow> command_run" where
  "getMetrics pp outputKind dialErr c args =
     (case dialErr of
        Some e \<Rightarrow> ([Fatal e], Ended)
      | None \<Rightarrow>
          (case parse_keys args of
             Inr (arg, e) \<Rightarrow> ([Logged [(''key'', arg)] e], Ended)
           | Inl keys \<Rightarrow> (concat (map (show_metric pp outputKind c) keys), Ended)))"

definition getBuckets :: "go_error option \<Rightarrow> 'p monitor_client \<Rightarrow> command_run" where
  "getBuckets dialErr c =
     (case dialErr of
        Some e \<Rightarrow> ([Fatal e], Ended)
      | None \<Rightarrow>
          (case with_timeout (cl_GetBuckets c) of
             Return buckets \<Rightarrow> (map Printed buckets, Ended)
           | Fail e \<Rightarrow> ([Logged [] e], Ended)
           | Panic \<Rightarrow> ([], Ended)))"

definition getKeys :: "go_error option \<Rightarrow> 'p monitor_client \<Rightarrow> string \<Rightarrow> command_run" where
  "getKeys dialErr c arg =
     (case dialErr of
        Some e \<Rightarrow> ([Fatal e], Ended)
      | None \<Rightarrow>
          (case with_timeout (cl_GetKeys c arg) of
             Return keys \<Rightarrow> (map (Printed \<circ> Canonical) keys, Ended)
           | Fail e \<Rightarrow> ([Logged [] e], Ended)
           | Panic \<Rightarrow> ([], Ended)))"

definition getRoutes :: "('p, 'r) printer \<Rightarrow> string \<Rightarrow> go_error option \<Rightarrow> 'r outcome option \<Rightarrow> command_run" where
  "getRoutes pp outputKind dialErr answer =
     (case dialErr of
        Some e \<Rightarrow> ([Fatal e], Ended)
      | None \<Rightarrow>
          (case with_timeout answer of
             Return routes \<Rightarrow> (formatOutput outputKind pp [Show_Routes routes], Ended)
           | Fail e \<Rightarrow> ([Logged [] e], Ended)
           | Panic \<Rightarrow> ([], Ended)))"

section \<open>Health\<close>

text \<open>The calls in the loops use the context of the program, which has no timeout. A run of the loops stops at
  a call that is not answered.\<close>

fun each :: "('a \<Rightarrow> command_run) \<Rightarrow> 'a list \<Rightarrow> command_run" where
  "each f [] = ([], Ended)"
| "each f (x # xs) =
     (case f x of
        (out, Ended) \<Rightarrow> (case each f xs of (out', r) \<Rightarrow> (out @ out', r))
      | (out, r) \<Rightarrow> (out, r))"

definition health_of_key :: "('p, 'r) printer \<Rightarrow> string \<Rightarrow> 'p monitor_client \<Rightarrow> string \<Rightarrow> Key \<Rightarrow> command_run" where
  "health_of_key pp outputKind c bucket key =
     (if key_Name key \<noteq> health_url then ([], Ended)
      else case cl_GetMetric c key of
        None \<Rightarrow> ([], Hung)
      | Some (Fail e) \<Rightarrow> ([Logged [(''key'', Canonical key)] e], Ended)
      | Some Panic \<Rightarrow> ([], Crashed)
      | Some (Return metric) \<Rightarrow>
          (case cl_Whois c bucket of
             None \<Rightarrow> ([], Hung)
           | Some (Fail e) \<Rightarrow> ([Logged [(''uuid'', bucket)] e], Ended)
           | Some Panic \<Rightarrow> ([], Crashed)
           | Some (Return whois) \<Rightarrow>
               (Printed (pp_color pp (Component_Color (pi_Component whois)) (Component_Name (pi_Component whois)) @ '' ['' @ pi_UUID whois @ '']'') #
                formatOutput outputKind pp [Show_Value (metric_Value metric)], Ended)))"

definition health_of_bucket :: "('p, 'r) printer \<Rightarrow> string \<Rightarrow> 'p monitor_client \<Rightarrow> string \<Rightarrow> command_run" where
  "health_of_bucket pp outputKind c bucket =
     (case cl_GetKeys c bucket of
        None \<Rightarrow> ([], Hung)
      | Some (Fail e) \<Rightarrow> ([Logged [] e], Ended)
      | Some Panic \<Rightarrow> ([], Crashed)
      | Some (Return keys) \<Rightarrow> each (health_of_key pp outputKind c bucket) keys)"

definition getHealth :: "('p, 'r) printer \<Rightarrow> string \<Rightarrow> go_error option \<Rightarrow> 'p monitor_client \<Rightarrow> command_run" where
  "getHealth pp outputKind dialErr c =
     (case dialErr of
        Some e \<Rightarrow> ([Fatal e], Ended)
      | None \<Rightarrow>
          (case with_timeout (cl_GetBuckets c) of
             Return buckets \<Rightarrow> each (health_of_bucket pp outputKind c) buckets
           | Fail e \<Rightarrow> ([Logged [] e], Ended)
           | Panic \<Rightarrow> ([], Ended)))"

section \<open>The directory of providers\<close>

text \<open>The clients of the monitor post to the bucket of their own identity. Under this, the meta bucket holds
  the providers that are connected.\<close>

definition own_step :: "'p codec \<Rightarrow> 'p monitor_event \<Rightarrow> 'p MonitorServer \<Rightarrow> 'p MonitorServer option" where
  "own_step pb ev m =
     (case ev of
        Mon_Post u metric \<Rightarrow> if key_Bucket (metric_Key metric) = u then mon_step pb ev m else None
      | _ \<Rightarrow> mon_step pb ev m)"

inductive own_reachable :: "'p codec \<Rightarrow> 'p MonitorServer \<Rightarrow> bool" for pb where
  own_init: "NewMonitorServer pb uuid = Return m \<Longrightarrow> CHR ''.'' \<notin> set uuid \<Longrightarrow> uuid \<noteq> MetaBucket \<Longrightarrow> own_reachable pb m"
| own_next: "own_reachable pb m \<Longrightarrow> own_step pb ev m = Some m' \<Longrightarrow> own_reachable pb m'"

interpretation own_sys: transition_system "own_step pb" "\<lambda>m. \<exists>uuid. NewMonitorServer pb uuid = Return m \<and> CHR ''.'' \<notin> set uuid \<and> uuid \<noteq> MetaBucket" "own_reachable pb" for pb
proof (unfold_locales, goal_cases)
  case (3 s P)
  then show ?case by (induction rule: own_reachable.induct) blast+
qed (auto intro: own_init own_next)

lemma own_step_mon: "own_step pb ev m = Some m' \<Longrightarrow> mon_step pb ev m = Some m'"
  by (auto simp: own_step_def split: monitor_event.splits if_splits)

lemma own_reachable_mon: "own_reachable pb m \<Longrightarrow> mon_reachable pb m"
  by (induction rule: own_reachable.induct) (auto intro: mon_init mon_next own_step_mon)

text \<open>What the commands rely on of the codec: the name of the type of the list of providers.\<close>

definition url_ok :: "'p codec \<Rightarrow> bool" where
  "url_ok pb = (\<forall>ps. any_TypeUrl (pb_New pb (Msg_Providers ps)) = providers_url)"

abbreviation providers_key :: Key where
  "providers_key \<equiv> \<lparr>key_Bucket = MetaBucket, key_Name = providers_url\<rparr>"

definition wf_providers :: "'p MonitorServer \<Rightarrow> bool" where
  "wf_providers m \<longleftrightarrow> distinct (map fst (mon_providers m)) \<and> (\<forall>(u, i)\<in>set (mon_providers m). pi_UUID i = u)"

definition directory_inv :: "'p MonitorServer \<Rightarrow> bool" where
  "directory_inv m \<longleftrightarrow> wf_providers m \<and> mon_value m providers_key = Some (Msg_Providers (mon_providers m))"

lemma post_other_bucket:
  "key_Bucket key \<noteq> key_Bucket (metric_Key metric) \<Longrightarrow> mon_value (snd (post pb metric m)) key = mon_value m key"
  by (auto simp: post_def Let_def set_store_value split: option.splits prod.splits)

lemma post_error: "post pb metric m = (Some e, m') \<Longrightarrow> m' = m"
  by (auto simp: post_def Let_def split: option.splits prod.splits if_splits)

lemma providersUpdated_directory:
  assumes "codec_ok pb" and "url_ok pb" and "wf_providers m" and "providersUpdated pb m = Return m'"
  shows "directory_inv m'"
proof -
  let ?v = "Msg_Providers (mon_providers m)"
  let ?metric = "\<lparr>metric_Key = providers_key, metric_Value = Some (pb_New pb ?v)\<rparr>"
  have p: "post pb ?metric m = (None, m')"
    using assms(2,4) by (auto simp: providersUpdated_def Let_def url_ok_def split: prod.splits option.splits)
  then obtain bk where bk: "map_of (mon_buckets m) MetaBucket = Some bk" by (auto simp: post_def Let_def split: option.splits)
  let ?r = "mem_CAS providers_url ?v (bk_store bk)"
  have m': "m' = (if fst ?r then notify providers_key (pb_New pb ?v) (incMetricsPostedTotal (set_store MetaBucket (snd ?r) m)) else m)"
    using p bk assms(1) by (auto simp: post_def Let_def codec_ok_def split: prod.splits if_splits)
  have "mem_Get (bk_store bk) providers_url = Some ?v" if "\<not> fst ?r"
    using that by (auto simp: mem_CAS_def mem_Get_def split: option.splits if_splits)
  moreover have "mon_value m providers_key = mem_Get (bk_store bk) providers_url" using bk by (simp add: mon_value_def)
  ultimately have "mon_value m' providers_key = Some ?v" by (auto simp: m' set_store_value [OF bk] mem.get_cas)
  then show ?thesis using assms(3) post_frame(1) [of pb ?metric m] p by (simp add: directory_inv_def wf_providers_def)
qed

lemma directory_inv_frame [simp]:
  "directory_inv (m\<lparr>mon_locked := b\<rparr>) = directory_inv m" "directory_inv (m\<lparr>mon_listeners := ls\<rparr>) = directory_inv m"
  "directory_inv (m\<lparr>mon_status := st\<rparr>) = directory_inv m"
  by (simp_all add: directory_inv_def wf_providers_def mon_value_def)

lemma directory_inv_post:
  assumes "directory_inv m" and "key_Bucket (metric_Key metric) \<noteq> MetaBucket"
  shows "directory_inv (snd (post pb metric m))"
  using assms post_other_bucket [of providers_key metric] by (simp add: directory_inv_def wf_providers_def post_frame)

lemma wf_providers_update:
  "wf_providers m \<Longrightarrow> mon_providers m' = AList.update u \<lparr>pi_UUID = u, pi_Component = c, pi_Address = a\<rparr> (mon_providers m) \<Longrightarrow> wf_providers m'"
  using alist_update_subset [of u "\<lparr>pi_UUID = u, pi_Component = c, pi_Address = a\<rparr>" "mon_providers m"]
  by (auto simp: wf_providers_def distinct_update)

lemma wf_providers_delete: "wf_providers m \<Longrightarrow> mon_providers m' = AList.delete u (mon_providers m) \<Longrightarrow> wf_providers m'"
  using distinct_delete [of "mon_providers m" u] by (auto simp: wf_providers_def AList.delete_eq)

lemma Stream_begin_directory:
  assumes "codec_ok pb" and "url_ok pb" and "directory_inv m" and "Stream_begin pb e p u c m = Some (r, m')" and "r \<noteq> Panic"
  shows "directory_inv m'"
proof -
  have "wf_providers m" using assms(3) by (simp add: directory_inv_def)
  note upd = providersUpdated_directory [OF assms(1,2) wf_providers_update [OF this]]
  show ?thesis
    using assms(3-5) by (auto simp: Stream_begin_def Let_def split: option.splits outcome.splits if_splits) (erule upd [rotated], simp)
qed

lemma Stream_end_directory:
  assumes "codec_ok pb" and "url_ok pb" and "directory_inv m" and "Stream_end pb u m = Some (Return m')"
  shows "directory_inv m'"
proof -
  have "wf_providers m" using assms(3) by (simp add: directory_inv_def)
  note upd = providersUpdated_directory [OF assms(1,2) wf_providers_delete [OF this]]
  show ?thesis using assms(4) by (auto simp: Stream_end_def Let_def split: if_splits intro: upd [rotated])
qed

lemma own_step_directory:
  assumes "codec_ok pb" and "url_ok pb" and "mon_inv pb m" and "directory_inv m" and "own_step pb ev m = Some m'"
  shows "directory_inv m'"
proof (cases ev)
  case (Mon_Post u metric)
  then have u: "key_Bucket (metric_Key metric) = u" "u \<in> set (mon_streams m)" and r: "Stream_recv pb u metric m = Some (Return m')"
    using assms(5) by (auto simp: own_step_def returned_def split: if_splits option.splits outcome.splits)
  then have "u \<noteq> MetaBucket" using assms(3) unfolding mon_inv_def providers_inv_def by blast
  then have d: "directory_inv (snd (post pb metric m))" using directory_inv_post [OF assms(4)] u by blast
  show ?thesis
    using r d Stream_end_directory [OF assms(1,2) d] by (auto simp: Stream_recv_def split: if_splits prod.splits option.splits)
next
  case (Mon_Connect e p u c)
  then show ?thesis using assms(5) Stream_begin_directory [OF assms(1,2,4)]
    by (auto simp: own_step_def split: if_splits option.splits prod.splits outcome.splits)
next
  case (Mon_Disconnect u)
  then show ?thesis using assms(5) Stream_end_directory [OF assms(1,2,4)]
    by (auto simp: own_step_def returned_def split: if_splits option.splits outcome.splits)
next
  case (Mon_Listen e i n key)
  then show ?thesis using assms(4,5) by (auto simp: own_step_def Listen_begin_def Let_def split: if_splits option.splits)
next
  case (Mon_ListenEnd c k)
  then show ?thesis using assms(4,5) by (auto simp: own_step_def Listen_end_def split: if_splits option.splits)
next
  case (Mon_Break k)
  then show ?thesis using assms(4,5) by (auto simp: own_step_def)
qed (use assms(3-5) directory_inv_post [OF assms(4)] in
    \<open>auto simp: own_step_def unless_locked_def mon_postTotals_def postListeners_def postProviders_def postHealthUpdates_def postInternal_def
       Let_def mon_inv_def providers_inv_def split: if_splits\<close>)

lemma own_reachable_directory:
  assumes "codec_ok pb" and "url_ok pb" and "own_reachable pb m"
  shows "directory_inv m"
  using assms(3)
proof (induction rule: own_reachable.induct)
  case (own_init uuid m)
  have "directory_inv m2" if "providersUpdated pb m1 = Return m2"
    "mon_providers m1 = [(uuid, \<lparr>pi_UUID = uuid, pi_Component = Monitor, pi_Address = ''0.0.0.0''\<rparr>)]" for m1 m2
    using providersUpdated_directory [OF assms(1,2) _ that(1)] that(2) by (simp add: wf_providers_def)
  with own_init(1) show ?case by (auto simp: NewMonitorServer_def Let_def split: outcome.splits)
next
  case (own_next m ev m')
  then show ?case using own_step_directory [OF assms(1,2)] mon_reachable_inv [OF assms(1) own_reachable_mon] by blast
qed

lemma getProviders_directory:
  assumes "codec_ok pb" and "directory_inv m" and "\<not> mon_locked m"
  shows "getProviders pb (server_client pb m) = Some (Return (mon_providers m))"
proof -
  have "GetMetric pb providers_key m = Return \<lparr>metric_Key = providers_key, metric_Value = Some (pb_New pb (Msg_Providers (mon_providers m)))\<rparr>"
    using assms(2) by (auto simp: directory_inv_def GetMetric_def mon_value_def split: option.splits)
  then show ?thesis using assms(1,3) by (simp add: getProviders_def server_client_def codec_ok_def)
qed

lemma formatOutput_text: "formatOutput ''text'' pp msgs = map (Printed \<circ> pp_text pp) msgs"
  by (induction msgs) (auto simp: formatOutput_def format_one_def)

lemma Whois_providers: "wf_providers m \<Longrightarrow> Whois u m = Return i \<longleftrightarrow> (u, i) \<in> set (mon_providers m)"
proof -
  assume wf: "wf_providers m"
  have "\<lparr>pi_UUID = u, pi_Component = pi_Component x, pi_Address = pi_Address x\<rparr> = x" if "map_of (mon_providers m) u = Some x" for x
    using map_of_SomeD [OF that] wf by (cases x) (auto simp: wf_providers_def)
  moreover have "(u, i) \<in> set (mon_providers m) \<longleftrightarrow> map_of (mon_providers m) u = Some i" using wf by (simp add: wf_providers_def)
  ultimately show ?thesis by (cases "map_of (mon_providers m) u") (simp_all add: Whois_def)
qed

text \<open>The calls without a timeout: a monitor whose lock is held leaves the lists of providers waiting, and the
  commands with a timeout report it.\<close>

lemma locked_monitor:
  assumes "mon_locked m"
  shows "show_providers pb pp k None (server_client pb m) select args = ([], Hung)"
    and "ParseKey arg = Return key \<Longrightarrow> getMetrics pp k None (server_client pb m) [arg] =
      ([Logged [(''key'', Canonical key)] (Status DeadlineExceeded ''context deadline exceeded'')], Ended)"
  using assms by (simp_all add: show_providers_def getProviders_def server_client_def getMetrics_def show_metric_def with_timeout_def)

section \<open>Properties\<close>

text \<open>C25: \<open>kubecc get\<close> lists who is connected. Whatever the monitor went through while its clients posted to
  their own buckets, as long as its lock is free \<open>get components\<close> prints exactly the monitor itself and the
  providers with an open stream, each once and as \<open>Whois\<close> describes it, and \<open>get agents\<close> those of them that
  are agents.\<close>

theorem get_lists_connected:
  assumes "codec_ok pb" and "url_ok pb" and "own_reachable pb m" and "\<not> mon_locked m"
  shows "\<exists>infos. set infos = {i. \<exists>u. Whois u m = Return i} \<and>
    distinct (map pi_UUID infos) \<and> set (map pi_UUID infos) = insert (mon_uuid m) (set (mon_streams m)) \<and>
    getComponents pb pp ''text'' None (server_client pb m) [] = (map (\<lambda>i. Printed (pp_text pp (Show_Provider i))) infos, Ended) \<and>
    getAgents pb pp ''text'' None (server_client pb m) [] =
      (map (\<lambda>i. Printed (pp_text pp (Show_Provider i))) (filter (\<lambda>i. pi_Component i = Agent) infos), Ended)"
proof -
  let ?ps = "mon_providers m"
  have d: "directory_inv m" by (rule own_reachable_directory [OF assms(1-3)])
  then have wf: "wf_providers m" by (simp add: directory_inv_def)
  have uuids: "map pi_UUID (map snd ?ps) = map fst ?ps" using wf by (auto simp: wf_providers_def)
  have "dom (map_of ?ps) = insert (mon_uuid m) (set (mon_streams m))"
    using mon_reachable_inv [OF assms(1) own_reachable_mon [OF assms(3)]] unfolding mon_inv_def providers_inv_def by blast
  then have "set (map fst ?ps) = insert (mon_uuid m) (set (mon_streams m))" by (simp add: dom_map_of_conv_image_fst)
  moreover have "set (map snd ?ps) = {i. \<exists>u. Whois u m = Return i}" unfolding Whois_providers [OF wf] by force
  moreover have "distinct (map fst ?ps)" using wf by (simp add: wf_providers_def)
  ultimately show ?thesis
    unfolding getComponents_def getAgents_def show_providers_def getProviders_directory [OF assms(1) d assms(4)]
    by (intro exI [of _ "map snd ?ps"]) (simp add: uuids formatOutput_text filterProviders_def del: map_map, simp add: comp_def)
qed

definition url_codec :: "message codec" where
  "url_codec = plain_codec\<lparr>pb_New := (\<lambda>msg. \<lparr>any_TypeUrl = (case msg of Msg_Providers _ \<Rightarrow> providers_url | _ \<Rightarrow> type_url msg), any_Value = msg\<rparr>)\<rparr>"

definition get_events :: "message monitor_event list" where
  "get_events = [Mon_Connect None (Some (TCPAddr ''10.0.0.1'')) ''a1'' Agent, Mon_Connect None (Some (TCPAddr ''10.0.0.2'')) ''c1'' Consumerd,
     Mon_Connect None (Some (TCPAddr ''10.0.0.3'')) ''a2'' Agent, Mon_Disconnect ''a1'']"

definition uuid_printer :: "(message, unit) printer" where
  "uuid_printer = \<lparr>pp_text = (\<lambda>s. case s of Show_Provider i \<Rightarrow> pi_UUID i | _ \<Rightarrow> []), pp_marshal = (\<lambda>_. Panic), pp_format = (\<lambda>_. []), pp_color = (\<lambda>_. id)\<rparr>"

theorem get_lists_connected_witness:
  "\<exists>m uuids. own_reachable url_codec m \<and> \<not> mon_locked m \<and> distinct uuids \<and> set uuids = {''mon'', ''a2'', ''c1''} \<and>
     getComponents url_codec uuid_printer ''text'' None (server_client url_codec m) [] = (map Printed uuids, Ended)"
proof -
  have ok: "codec_ok url_codec" "url_ok url_codec" by (simp_all add: codec_ok_def url_ok_def url_codec_def plain_codec_def)
  have "(case NewMonitorServer url_codec ''mon'' of Return m0 \<Rightarrow>
      map_option (\<lambda>m. (mon_streams m, mon_uuid m, mon_locked m)) (run_events (own_step url_codec) get_events m0) | _ \<Rightarrow> None) =
    Some ([''a2'', ''c1''], ''mon'', False)" by code_simp
  then obtain m0 m where m0: "NewMonitorServer url_codec ''mon'' = Return m0" and m: "run_events (own_step url_codec) get_events m0 = Some m"
    and f: "mon_streams m = [''a2'', ''c1'']" "mon_uuid m = ''mon''" "\<not> mon_locked m"
    by (cases "NewMonitorServer url_codec ''mon''") auto
  have "own_reachable url_codec m0" by (rule own_init [OF m0]) (simp_all add: MetaBucket_def)
  then have r: "own_reachable url_codec m" using m by (rule own_sys.run_reach)
  obtain infos where "distinct (map pi_UUID infos)" "set (map pi_UUID infos) = insert (mon_uuid m) (set (mon_streams m))"
    "getComponents url_codec uuid_printer ''text'' None (server_client url_codec m) [] =
       (map (\<lambda>i. Printed (pp_text uuid_printer (Show_Provider i))) infos, Ended)"
    using get_lists_connected [OF ok r f(3), of uuid_printer] by blast
  then show ?thesis using r f(3) unfolding f(1,2)
    by (intro exI [of _ m] exI [of _ "map pi_UUID infos"]) (simp add: uuid_printer_def comp_def)
qed

end
