(* ===== verification/Components.thy ===== *)
theory Components
  imports Config AgentServer CacheServer ChainStorage Operator
begin

text \<open>
  The start of the programs: \<open>kubecc run\<close> (\<open>src/pkg/kubecc/components/run.go\<close>), the main functions of the
  components beside it, the usage managers of \<open>src/pkg/consumerd/queue.go\<close> and the environment of
  \<open>src/pkg/cluster/downward_api.go\<close>. A main function is modelled from its configuration up to the point
  where its server runs: what it dials and listens on, in order, how it ends when one of them fails, and
  the settings it passes on. Logs and tracing are left out. The results of dialing and listening are
  arguments; with an error the connection is nil.
\<close>

section \<open>Main functions\<close>

datatype 'a main_result = Main_Panic | Main_Fatal string go_error | Main_Runs 'a

record network =
  nw_Dial :: "string \<Rightarrow> bool \<Rightarrow> go_error option"
  nw_Listen :: "string \<Rightarrow> go_error option"

record conn =
  cn_target :: string
  cn_tls :: bool

text \<open>Two ways of dialing: the error is checked at once, or only after the target of the connection has been
  logged, which panics on a nil connection.\<close>

definition dial_checked :: "network \<Rightarrow> string \<Rightarrow> bool \<Rightarrow> string \<Rightarrow> (conn \<Rightarrow> 'a main_result) \<Rightarrow> 'a main_result" where
  "dial_checked nw addr tls msg next_step =
     (case nw_Dial nw addr tls of Some e \<Rightarrow> Main_Fatal msg e | None \<Rightarrow> next_step \<lparr>cn_target = addr, cn_tls = tls\<rparr>)"

definition dial_logged :: "network \<Rightarrow> string \<Rightarrow> bool \<Rightarrow> string \<Rightarrow> (conn \<Rightarrow> 'a main_result) \<Rightarrow> 'a main_result" where
  "dial_logged nw addr tls msg next_step =
     (case nw_Dial nw addr tls of Some e \<Rightarrow> Main_Panic | None \<Rightarrow> next_step \<lparr>cn_target = addr, cn_tls = tls\<rparr>)"

text \<open>The conversion to 32 bits.\<close>

definition int32 :: "int \<Rightarrow> int" where
  "int32 i = (i + 2 ^ 31) mod 2 ^ 32 - 2 ^ 31"

record agent_main =
  am_scheduler :: conn
  am_monitor :: conn
  am_limit :: int

definition runAgent :: "network \<Rightarrow> AgentSpec \<Rightarrow> agent_main main_result" where
  "runAgent nw conf =
     dial_logged nw (agent_SchedulerAddress conf) False ''Error dialing scheduler'' (\<lambda>sched.
     dial_logged nw (agent_MonitorAddress conf) False ''Error dialing monitor'' (\<lambda>mon.
       Main_Runs \<lparr>am_scheduler = sched, am_monitor = mon, am_limit = int32 (GetConcurrentProcessLimit (agent_UsageLimits conf))\<rparr>))"

datatype ResizerManager = NoRemoteUsageManager | fixedUsageLimits int | autoUsageLimits int

fun Manage :: "ResizerManager \<Rightarrow> int option" where
  "Manage NoRemoteUsageManager = None"
| "Manage (fixedUsageLimits limit) = Some limit"
| "Manage (autoUsageLimits limit) = Some limit"

definition AutoUsageLimits :: "int outcome \<Rightarrow> ResizerManager outcome" where
  "AutoUsageLimits auto = (case auto of Return n \<Rightarrow> Return (autoUsageLimits n) | Fail e \<Rightarrow> Fail e | Panic \<Rightarrow> Panic)"

record consumerd_main =
  cm_scheduler :: conn
  cm_monitor :: conn
  cm_localUsageMgr :: ResizerManager
  cm_listen :: string

definition runConsumerd :: "network \<Rightarrow> int outcome \<Rightarrow> ConsumerdSpec \<Rightarrow> consumerd_main main_result" where
  "runConsumerd nw auto conf =
     dial_logged nw (consumerd_SchedulerAddress conf) (\<not> consumerd_DisableTLS conf) ''Error dialing scheduler'' (\<lambda>sched.
     dial_logged nw (consumerd_MonitorAddress conf) (\<not> consumerd_DisableTLS conf) ''Error dialing monitor'' (\<lambda>mon.
       (let limit = GetConcurrentProcessLimit (consumerd_UsageLimits conf)
        in case (if limit < 0 then AutoUsageLimits auto else Return (fixedUsageLimits limit)) of
             Return mgr \<Rightarrow>
               (case nw_Listen nw (consumerd_ListenAddress conf) of
                  Some e \<Rightarrow> Main_Fatal ''Error listening on socket'' e
                | None \<Rightarrow> Main_Runs \<lparr>cm_scheduler = sched, cm_monitor = mon, cm_localUsageMgr = mgr, cm_listen = consumerd_ListenAddress conf\<rparr>)
           | _ \<Rightarrow> Main_Panic)))"

record scheduler_main =
  sm_monitor :: conn
  sm_cache :: conn
  sm_listen :: string

definition runScheduler :: "network \<Rightarrow> SchedulerSpec \<Rightarrow> scheduler_main main_result" where
  "runScheduler nw conf =
     (case nw_Listen nw (scheduler_ListenAddress conf) of
        Some _ \<Rightarrow> Main_Panic
      | None \<Rightarrow>
          dial_checked nw (scheduler_MonitorAddress conf) False ''Error dialing monitor'' (\<lambda>mon.
          dial_checked nw (scheduler_CacheAddress conf) False ''Error dialing cache server'' (\<lambda>cache.
            Main_Runs \<lparr>sm_monitor = mon, sm_cache = cache, sm_listen = scheduler_ListenAddress conf\<rparr>)))"

definition runMonitor :: "network \<Rightarrow> MonitorSpec \<Rightarrow> string main_result" where
  "runMonitor nw conf =
     (case nw_Listen nw (monitor_ListenAddress conf) of Some _ \<Rightarrow> Main_Panic | None \<Rightarrow> Main_Runs (monitor_ListenAddress conf))"

datatype storage_spec = Volatile_storage StorageLimitsSpec | Local_storage LocalStorageSpec | S3_storage RemoteStorageSpec

definition cache_providers :: "CacheSpec \<Rightarrow> storage_spec list" where
  "cache_providers conf =
     (case cache_VolatileStorage conf of Some s \<Rightarrow> [Volatile_storage s] | None \<Rightarrow> []) @
     (case cache_LocalStorage conf of Some s \<Rightarrow> [Local_storage s] | None \<Rightarrow> []) @
     (case cache_RemoteStorage conf of Some s \<Rightarrow> [S3_storage s] | None \<Rightarrow> [])"

record 's cache_main =
  cam_server :: "'s list CacheServer"
  cam_monitor :: conn
  cam_listen :: string

text \<open>\<open>create\<close> makes a provider from its part of the configuration and \<open>configure\<close> is its method.\<close>

definition runCache ::
    "network \<Rightarrow> (go_error \<Rightarrow> string) \<Rightarrow> (storage_spec \<Rightarrow> 's) \<Rightarrow> ('s \<Rightarrow> unit outcome \<times> 's) \<Rightarrow> CacheSpec \<Rightarrow> 's cache_main main_result" where
  "runCache nw err_Error create configure conf =
     (case nw_Listen nw (cache_ListenAddress conf) of
        Some e \<Rightarrow> Main_Fatal ''Error listening on socket'' e
      | None \<Rightarrow>
          dial_logged nw (cache_MonitorAddress conf) False ''Error dialing monitor'' (\<lambda>mon.
            (case NewCacheServer err_Error (Chain_Configure configure) (Some (map create (cache_providers conf))) of
               Return srv \<Rightarrow> Main_Runs \<lparr>cam_server = srv, cam_monitor = mon, cam_listen = cache_ListenAddress conf\<rparr>
             | _ \<Rightarrow> Main_Panic)))"

section \<open>The run command\<close>

datatype main_name = M_Agent | M_Consumerd | M_Monitor | M_Scheduler | M_Controller | M_Cache

text \<open>The table of commands: the main functions that each starts.\<close>

definition components :: "(string \<times> main_name list) list" where
  "components =
     [(''agent'', [M_Agent]), (''consumerd'', [M_Consumerd]), (''monitor'', [M_Monitor]), (''scheduler'', [M_Scheduler]),
      (''controller'', [M_Controller]), (''cache'', [M_Cache]),
      (''all'', [M_Agent, M_Consumerd, M_Monitor, M_Scheduler, M_Cache]), (''servers'', [M_Monitor, M_Scheduler, M_Cache])]"

definition UnknownComponent :: "string \<Rightarrow> go_error" where
  "UnknownComponent arg = Error (''Unknown component: '' @ arg)"

definition RunCmd_Args :: "go_error \<Rightarrow> string list \<Rightarrow> go_error option" where
  "RunCmd_Args minimumNArgs args =
     (if args = [] then Some minimumNArgs
      else map_option UnknownComponent (find (\<lambda>a. map_of components a = None) args))"

text \<open>\<open>RunE\<close> starts the commands of the set of arguments, each once, in no fixed order.\<close>

record run_result =
  rr_warning :: bool
  rr_started :: "main_name list"

definition RunCmd_RunE :: "string list \<Rightarrow> run_result" where
  "RunCmd_RunE args =
     (let items = remdups args
      in \<lparr>rr_warning = (length items < length args),
          rr_started = concat (map (\<lambda>a. case map_of components a of Some ms \<Rightarrow> ms | None \<Rightarrow> []) items)\<rparr>)"

section \<open>The environment of a pod\<close>

definition lookup_or_panic :: "(string \<Rightarrow> string option) \<Rightarrow> string \<Rightarrow> string outcome" where
  "lookup_or_panic env name = (case env name of Some v \<Rightarrow> Return v | None \<Rightarrow> Panic)"

definition GetPodName :: "(string \<Rightarrow> string option) \<Rightarrow> string outcome" where
  "GetPodName env = lookup_or_panic env ''KUBECC_POD_NAME''"

definition GetNamespace :: "(string \<Rightarrow> string option) \<Rightarrow> string outcome" where
  "GetNamespace env = lookup_or_panic env ''KUBECC_NAMESPACE''"

definition GetNode :: "(string \<Rightarrow> string option) \<Rightarrow> string outcome" where
  "GetNode env = lookup_or_panic env ''KUBECC_NODE''"

definition MakeDownwardApi :: "(string \<times> string) list" where
  "MakeDownwardApi = [(''KUBECC_POD_NAME'', ''metadata.name''), (''KUBECC_NAMESPACE'', ''metadata.namespace''), (''KUBECC_NODE'', ''spec.nodeName'')]"

definition InCluster :: "(string \<Rightarrow> string option) \<Rightarrow> bool" where
  "InCluster env =
     (let Getenv = (\<lambda>n. case env n of Some v \<Rightarrow> v | None \<Rightarrow> [])
      in Getenv ''KUBERNETES_SERVICE_HOST'' \<noteq> [] \<and> Getenv ''KUBERNETES_SERVICE_PORT'' \<noteq> [])"

section \<open>Behaviour\<close>

text \<open>The message of a failed dial of the agent is never logged: the program panics before.\<close>

lemma agent_dial_error:
  assumes "nw_Dial nw (agent_SchedulerAddress conf) False = Some e \<or> nw_Dial nw (agent_MonitorAddress conf) False = Some e"
  shows "runAgent nw conf = Main_Panic"
  using assms by (auto simp: runAgent_def dial_logged_def split: option.splits)

lemma scheduler_dial_error:
  assumes "nw_Listen nw (scheduler_ListenAddress conf) = None" and "nw_Dial nw (scheduler_MonitorAddress conf) False = Some e"
  shows "runScheduler nw conf = Main_Fatal ''Error dialing monitor'' e"
  using assms by (simp add: runScheduler_def dial_checked_def)

text \<open>A negative limit means the automatic one for the daemon; the agent takes only the default \<open>-1\<close> so.\<close>

lemma consumerd_limit:
  assumes "runConsumerd nw (AutoConcurrentProcessLimit readFile numCPU) conf = Main_Runs m" and "numCPU \<ge> 1"
  shows "\<exists>n. Manage (cm_localUsageMgr m) = Some n \<and> (if GetConcurrentProcessLimit (consumerd_UsageLimits conf) < 0 then 1 \<le> n
    else n = GetConcurrentProcessLimit (consumerd_UsageLimits conf))"
  using assms AutoConcurrentProcessLimit_pos
  by (fastforce simp: runConsumerd_def dial_logged_def AutoUsageLimits_def Let_def split: option.splits outcome.splits if_splits)

lemma agent_limit:
  assumes "runAgent nw conf = Main_Runs am" and "agent_UsageLimits conf = Some n" and "- (2 ^ 31) \<le> n" and "n < 2 ^ 31" and "n \<noteq> -1"
    and "NewAgentServer h readFile numCPU runStore found (am_limit am) = Return srv"
  shows "as_usageLimit srv = n"
  using assms
  by (auto simp: runAgent_def dial_logged_def NewAgentServer_def GetConcurrentProcessLimit_def int32_def split: option.splits if_splits)

text \<open>The order of the providers of the cache is the order of speed: memory, disk, remote.\<close>

fun storage_rank :: "storage_spec \<Rightarrow> nat" where
  "storage_rank (Volatile_storage _) = 0"
| "storage_rank (Local_storage _) = 1"
| "storage_rank (S3_storage _) = 2"

lemma cache_providers_order: "sorted (map storage_rank (cache_providers conf)) \<and> distinct (map storage_rank (cache_providers conf))"
  by (simp add: cache_providers_def split: option.split)

text \<open>A cache server with no storage configured reports no problem, accepts every object and keeps none.\<close>

lemma cache_without_storage:
  assumes "cache_VolatileStorage conf = None" "cache_LocalStorage conf = None" "cache_RemoteStorage conf = None"
    and "nw_Listen nw (cache_ListenAddress conf) = None" and "nw_Dial nw (cache_MonitorAddress conf) False = None"
  shows "\<exists>cam. runCache nw err create configure conf = Main_Runs cam \<and> cas_status (cam_server cam) = EndInitialize (BeginInitialize 0) \<and>
    cache_Push (Chain_Put put) e key obj (cam_server cam) = (Return (), cam_server cam) \<and>
    fst (Chain_Get get e key (the (cas_provider (cam_server cam)))) = Return None"
  using assms by (simp add: runCache_def dial_logged_def cache_providers_def NewCacheServer_def cache_Push_def Chain_Get_def Let_def)

text \<open>The arguments are accepted exactly when there is one and all are known; a component that is named and is
  part of a group that is named is started twice, without a warning.\<close>

lemma RunCmd_Args_accepts: "RunCmd_Args e args = None \<longleftrightarrow> args \<noteq> [] \<and> set args \<subseteq> fst ` set components"
proof -
  have "find (\<lambda>a. map_of components a = None) args = None \<longleftrightarrow> (\<forall>a\<in>set args. map_of components a \<noteq> None)"
    by (auto simp: find_None_iff)
  then show ?thesis unfolding RunCmd_Args_def by (auto simp: map_of_eq_None_iff)
qed

lemma run_group_twice:
  "RunCmd_RunE [''all'', ''monitor''] = \<lparr>rr_warning = False, rr_started = [M_Agent, M_Consumerd, M_Monitor, M_Scheduler, M_Cache, M_Monitor]\<rparr>"
  by (simp add: RunCmd_RunE_def components_def)

text \<open>The variables of the pods that the operator makes are those that are read.\<close>

lemma pod_environment:
  assumes "\<forall>(name, field)\<in>set downwardApiEnv. env name = Some (value_of field)"
  shows "GetPodName env = Return (value_of ''metadata.name'')" "GetNamespace env = Return (value_of ''metadata.namespace'')"
    "GetNode env = Return (value_of ''spec.nodeName'')" "set downwardApiEnv = set MakeDownwardApi"
  using assms by (auto simp: downwardApiEnv_def MakeDownwardApi_def GetPodName_def GetNamespace_def GetNode_def lookup_or_panic_def)

end
