(* ===== verification/Spec2Isabelle.thy ===== *)
theory Spec2Isabelle
  imports ChainStorage ArgsRewrite BrokerProps RingBuffer SplitQueue ToolchainStore SchedulerServer Monitor
    AgentServer Consumerd CacheServer Meta Contexts Consumer Config Operator Executor Prometheus
    SetupProps Teardown Display Console GetCommands Components
begin

text \<open>
  \<^bold>\<open>Verification of kubecc\<close>

  kubecc distributes C and C++ compilations over a Kubernetes cluster. A \<^emph>\<open>consumer\<close> takes the place of
  the compiler and hands its command line to the \<^emph>\<open>consumer daemon\<close> of the host. The daemon parses the
  command, preprocesses it, and runs it locally or sends it to the \<^emph>\<open>scheduler\<close>, which routes it to an
  \<^emph>\<open>agent\<close> with a matching toolchain or answers it from the \<^emph>\<open>cache server\<close>. All of them post metrics to the
  \<^emph>\<open>monitor\<close>, which others listen to. An \<^emph>\<open>operator\<close> deploys the cluster side. This library models these
  parts (sources under \<open>src/\<close>) and proves what makes them correct.

  \<^bold>\<open>Conventions.\<close> A struct is a \<open>record\<close>, an enumeration or a oneof a \<open>datatype\<close>, a call that can fail
  an \<open>outcome\<close> (\<open>Return\<close>, \<open>Fail\<close> with an error, \<open>Panic\<close>), a Go map an association list in the order of a
  range over it. Goroutines and handlers are atomic steps of an executable step function on the state
  of their component; reachability is an inductive predicate over it, and a step that is not enabled
  is \<open>None\<close>. Code outside the repository (ccache, minio, protobuf, gRPC, Kubernetes, the operating
  system) is an argument, and what is assumed of it is a hypothesis of the theorem. Counters are
  integers; words are used for file modes and CPU times; times are nanoseconds. Logs and tracing
  spans are left out. The terms of a property carry the names of the sources.

  \<^bold>\<open>Theories, bottom up.\<close>

  \<^item> \<open>Prelude\<close>, \<open>Paths\<close>, \<open>Strconv\<close>, \<open>Floats\<close>: errors and outcomes, strings and paths of Go's library with
    facts on cleaning and joining, integers to and from text, floating-point numbers as exact values
    with infinities. \<open>Transitions\<close>: runs, reachability and invariants of a step function, a locale that
    every component with a state machine interprets.

  \<^item> Storage (\<open>src/pkg/storage\<close>). \<open>ExpirationHeap\<close> and \<open>ExpirationNotifier\<close> (\<open>local.go\<close>): the array heap is
    ordered and keeps its entries; the waiting goroutine misses no update and pops what has expired,
    and loses an entry when two dates are equal. \<open>StorageTypes\<close> states the contract of a provider as a
    locale; \<open>LocalStorage\<close>, \<open>VolatileStorage\<close>, \<open>S3Storage\<close> (\<open>local.go\<close>, \<open>volatile.go\<close>, \<open>s3.go\<close>) satisfy it and have
    round trips, size accounting, termination of the eviction and the restart from disk;
    \<open>ChainStorage\<close> (\<open>chain.go\<close>) returns only what was stored, over any chain of providers, write-backs
    included. \<open>CacheServer\<close> (\<open>cachesrv/server.go\<close>) serves such a provider.

  \<^item> Command lines (\<open>src/pkg/cc\<close>). \<open>Filename\<close>, \<open>Args\<close> model \<open>filename.go\<close> and \<open>args.go\<close>; \<open>ArgsParse\<close> and
    \<open>ArgsRewrite\<close> show that what the parser records is right, that a command it marks as remote has no
    option that must stay local, and what the rewriting methods change.

  \<^item> \<open>CompileTasks\<close> (\<open>cc/compile.go\<close>, \<open>cc/preprocess.go\<close>, \<open>cc/controller\<close>, \<open>run/command.go\<close>, \<open>run/store.go\<close>):
    the tasks and the three request managers; the request that is sent has the arguments of the
    command and the output of the preprocessor. \<open>Executor\<close> (\<open>run/executor.go\<close>, \<open>run/task.go\<close>, \<open>sleep\<close>):
    packaged requests, the executors and the sleep toolchain. \<open>Contexts\<close> (\<open>run/task.go\<close>,
    \<open>util/context.go\<close>, \<open>util/timer.go\<close>): combined contexts meet the contract of a context, a locale that
    is interpreted for both; the ticks of the timers.

  \<^item> \<open>Types\<close> (\<open>src/pkg/types\<close>): messages, keys, hashes, names. \<open>Meta\<close> (\<open>meta\<close>, \<open>identity\<close>, \<open>servers/grpc.go\<close>): the
    metadata of a call; the identity of a caller survives it, and the context of a handler is well
    typed whatever was received.

  \<^item> Scheduler (\<open>src/pkg/scheduler\<close>). \<open>Router\<close> (\<open>router.go\<close>): reference counts equal the goroutines that
    hold them, requests reach agents with their toolchain. \<open>Broker\<close> (\<open>broker.go\<close>), with invariants in
    \<open>BrokerInv\<close> and properties in \<open>BrokerProps\<close>: requests are conserved, pending ones are in the router,
    tokens bound the work of an agent, the work of an agent that goes away is taken up again, and
    every run of the broker is one of the router. \<open>SchedulerServer\<close> (\<open>server.go\<close>, \<open>optimizer.go\<close>): the
    stream handlers and the status they report.

  \<^item> Host side (\<open>src/pkg/consumerd\<close>, \<open>src/pkg/run\<close>, \<open>src/pkg/toolchains\<close>, \<open>src/pkg/consumer\<close>). \<open>WorkerPool\<close>, \<open>Telemetry\<close>,
    \<open>SplitQueue\<close>: tasks are in exactly one place, exclusive tasks run on their side, the reported
    counters are the numbers of tasks. \<open>ToolchainStore\<close>: the store and the discovery of compilers.
    \<open>Consumerd\<close> (\<open>server.go\<close>): the retry loop returns the first result that is not a retry. \<open>Consumer\<close>:
    the search for the compiler does not find the consumer itself.

  \<^item> \<open>AgentServer\<close> (\<open>agent/server.go\<close>, \<open>host\<close>): every request is answered once. \<open>Clients\<close> (\<open>src/pkg/clients\<close>):
    the stream manager, the request client whose calls get their own responses, availability, metrics
    providers and listeners. \<open>Status\<close> (\<open>metrics/status.go\<close>): health from conditions. \<open>Monitor\<close>
    (\<open>monitor/server.go\<close>, \<open>monitor/store.go\<close>): a listener has the current value; the store meets the
    contract of a key-value store. \<open>Prometheus\<close> (\<open>monitor/prometheus.go\<close>): the exported gauges.
    \<open>RingBuffer\<close> (\<open>stream/ringlinebuffer.go\<close>): the last lines are kept.

  \<^item> \<open>Config\<close> (\<open>src/pkg/config\<close>) and \<open>Operator\<close> (\<open>src/pkg/resources\<close>, \<open>src/controllers\<close>): the deployed components load
    the configuration that the operator wrote and find each other through its services.

  \<^item> The program \<open>kubecc\<close> (\<open>src/cmd/kubecc\<close>, \<open>src/pkg/kubecc\<close>). \<open>Machine\<close>: a machine with files, links and services, the
    calls of Go's \<open>os\<close> package on it and what each leaves alone; actions that end with an error keep the
    machine they made. \<open>Tools\<close> (\<open>main.go\<close>, \<open>tools\<close>): the name under which the program is started decides what
    it does; \<open>exec\<close>, \<open>make\<close> and the workers of \<open>makesleep\<close>. \<open>Setup\<close> (\<open>commands/setup.go\<close>, \<open>commands/helpers.go\<close>,
    \<open>internal\<close>) with properties in \<open>SetupProps\<close>: a setup that ended well leaves links in the place of the
    compilers and a configuration that the components load; the default installation fails.
    \<open>Teardown\<close> (\<open>commands/teardown.go\<close>): what it leaves behind. \<open>GetCommands\<close> (\<open>commands/get.go\<close>): the lists that
    are printed are those of the connected providers. \<open>Components\<close> (\<open>components\<close>, \<open>consumerd/queue.go\<close>,
    \<open>src/pkg/cluster\<close>): what the main functions dial, listen on and start.

  \<^item> Terminals. \<open>Display\<close> (\<open>src/pkg/ui\<close>): the sources of the status display; the table of agents has a row for
    every agent, and an agent that reconnects too early crashes it. \<open>Console\<close> (\<open>src/internal/zapkc\<close>,
    \<open>logkc/log.go\<close>, \<open>stream/stream.go\<close>): colors, the caller column against a reference, the redrawn display
    over the ring buffer.

  \<^item> This theory composes the host side and the agent: what a remote compilation writes is the object that a
    compiler of the agent, equivalent to the one asked for, made from the preprocessed source. That the
    answer is that of the request, on the way through the scheduler, is the subject of \<open>BrokerProps\<close>,
    \<open>AgentServer\<close> and \<open>Clients\<close>.

  \<^bold>\<open>Loops and bounds.\<close> Loops over data are structural recursion; the heap's sift-down and the binary
  search have measures; the eviction loop is shown to end. The loop of \<open>consumerd\<close>'s \<open>Run\<close> is a
  \<open>partial_function\<close>: the property says when it returns, and that it does not when every attempt asks
  for a retry. The two loops of the setup that ask until an answer is accepted are partial functions as
  well; a setup that ended is one for which they returned. Servers run for ever and are step functions without fuel. The capacities of the code
  (1000 tokens, a million posts, buffered channels) are constants of the model.

  \<^bold>\<open>Not modelled.\<close> The encodings of protobuf, JSON and YAML (parameters with round-trip hypotheses), the
  generated code, the tree of commands and the shell completion, the layout and key loop of the status
  display, the main function of the controller, the configuration of logging, tracing and gRPC, the
  functional options of constructors (they are the arguments of the definitions), the toolchain watcher
  of the scheduler (its values are events of the broker), the test environments, mocks and build
  scripts. These are input and output, generated, or calls into libraries that are not part of the
  sources. Of \<open>optimizer.go\<close> the listeners that feed it are left out, of \<open>util/context.go\<close> the
  notifications about long waits.
\<close>

section \<open>A remote compilation from end to end\<close>


definition agent_system :: system where
  "agent_system = sample_system\<lparr>sys_ReadFile := (\<lambda>p. if p = [] then Fail (Error ''open'') else Return (''object of '' @ p))\<rparr>"

definition daemon_toolchain :: Toolchain where
  "daemon_toolchain = (gcc ''/opt/bin/gcc'')\<lparr>tc_Version := ''11''\<rparr>"

definition sample_remote :: "RunResponse outcome \<times> (string \<times> bytes) option" where
  "sample_remote =
     (case sample_agent of
        Return s \<Rightarrow> send_Process sample_system (\<lambda>creq. agent_compile agent_system creq s) daemon_toolchain ''id'' sample_request
                      (NewArgParser [''-c'', ''-DX'', ''a.c''])
      | _ \<Rightarrow> (Panic, None))"


end
